theory Spec2Isabelle
  imports Main "HOL-Library.Multiset"
begin

section \<open>Python values and strings\<close>

text \<open>
  A Python \<^verbatim>\<open>str\<close> is a sequence of code points, so \<open>length\<close> is Python's
  \<^verbatim>\<open>len\<close>. Bytes are numbers below 256. ASCII literals of the source are
  written with \<open>asc\<close>.
\<close>

type_synonym ustr = "nat list"

definition asc :: "string \<Rightarrow> ustr" where
  "asc s = map of_char s"

text \<open>
  The arguments of the methods are dynamically typed. \<open>PNone\<close> is the default of every
  optional argument of \<^verbatim>\<open>translate\<close>. Floating point numbers are left out.
\<close>

datatype pyval =
    PNone
  | PBool bool
  | PInt int
  | PStr ustr
  | PList "pyval list"
  | PTuple "pyval list"
  | PDict "(pyval \<times> pyval) list"

text \<open>Python's truth value testing: \<^verbatim>\<open>None\<close>, \<^verbatim>\<open>False\<close>, zero and every empty
  container are false.\<close>

fun truthy :: "pyval \<Rightarrow> bool" where
  "truthy PNone = False"
| "truthy (PBool b) = b"
| "truthy (PInt i) = (i \<noteq> 0)"
| "truthy (PStr s) = (s \<noteq> [])"
| "truthy (PList xs) = (xs \<noteq> [])"
| "truthy (PTuple xs) = (xs \<noteq> [])"
| "truthy (PDict kvs) = (kvs \<noteq> [])"

text \<open>\<^verbatim>\<open>a or b\<close>: the first operand when it is true, the second otherwise.\<close>

definition py_or :: "pyval \<Rightarrow> pyval \<Rightarrow> pyval" where
  "py_or a b = (if truthy a then a else b)"

text \<open>\<^verbatim>\<open>isinstance(v, list)\<close>\<close>

fun isinstance_list :: "pyval \<Rightarrow> bool" where
  "isinstance_list (PList xs) = True"
| "isinstance_list v = False"

text \<open>Exceptions that leave a method. \<^verbatim>\<open>exit(1)\<close> raises \<open>SystemExit 1\<close>, which ends
  the process unless a caller catches it.\<close>

datatype pyexc =
    SystemExit nat
  | UnicodeEncodeError
  | UnicodeDecodeError
  | ValueError
  | OSError

text \<open>Decimal digits of a number, as an f-string prints \<^verbatim>\<open>len(text)\<close> or a status code.\<close>

fun decimal :: "nat \<Rightarrow> ustr" where
  "decimal n = (if n < 10 then [48 + n] else decimal (n div 10) @ [48 + n mod 10])"

declare decimal.simps [simp del]

section \<open>UTF-8 and percent-encoding\<close>

text \<open>
  \<^verbatim>\<open>str.encode('utf8')\<close> is strict: a surrogate code point has no encoding and raises
  \<^verbatim>\<open>UnicodeEncodeError\<close>. Code points end at U+10FFFF.
\<close>

definition utf8_char :: "nat \<Rightarrow> nat list option" where
  "utf8_char c =
     (if c < 0x80 then Some [c]
      else if c < 0x800 then Some [0xC0 + c div 64, 0x80 + c mod 64]
      else if c < 0x10000 then
        (if 0xD800 \<le> c \<and> c \<le> 0xDFFF then None
         else Some [0xE0 + c div 4096, 0x80 + (c div 64) mod 64, 0x80 + c mod 64])
      else if c < 0x110000 then
        Some [0xF0 + c div 262144, 0x80 + (c div 4096) mod 64,
              0x80 + (c div 64) mod 64, 0x80 + c mod 64]
      else None)"

fun utf8_encode :: "ustr \<Rightarrow> pyexc + nat list" where
  "utf8_encode [] = Inr []"
| "utf8_encode (c # cs) =
     (case utf8_char c of
        None \<Rightarrow> Inl UnicodeEncodeError
      | Some bs \<Rightarrow> (case utf8_encode cs of Inl e \<Rightarrow> Inl e | Inr rest \<Rightarrow> Inr (bs @ rest)))"

text \<open>\<^verbatim>\<open>bytes.decode('utf8')\<close>, strict as well: no overlong form, no surrogate, nothing
  above U+10FFFF, no truncated sequence.\<close>

definition is_cont :: "nat \<Rightarrow> bool" where
  "is_cont b = (0x80 \<le> b \<and> b < 0xC0)"

fun utf8_decode :: "nat list \<Rightarrow> pyexc + ustr" where
  "utf8_decode [] = Inr []"
| "utf8_decode (b0 # bs) =
     (if b0 < 0x80 then
        (case utf8_decode bs of Inl e \<Rightarrow> Inl e | Inr cs \<Rightarrow> Inr (b0 # cs))
      else if 0xC2 \<le> b0 \<and> b0 < 0xE0 then
        (case bs of
           b1 # r \<Rightarrow>
             (if is_cont b1 then
                (case utf8_decode r of Inl e \<Rightarrow> Inl e
                 | Inr cs \<Rightarrow> Inr (((b0 - 0xC0) * 64 + (b1 - 0x80)) # cs))
              else Inl UnicodeDecodeError)
         | _ \<Rightarrow> Inl UnicodeDecodeError)
      else if 0xE0 \<le> b0 \<and> b0 < 0xF0 then
        (case bs of
           b1 # b2 # r \<Rightarrow>
             (let c = (b0 - 0xE0) * 4096 + (b1 - 0x80) * 64 + (b2 - 0x80) in
              if is_cont b1 \<and> is_cont b2 \<and> 0x800 \<le> c \<and> \<not> (0xD800 \<le> c \<and> c \<le> 0xDFFF) then
                (case utf8_decode r of Inl e \<Rightarrow> Inl e | Inr cs \<Rightarrow> Inr (c # cs))
              else Inl UnicodeDecodeError)
         | _ \<Rightarrow> Inl UnicodeDecodeError)
      else if 0xF0 \<le> b0 \<and> b0 < 0xF5 then
        (case bs of
           b1 # b2 # b3 # r \<Rightarrow>
             (let c = (b0 - 0xF0) * 262144 + (b1 - 0x80) * 4096 + (b2 - 0x80) * 64 + (b3 - 0x80) in
              if is_cont b1 \<and> is_cont b2 \<and> is_cont b3 \<and> 0x10000 \<le> c \<and> c < 0x110000 then
                (case utf8_decode r of Inl e \<Rightarrow> Inl e | Inr cs \<Rightarrow> Inr (c # cs))
              else Inl UnicodeDecodeError)
         | _ \<Rightarrow> Inl UnicodeDecodeError)
      else Inl UnicodeDecodeError)"

text \<open>
  \<^verbatim>\<open>urllib.parse.quote(bs)\<close> with its default \<^verbatim>\<open>safe='/'\<close>: a byte of the always-safe
  set or of \<^verbatim>\<open>safe\<close> stays as the character it is, every other byte becomes
  \<^verbatim>\<open>'%{:02X}'.format(b)\<close>.
\<close>

definition ALWAYS_SAFE :: "nat set" where
  "ALWAYS_SAFE = set (asc ''ABCDEFGHIJKLMNOPQRSTUVWXYZabcdefghijklmnopqrstuvwxyz0123456789_.-~'')"

definition hexdigit :: "nat \<Rightarrow> nat" where
  "hexdigit d = asc ''0123456789ABCDEF'' ! (d mod 16)"

definition quoter :: "nat \<Rightarrow> ustr" where
  "quoter b =
     (if b \<in> ALWAYS_SAFE \<union> set (asc ''/'') then [b]
      else [37, hexdigit (b div 16), hexdigit (b mod 16)])"

definition quote :: "nat list \<Rightarrow> ustr" where
  "quote bs = concat (map quoter bs)"

text \<open>Percent-decoding, the inverse the endpoint applies to the query: \<^verbatim>\<open>%XX\<close> is the
  byte with that hexadecimal value, any other character is itself.\<close>

definition hexval :: "nat \<Rightarrow> nat option" where
  "hexval c =
     (if 48 \<le> c \<and> c \<le> 57 then Some (c - 48)
      else if 65 \<le> c \<and> c \<le> 70 then Some (c - 55)
      else if 97 \<le> c \<and> c \<le> 102 then Some (c - 87)
      else None)"

fun unquote :: "ustr \<Rightarrow> nat list option" where
  "unquote [] = Some []"
| "unquote (c # cs) =
     (if c = 37 then
        (case cs of
           h # l # rest \<Rightarrow>
             (case (hexval h, hexval l) of
                (Some a, Some b) \<Rightarrow> map_option (Cons (16 * a + b)) (unquote rest)
              | _ \<Rightarrow> None)
         | _ \<Rightarrow> None)
      else map_option (Cons c) (unquote cs))"

section \<open>The marker pattern\<close>

text \<open>
  \<^verbatim>\<open>self.pattern = r'(?s)class="(?:t0|result-container)">(.*?)<'\<close> is set once in
  \<^verbatim>\<open>__init__\<close> and never assigned again. The matcher below follows the pattern piece by
  piece, as the backtracking engine of \<^verbatim>\<open>re\<close> tries it at one start position.
\<close>

text \<open>A literal of the pattern: the input must start with it; the rest is returned.\<close>

fun literal :: "ustr \<Rightarrow> ustr \<Rightarrow> ustr option" where
  "literal [] s = Some s"
| "literal (p # ps) [] = None"
| "literal (p # ps) (c # cs) = (if p = c then literal ps cs else None)"

text \<open>
  \<^verbatim>\<open>(.*?)<\<close> under \<^verbatim>\<open>(?s)\<close>: the dot matches every character, line breaks too, and the
  lazy star takes as few characters as it can, so the group ends before the first
  \<^verbatim>\<open><\<close> (code point 60). The result is the group and the input after the \<^verbatim>\<open><\<close>.
\<close>

fun lazy_group :: "ustr \<Rightarrow> (ustr \<times> ustr) option" where
  "lazy_group [] = None"
| "lazy_group (c # cs) =
     (if c = 60 then Some ([], cs)
      else (case lazy_group cs of None \<Rightarrow> None | Some (g, r) \<Rightarrow> Some (c # g, r)))"

text \<open>One alternative of \<^verbatim>\<open>(?:t0|result-container)\<close> followed by the rest of the pattern.\<close>

definition alternative :: "ustr \<Rightarrow> ustr \<Rightarrow> (ustr \<times> ustr) option" where
  "alternative name s =
     (case literal name s of
        None \<Rightarrow> None
      | Some r \<Rightarrow> (case literal (asc [CHR 0x22, CHR ''>'']) r of None \<Rightarrow> None | Some r' \<Rightarrow> lazy_group r'))"

text \<open>The whole pattern at the start of the input: the alternatives are tried in the
  order written, the second only when the first fails.\<close>

definition match_here :: "ustr \<Rightarrow> (ustr \<times> ustr) option" where
  "match_here s =
     (case literal (asc (''class='' @ [CHR 0x22])) s of
        None \<Rightarrow> None
      | Some r \<Rightarrow>
          (case alternative (asc ''t0'') r of
             Some m \<Rightarrow> Some m
           | None \<Rightarrow> alternative (asc ''result-container'') r))"

lemma literal_iff: "literal p s = Some r \<longleftrightarrow> s = p @ r"
  by (induction p s rule: literal.induct) auto

lemma lazy_group_SomeD: "lazy_group s = Some (g, r) \<Longrightarrow> s = g @ 60 # r \<and> 60 \<notin> set g"
  by (induction s arbitrary: g) (auto split: if_splits option.splits)

lemma lazy_group_SomeI: "60 \<notin> set g \<Longrightarrow> lazy_group (g @ 60 # r) = Some (g, r)"
  by (induction g) simp_all

lemma lazy_group_iff: "lazy_group s = Some (g, r) \<longleftrightarrow> s = g @ 60 # r \<and> 60 \<notin> set g"
  using lazy_group_SomeD lazy_group_SomeI by blast

lemma lazy_group_None_iff: "lazy_group s = None \<longleftrightarrow> 60 \<notin> set s"
  by (induction s) (auto split: option.splits)

lemma alternative_shorter: "alternative name s = Some (g, r) \<Longrightarrow> length r < length s"
  by (auto simp: alternative_def literal_iff lazy_group_iff split: option.splits)

lemma match_here_shorter: "match_here s = Some (g, r) \<Longrightarrow> length r < length s"
  by (auto simp: match_here_def literal_iff split: option.splits dest!: alternative_shorter)

text \<open>
  \<^verbatim>\<open>re.findall\<close>: the groups of the matches found from left to right, each search
  starting where the previous match ended (a match of this pattern is never empty).
\<close>

function findall :: "ustr \<Rightarrow> ustr list" where
  "findall s =
     (case match_here s of
        Some (g, r) \<Rightarrow> g # findall r
      | None \<Rightarrow> (case s of [] \<Rightarrow> [] | c # cs \<Rightarrow> findall cs))"
  by pat_completeness auto
termination
  by (relation "measure length") (auto simp: match_here_shorter)

declare findall.simps [simp del]

section \<open>html.unescape\<close>

text \<open>
  \<^verbatim>\<open>html.unescape\<close> of the standard library (Python 3.11), after its source. Its pattern
  \<^verbatim>\<open>&(#[0-9]+;?|#[xX][0-9a-fA-F]+;?|[^\t\n\f <&#;]{1,32};?)\<close> is tried at every
  \<^verbatim>\<open>&\<close> from left to right; each match is replaced by what \<^verbatim>\<open>_replace_charref\<close>
  gives for its group, and the scan goes on after the match. The table of named
  references \<^verbatim>\<open>html.entities.html5\<close> is a parameter.
\<close>

definition is_digit :: "nat \<Rightarrow> bool" where
  "is_digit c = (48 \<le> c \<and> c \<le> 57)"

definition is_hexdigit :: "nat \<Rightarrow> bool" where
  "is_hexdigit c = (is_digit c \<or> (97 \<le> c \<and> c \<le> 102) \<or> (65 \<le> c \<and> c \<le> 70))"

definition is_name_char :: "nat \<Rightarrow> bool" where
  "is_name_char c = (c \<notin> set (asc [CHR 0x09, CHR 0x0A, CHR 0x0C, CHR '' '', CHR ''<'', CHR ''&'', CHR ''#'', CHR '';'']))"

definition opt_semicolon :: "ustr \<Rightarrow> ustr \<times> ustr" where
  "opt_semicolon s = (case s of c # cs \<Rightarrow> if c = 59 then ([59], cs) else ([], s) | [] \<Rightarrow> ([], s))"

definition charref_decimal :: "ustr \<Rightarrow> (ustr \<times> ustr) option" where
  "charref_decimal s =
     (case s of
        c # cs \<Rightarrow>
          (if c = 35 \<and> takeWhile is_digit cs \<noteq> [] then
             (let (semi, rest) = opt_semicolon (dropWhile is_digit cs)
              in Some (c # takeWhile is_digit cs @ semi, rest))
           else None)
      | [] \<Rightarrow> None)"

definition charref_hex :: "ustr \<Rightarrow> (ustr \<times> ustr) option" where
  "charref_hex s =
     (case s of
        c # x # cs \<Rightarrow>
          (if c = 35 \<and> (x = 120 \<or> x = 88) \<and> takeWhile is_hexdigit cs \<noteq> [] then
             (let (semi, rest) = opt_semicolon (dropWhile is_hexdigit cs)
              in Some (c # x # takeWhile is_hexdigit cs @ semi, rest))
           else None)
      | _ \<Rightarrow> None)"

definition charref_name :: "ustr \<Rightarrow> (ustr \<times> ustr) option" where
  "charref_name s =
     (let name = takeWhile is_name_char (take 32 s)
      in if name = [] then None
         else (let (semi, rest) = opt_semicolon (drop (length name) s)
               in Some (name @ semi, rest)))"

definition charref :: "ustr \<Rightarrow> (ustr \<times> ustr) option" where
  "charref s =
     (case charref_decimal s of
        Some m \<Rightarrow> Some m
      | None \<Rightarrow> (case charref_hex s of Some m \<Rightarrow> Some m | None \<Rightarrow> charref_name s))"

text \<open>
  \<^verbatim>\<open>int(s, base)\<close> on digits of the base. In base 10 a string of more than 4300 digits
  raises \<^verbatim>\<open>ValueError\<close> (the limit \<^verbatim>\<open>sys.get_int_max_str_digits()\<close> has by default, leading
  zeros counted); base 16 has no limit.
\<close>

definition py_int :: "nat \<Rightarrow> ustr \<Rightarrow> nat" where
  "py_int base ds = foldl (\<lambda>a d. a * base + (case hexval d of Some v \<Rightarrow> v | None \<Rightarrow> 0)) 0 ds"

definition int_decimal :: "ustr \<Rightarrow> pyexc + nat" where
  "int_decimal ds = (if 4300 < length ds then Inl ValueError else Inr (py_int 10 ds))"

definition invalid_charrefs :: "(nat \<times> nat) list" where
  "invalid_charrefs =
     [(0x00, 0xFFFD), (0x0D, 0x0D), (0x80, 0x20AC), (0x81, 0x81), (0x82, 0x201A), (0x83, 0x0192),
      (0x84, 0x201E), (0x85, 0x2026), (0x86, 0x2020), (0x87, 0x2021), (0x88, 0x02C6),
      (0x89, 0x2030), (0x8A, 0x0160), (0x8B, 0x2039), (0x8C, 0x0152), (0x8D, 0x8D),
      (0x8E, 0x017D), (0x8F, 0x8F), (0x90, 0x90), (0x91, 0x2018), (0x92, 0x2019),
      (0x93, 0x201C), (0x94, 0x201D), (0x95, 0x2022), (0x96, 0x2013), (0x97, 0x2014),
      (0x98, 0x02DC), (0x99, 0x2122), (0x9A, 0x0161), (0x9B, 0x203A), (0x9C, 0x0153),
      (0x9D, 0x9D), (0x9E, 0x017E), (0x9F, 0x0178)]"

definition invalid_codepoint :: "nat \<Rightarrow> bool" where
  "invalid_codepoint n =
     ((0x1 \<le> n \<and> n \<le> 0x8) \<or> (0xE \<le> n \<and> n \<le> 0x1F) \<or> (0x7F \<le> n \<and> n \<le> 0x9F)
      \<or> (0xFDD0 \<le> n \<and> n \<le> 0xFDEF) \<or> n = 0xB
      \<or> (n \<le> 0x10FFFF \<and> (n mod 0x10000 = 0xFFFE \<or> n mod 0x10000 = 0xFFFF)))"

definition strip_semicolon :: "ustr \<Rightarrow> ustr" where
  "strip_semicolon s = rev (dropWhile (\<lambda>c. c = 59) (rev s))"

fun longest_name :: "(ustr \<Rightarrow> ustr option) \<Rightarrow> ustr \<Rightarrow> nat \<Rightarrow> ustr option" where
  "longest_name entities s 0 = None"
| "longest_name entities s (Suc x) =
     (if Suc x \<le> 1 then None
      else (case entities (take (Suc x) s) of
              Some v \<Rightarrow> Some (v @ drop (Suc x) s)
            | None \<Rightarrow> longest_name entities s x))"

definition numeric_charref :: "nat \<Rightarrow> ustr" where
  "numeric_charref num =
     (case map_of invalid_charrefs num of
        Some c \<Rightarrow> [c]
      | None \<Rightarrow>
          if (0xD800 \<le> num \<and> num \<le> 0xDFFF) \<or> num > 0x10FFFF then [0xFFFD]
          else if invalid_codepoint num then []
          else [num])"

definition named_charref :: "(ustr \<Rightarrow> ustr option) \<Rightarrow> ustr \<Rightarrow> ustr" where
  "named_charref entities s =
     (case entities s of
        Some v \<Rightarrow> v
      | None \<Rightarrow>
          (case longest_name entities s (length s - 1) of
             Some v \<Rightarrow> v
           | None \<Rightarrow> 38 # s))"

text \<open>\<^verbatim>\<open>_replace_charref\<close> on the group of a match, which is never empty and has a digit
  after \<^verbatim>\<open>#\<close> or \<^verbatim>\<open>#x\<close>. Only the decimal form can raise.\<close>

fun replace_charref :: "(ustr \<Rightarrow> ustr option) \<Rightarrow> ustr \<Rightarrow> pyexc + ustr" where
  "replace_charref entities [] = Inr (named_charref entities [])"
| "replace_charref entities [c] = Inr (named_charref entities [c])"
| "replace_charref entities (c # x # ds) =
     (if c = 35 then
        (if x = 120 \<or> x = 88 then Inr (numeric_charref (py_int 16 (strip_semicolon ds)))
         else (case int_decimal (strip_semicolon (x # ds)) of
                 Inl err \<Rightarrow> Inl err
               | Inr num \<Rightarrow> Inr (numeric_charref num)))
      else Inr (named_charref entities (c # x # ds)))"

lemma opt_semicolon_length: "opt_semicolon s = (semi, rest) \<Longrightarrow> length rest \<le> length s"
  by (auto simp: opt_semicolon_def split: list.splits if_splits)

lemma length_dropWhile_le': "length (dropWhile P xs) \<le> length xs"
  by (induction xs) auto

lemma charref_length: "charref s = Some (g, rest) \<Longrightarrow> length rest \<le> length s"
  by (auto simp: charref_def charref_decimal_def charref_hex_def charref_name_def Let_def
      split: option.splits list.splits if_splits prod.splits
      dest!: opt_semicolon_length intro: order_trans [OF _ length_dropWhile_le'] le_SucI)

text \<open>\<^verbatim>\<open>_charref.sub(_replace_charref, s)\<close>: the replacements are made from left to right, and
  the first one that raises ends the call.\<close>

function html_unescape :: "(ustr \<Rightarrow> ustr option) \<Rightarrow> ustr \<Rightarrow> pyexc + ustr" where
  "html_unescape entities [] = Inr []"
| "html_unescape entities (c # cs) =
     (if c = 38 then
        (case charref cs of
           Some (g, rest) \<Rightarrow>
             (case replace_charref entities g of
                Inl err \<Rightarrow> Inl err
              | Inr x \<Rightarrow>
                  (case html_unescape entities rest of
                     Inl err \<Rightarrow> Inl err
                   | Inr d \<Rightarrow> Inr (x @ d)))
         | None \<Rightarrow>
             (case html_unescape entities cs of Inl err \<Rightarrow> Inl err | Inr d \<Rightarrow> Inr (c # d)))
      else (case html_unescape entities cs of Inl err \<Rightarrow> Inl err | Inr d \<Rightarrow> Inr (c # d)))"
  by pat_completeness auto
termination
  by (relation "measure (\<lambda>(h, s). length s)") (auto dest!: charref_length)

section \<open>The translator, its environment and its effects\<close>

text \<open>The attributes \<^verbatim>\<open>__init__\<close> stores. Each holds whatever value the caller passed.\<close>

record EasyGoogleTranslate =
  source_language :: pyval
  target_language :: pyval
  timeout :: pyval
  proxies :: pyval

text \<open>\<^verbatim>\<open>__init__(self, source_language='auto', target_language='tr', timeout=5,
  proxies=None)\<close>: an argument that is not passed (\<open>None\<close> here) takes the default of
  the signature.\<close>

definition EasyGoogleTranslate_init ::
  "pyval option \<Rightarrow> pyval option \<Rightarrow> pyval option \<Rightarrow> pyval option \<Rightarrow> EasyGoogleTranslate" where
  "EasyGoogleTranslate_init src tgt tmo prx =
     \<lparr>source_language = (case src of None \<Rightarrow> PStr (asc ''auto'') | Some v \<Rightarrow> v),
      target_language = (case tgt of None \<Rightarrow> PStr (asc ''tr'') | Some v \<Rightarrow> v),
      timeout = (case tmo of None \<Rightarrow> PInt 5 | Some v \<Rightarrow> v),
      proxies = (case prx of None \<Rightarrow> PNone | Some v \<Rightarrow> v)\<rparr>"

text \<open>What \<^verbatim>\<open>requests.get(url, timeout=timeout, proxies=proxies)\<close> is called with.\<close>

record request =
  req_url :: ustr
  req_timeout :: pyval
  req_proxies :: pyval

text \<open>What it gives back: a response, a \<^verbatim>\<open>RequestException\<close> with its message (timeout,
  DNS failure, refused connection, proxy failure), or an exception of another class.\<close>

record response =
  status_code :: nat
  reason :: ustr
  resp_url :: ustr
  resp_text :: ustr

datatype net_result =
    RequestException ustr
  | OtherException pyexc
  | Response response

text \<open>
  \<^verbatim>\<open>response.raise_for_status()\<close> raises \<^verbatim>\<open>HTTPError\<close>, a \<^verbatim>\<open>RequestException\<close>, for a
  status code from 400 to 599 and returns for every other one. The result is the message
  of the exception, if one is raised.
\<close>

definition raise_for_status :: "response \<Rightarrow> ustr option" where
  "raise_for_status r =
     (if 400 \<le> status_code r \<and> status_code r < 500 then
        Some (decimal (status_code r) @ asc '' Client Error: '' @ reason r
              @ asc '' for url: '' @ resp_url r)
      else if 500 \<le> status_code r \<and> status_code r < 600 then
        Some (decimal (status_code r) @ asc '' Server Error: '' @ reason r
              @ asc '' for url: '' @ resp_url r)
      else None)"

text \<open>
  What the program does not decide is a parameter:
  \<^item> \<open>requests_get k\<close>: the outcome of the \<open>k\<close>-th request of the run (counted from 0);
  \<^item> \<open>html5\<close>: the table \<^verbatim>\<open>html.entities.html5\<close> of the named character references;
  \<^item> \<open>str_of\<close>: \<^verbatim>\<open>str()\<close> of a value that is not a string, as an f-string formats it;
  \<^item> the scheduling of the thread pool, as \<^verbatim>\<open>as_completed\<close> meets it: \<open>done_early i\<close>
    says that the future submitted at position \<open>i\<close> had finished when \<^verbatim>\<open>as_completed\<close>
    was called; \<open>set_rank\<close> orders those futures as the set in which \<^verbatim>\<open>as_completed\<close>
    collects them gives them out; \<open>completion_rank\<close> orders the futures by the moment
    they finish (ties keep the submission order).
\<close>

record env =
  requests_get :: "nat \<Rightarrow> request \<Rightarrow> net_result"
  html5 :: "ustr \<Rightarrow> ustr option"
  str_of :: "pyval \<Rightarrow> ustr"
  done_early :: "nat \<Rightarrow> bool"
  set_rank :: "nat \<Rightarrow> nat"
  completion_rank :: "nat \<Rightarrow> nat"

text \<open>A path names nothing, something that is not a regular file (a directory), or a
  regular file. A regular file is modelled by what reading it as UTF-8 text gives: its
  text, or the exception the read raises.\<close>

datatype fsnode =
    Missing
  | NotRegular
  | Regular "pyexc + ustr"

text \<open>The state a method runs in: the instance, the requests sent so far (oldest
  first), the lines printed, the file system, the paths the process may not write (no
  permission, a read-only file system), and the paths opened for reading.\<close>

record pystate =
  self :: EasyGoogleTranslate
  requests :: "request list"
  stdout :: "ustr list"
  files :: "ustr \<Rightarrow> fsnode"
  write_denied :: "ustr \<Rightarrow> bool"
  opened :: "ustr list"

definition py_print :: "ustr \<Rightarrow> pystate \<Rightarrow> pystate" where
  "py_print line s = s\<lparr>stdout := stdout s @ [line]\<rparr>"

text \<open>\<^verbatim>\<open>open(path, 'w')\<close> raises an \<^verbatim>\<open>OSError\<close> for a directory (\<^verbatim>\<open>IsADirectoryError\<close>) and
  for a path the process may not write (\<^verbatim>\<open>PermissionError\<close>); otherwise it creates the
  file, or empties the one that is there.\<close>

definition writable :: "pystate \<Rightarrow> ustr \<Rightarrow> bool" where
  "writable s path = (case files s path of NotRegular \<Rightarrow> False | _ \<Rightarrow> \<not> write_denied s path)"

text \<open>\<^verbatim>\<open>{v}\<close> in an f-string: a string is inserted as it is.\<close>

definition format_value :: "env \<Rightarrow> pyval \<Rightarrow> ustr" where
  "format_value e v = (case v of PStr x \<Rightarrow> x | _ \<Rightarrow> str_of e v)"

definition format_url :: "env \<Rightarrow> pyval \<Rightarrow> pyval \<Rightarrow> ustr \<Rightarrow> ustr" where
  "format_url e tgt src escaped_text =
     asc ''https://translate.google.com/m?tl='' @ format_value e tgt
     @ asc ''&sl='' @ format_value e src @ asc ''&q='' @ escaped_text"

section \<open>make_request\<close>

text \<open>
  The result of a method is the exception that leaves it or the value it returns, with
  the state after it. The text is encoded before the \<^verbatim>\<open>try\<close>, so a failure to encode
  it leaves the method as it is; inside the \<^verbatim>\<open>try\<close> only a \<^verbatim>\<open>RequestException\<close> is
  caught, so the \<^verbatim>\<open>OSError\<close> of \<^verbatim>\<open>open('error.txt', 'w')\<close> and the \<^verbatim>\<open>ValueError\<close> of
  \<^verbatim>\<open>html.unescape\<close> leave the method too.
\<close>

definition make_request ::
  "env \<Rightarrow> pyval \<Rightarrow> pyval \<Rightarrow> ustr \<Rightarrow> pyval \<Rightarrow> pyval \<Rightarrow> pystate \<Rightarrow> (pyexc + pyval) \<times> pystate" where
  "make_request e tgt src text tmo prx s =
     (case utf8_encode text of
        Inl err \<Rightarrow> (Inl err, s)
      | Inr bs \<Rightarrow>
          (let escaped_text = quote bs;
               req = \<lparr>req_url = format_url e tgt src escaped_text,
                      req_timeout = tmo, req_proxies = prx\<rparr>;
               s1 = s\<lparr>requests := requests s @ [req]\<rparr>
           in case requests_get e (length (requests s)) req of
                RequestException msg \<Rightarrow>
                  (Inl (SystemExit 1), py_print (10 # asc ''Error: '' @ msg) s1)
              | OtherException err \<Rightarrow> (Inl err, s1)
              | Response r \<Rightarrow>
                  (case raise_for_status r of
                     Some msg \<Rightarrow> (Inl (SystemExit 1), py_print (10 # asc ''Error: '' @ msg) s1)
                   | None \<Rightarrow>
                       (case utf8_encode (resp_text r) of
                          Inl err \<Rightarrow> (Inl err, s1)
                        | Inr rb \<Rightarrow>
                            (case utf8_decode rb of
                               Inl err \<Rightarrow> (Inl err, s1)
                             | Inr result \<Rightarrow>
                                 (case findall result of
                                    [] \<Rightarrow>
                                      (let s2 = py_print (10 # asc ''Error: Unknown error.'') s1
                                       in if writable s2 (asc ''error.txt'') then
                                            (Inl (SystemExit 1),
                                             s2\<lparr>files := (files s2)
                                                  (asc ''error.txt'' := Regular (Inr (resp_text r)))\<rparr>)
                                          else (Inl OSError, s2))
                                  | g # _ \<Rightarrow>
                                      (case html_unescape (html5 e) g of
                                         Inl err \<Rightarrow> (Inl err, s1)
                                       | Inr translation \<Rightarrow> (Inr (PStr translation), s1))))))))"

section \<open>translate and translate_file\<close>

text \<open>
  \<^verbatim>\<open>executor.submit(self.make_request, target, ...)\<close> for each target: every worker runs
  \<^verbatim>\<open>make_request\<close> to its end, and an exception (the \<open>SystemExit\<close> of \<^verbatim>\<open>exit(1)\<close> too)
  is kept in its future. The workers' effects are recorded in submission order; how the
  threads interleave is not modelled.
\<close>

fun submit_all ::
  "env \<Rightarrow> pyval list \<Rightarrow> pyval \<Rightarrow> ustr \<Rightarrow> pyval \<Rightarrow> pyval \<Rightarrow> pystate
   \<Rightarrow> (pyexc + pyval) list \<times> pystate" where
  "submit_all e [] src text tmo prx s = ([], s)"
| "submit_all e (target # targets) src text tmo prx s =
     (let (r, s1) = make_request e target src text tmo prx s;
          (rs, s2) = submit_all e targets src text tmo prx s1
      in (r # rs, s2))"

text \<open>
  \<^verbatim>\<open>as_completed(futures)\<close> collects the futures in a set. Those that have finished when
  it is called are yielded first, in the order the set gives them out; the others
  follow as they finish. \<open>yield_order e n\<close> is the order in which the positions of \<open>n\<close>
  futures are yielded.
\<close>

definition yield_order :: "env \<Rightarrow> nat \<Rightarrow> nat list" where
  "yield_order e n =
     sort_key (set_rank e) (filter (done_early e) [0..<n])
     @ sort_key (completion_rank e) (filter (\<lambda>i. \<not> done_early e i) [0..<n])"

definition as_completed :: "env \<Rightarrow> 'a list \<Rightarrow> 'a list" where
  "as_completed e futures = map (\<lambda>i. futures ! i) (yield_order e (length futures))"

text \<open>\<^verbatim>\<open>[f.result() for f in ...]\<close>: \<^verbatim>\<open>result()\<close> raises again what its future holds, which
  ends the comprehension.\<close>

fun results :: "(pyexc + pyval) list \<Rightarrow> pyexc + pyval list" where
  "results [] = Inr []"
| "results (Inl err # fs) = Inl err"
| "results (Inr v # fs) = (case results fs of Inl err \<Rightarrow> Inl err | Inr vs \<Rightarrow> Inr (v # vs))"

text \<open>Lines 131 to 139 of \<^verbatim>\<open>translate\<close>, with the resolved parameters: a pool of
  workers when the target is a list, one call on the caller's thread otherwise.\<close>

definition dispatch ::
  "env \<Rightarrow> ustr \<Rightarrow> pyval \<Rightarrow> pyval \<Rightarrow> pyval \<Rightarrow> pyval \<Rightarrow> pystate \<Rightarrow> (pyexc + pyval) \<times> pystate" where
  "dispatch e text tgt src tmo prx s =
     (case tgt of
        PList targets \<Rightarrow>
          (let (futures, s1) = submit_all e targets src text tmo prx s
           in (case results (as_completed e futures) of
                 Inl err \<Rightarrow> (Inl err, s1)
               | Inr vs \<Rightarrow> (Inr (PList vs), s1)))
      | _ \<Rightarrow> make_request e tgt src text tmo prx s)"

definition translate ::
  "env \<Rightarrow> ustr \<Rightarrow> pyval \<Rightarrow> pyval \<Rightarrow> pyval \<Rightarrow> pyval \<Rightarrow> pystate \<Rightarrow> (pyexc + pyval) \<times> pystate" where
  "translate e text tgt src tmo prx s =
     (let tgt' = py_or tgt (target_language (self s));
          src' = py_or src (source_language (self s));
          tmo' = py_or tmo (timeout (self s));
          prx' = py_or prx (proxies (self s))
      in if length text > 5000 then
           (Inl (SystemExit 1),
            py_print (10 # asc ''Error: It can only detect 5000 characters at once. (''
                      @ decimal (length text) @ asc '' characters found.)'') s)
         else dispatch e text tgt' src' tmo' prx' s)"

text \<open>\<^verbatim>\<open>os.path.isfile(file_path)\<close>\<close>

definition isfile :: "pystate \<Rightarrow> ustr \<Rightarrow> bool" where
  "isfile s file_path = (case files s file_path of Regular c \<Rightarrow> True | _ \<Rightarrow> False)"

definition translate_file ::
  "env \<Rightarrow> ustr \<Rightarrow> pyval \<Rightarrow> pyval \<Rightarrow> pyval \<Rightarrow> pyval \<Rightarrow> pystate \<Rightarrow> (pyexc + pyval) \<times> pystate" where
  "translate_file e file_path tgt src tmo prx s =
     (if \<not> isfile s file_path then
        (Inl (SystemExit 1), py_print (10 # asc ''Error: The file or path is incorrect.'') s)
      else
        (let s1 = s\<lparr>opened := opened s @ [file_path]\<rparr>
         in case files s file_path of
              Regular (Inr text) \<Rightarrow> translate e text tgt src tmo prx s1
            | Regular (Inl err) \<Rightarrow> (Inl err, s1)
            | _ \<Rightarrow> (Inl OSError, s1)))"

section \<open>Notions of the specification\<close>

text \<open>The two markers of the response, written out: \<^verbatim>\<open>class="t0">\<close> and
  \<^verbatim>\<open>class="result-container">\<close>; \<open>at_marker s\<close> says that \<open>s\<close> starts with one.\<close>

definition marker_t0 :: ustr where
  "marker_t0 = asc (''class='' @ [CHR 0x22] @ ''t0'' @ [CHR 0x22] @ ''>'')"

definition marker_rc :: ustr where
  "marker_rc = asc (''class='' @ [CHR 0x22] @ ''result-container'' @ [CHR 0x22] @ ''>'')"

definition at_marker :: "ustr \<Rightarrow> bool" where
  "at_marker s = (literal marker_t0 s \<noteq> None \<or> literal marker_rc s \<noteq> None)"

text \<open>The request the specification describes for a target, a source, the bytes of the
  text, a timeout and the proxies: the fixed template with the percent-encoded bytes.\<close>

definition request_for :: "env \<Rightarrow> pyval \<Rightarrow> pyval \<Rightarrow> nat list \<Rightarrow> pyval \<Rightarrow> pyval \<Rightarrow> request" where
  "request_for e tgt src bs tmo prx =
     \<lparr>req_url = asc ''https://translate.google.com/m?tl='' @ format_value e tgt
                 @ asc ''&sl='' @ format_value e src @ asc ''&q='' @ quote bs,
      req_timeout = tmo, req_proxies = prx\<rparr>"

text \<open>The requests a call with resolved parameters sends: none for a text that is too
  long or has no UTF-8 encoding, else one per target of a list, or one for a target that
  is not a list.\<close>

definition sent :: "env \<Rightarrow> ustr \<Rightarrow> pyval \<Rightarrow> pyval \<Rightarrow> pyval \<Rightarrow> pyval \<Rightarrow> request list" where
  "sent e text tgt src tmo prx =
     (if 5000 < length text then []
      else (case utf8_encode text of
              Inl err \<Rightarrow> []
            | Inr bs \<Rightarrow>
                map (\<lambda>t. request_for e t src bs tmo prx)
                  (case tgt of PList targets \<Rightarrow> targets | _ \<Rightarrow> [tgt])))"

text \<open>A failed request: a transport failure or a status from 400 to 599, with the message
  of its exception.\<close>

definition failure :: "net_result \<Rightarrow> ustr option" where
  "failure res =
     (case res of
        RequestException msg \<Rightarrow> Some msg
      | OtherException err \<Rightarrow> None
      | Response r \<Rightarrow> raise_for_status r)"

text \<open>A Unicode scalar value: a code point that is not a surrogate. These are the code
  points UTF-8 encodes.\<close>

definition scalar_value :: "nat \<Rightarrow> bool" where
  "scalar_value c = (c < 0x110000 \<and> \<not> (0xD800 \<le> c \<and> c \<le> 0xDFFF))"

text \<open>A decimal character reference of more than 4300 digits: \<open>long_decimal s\<close> says that
  one starts at \<open>s\<close>, the \<^verbatim>\<open>&\<close> read; \<open>long_reference s\<close> that \<open>s\<close> holds one somewhere.\<close>

definition long_decimal :: "ustr \<Rightarrow> bool" where
  "long_decimal s =
     (case s of c # ds \<Rightarrow> c = 35 \<and> 4300 < length (takeWhile is_digit ds) | [] \<Rightarrow> False)"

fun long_reference :: "ustr \<Rightarrow> bool" where
  "long_reference [] = False"
| "long_reference (c # cs) = ((c = 38 \<and> long_decimal cs) \<or> long_reference cs)"

text \<open>What the worker for the \<open>i\<close>-th target of a list ends with: the translation it
  returns or the exception it raises.\<close>

definition outcome ::
  "env \<Rightarrow> pyval list \<Rightarrow> pyval \<Rightarrow> ustr \<Rightarrow> pyval \<Rightarrow> pyval \<Rightarrow> pystate \<Rightarrow> nat \<Rightarrow> pyexc + pyval" where
  "outcome e targets src text tmo prx s i =
     fst (make_request e (targets ! i) src text tmo prx
            (snd (submit_all e (take i targets) src text tmo prx s)))"

section \<open>Stubs\<close>

text \<open>A few entries of \<^verbatim>\<open>html.entities.html5\<close>.\<close>

definition stub_html5 :: "ustr \<Rightarrow> ustr option" where
  "stub_html5 =
     map_of [(asc ''amp;'', asc ''&''), (asc ''amp'', asc ''&''), (asc ''lt;'', asc ''<''),
             (asc ''lt'', asc ''<''), (asc ''gt;'', asc ''>''), (asc ''gt'', asc ''>''),
             (asc ''quot;'', [34]), (asc ''quot'', [34]), (asc ''apos;'', [39]),
             (asc ''not;'', [172]), (asc ''not'', [172]), (asc ''notin;'', [8713])]"

text \<open>
  Stubs for the parameters. \<open>stub_str\<close> is \<^verbatim>\<open>str()\<close> on \<^verbatim>\<open>None\<close>, booleans, integers and
  flat tuples and lists of those and of strings that \<^verbatim>\<open>repr\<close> puts in single quotes
  unchanged. The transports answer every request with status 200 and a fixed body,
  with a given status and an empty body, or refuse every connection; with their
  scheduling no future has finished when \<^verbatim>\<open>as_completed\<close> is called, and the futures
  finish in submission order. \<open>scheduled_env\<close> answers the \<open>k\<close>-th request with the
  \<open>k\<close>-th of a list of bodies, under a given scheduling.
\<close>

fun repr_atom :: "pyval \<Rightarrow> ustr" where
  "repr_atom PNone = asc ''None''"
| "repr_atom (PBool b) = (if b then asc ''True'' else asc ''False'')"
| "repr_atom (PInt i) = (if i < 0 then 45 # decimal (nat (- i)) else decimal (nat i))"
| "repr_atom (PStr x) = 39 # x @ [39]"
| "repr_atom v = asc ''...''"

fun join_comma :: "ustr list \<Rightarrow> ustr" where
  "join_comma [] = []"
| "join_comma [x] = x"
| "join_comma (x # y # zs) = x @ asc '', '' @ join_comma (y # zs)"

definition stub_str :: "pyval \<Rightarrow> ustr" where
  "stub_str v =
     (case v of
        PTuple [x] \<Rightarrow> asc ''('' @ repr_atom x @ asc '',)''
      | PTuple xs \<Rightarrow> asc ''('' @ join_comma (map repr_atom xs) @ asc '')''
      | PList xs \<Rightarrow> asc ''['' @ join_comma (map repr_atom xs) @ asc '']''
      | PStr x \<Rightarrow> x
      | _ \<Rightarrow> repr_atom v)"

definition stub_env :: "ustr \<Rightarrow> env" where
  "stub_env body =
     \<lparr>requests_get = (\<lambda>k r. Response \<lparr>status_code = 200, reason = asc ''OK'',
                                        resp_url = req_url r, resp_text = body\<rparr>),
      html5 = stub_html5,
      str_of = stub_str,
      done_early = (\<lambda>i. False),
      set_rank = (\<lambda>i. 0),
      completion_rank = (\<lambda>i. 0)\<rparr>"

definition refusing_env :: env where
  "refusing_env =
     \<lparr>requests_get = (\<lambda>k r. RequestException (asc ''Connection refused'')),
      html5 = stub_html5,
      str_of = stub_str,
      done_early = (\<lambda>i. False),
      set_rank = (\<lambda>i. 0),
      completion_rank = (\<lambda>i. 0)\<rparr>"

definition status_env :: "nat \<Rightarrow> ustr \<Rightarrow> env" where
  "status_env code why =
     \<lparr>requests_get = (\<lambda>k r. Response \<lparr>status_code = code, reason = why,
                                        resp_url = req_url r, resp_text = []\<rparr>),
      html5 = stub_html5,
      str_of = stub_str,
      done_early = (\<lambda>i. False),
      set_rank = (\<lambda>i. 0),
      completion_rank = (\<lambda>i. 0)\<rparr>"

definition scheduled_env :: "ustr list \<Rightarrow> (nat \<Rightarrow> bool) \<Rightarrow> (nat \<Rightarrow> nat) \<Rightarrow> (nat \<Rightarrow> nat) \<Rightarrow> env" where
  "scheduled_env bodies early srank crank =
     \<lparr>requests_get = (\<lambda>k r. Response \<lparr>status_code = 200, reason = asc ''OK'',
                                        resp_url = req_url r,
                                        resp_text = (if k < length bodies then bodies ! k else [])\<rparr>),
      html5 = stub_html5,
      str_of = stub_str,
      done_early = early,
      set_rank = srank,
      completion_rank = crank\<rparr>"

text \<open>A state in which nothing has happened yet, one with a single regular file, and one
  in which a path names a directory. Every other path may be written.\<close>

definition fresh_state :: "EasyGoogleTranslate \<Rightarrow> pystate" where
  "fresh_state inst =
     \<lparr>self = inst, requests = [], stdout = [], files = (\<lambda>p. Missing),
      write_denied = (\<lambda>p. False), opened = []\<rparr>"

definition state_with_file :: "EasyGoogleTranslate \<Rightarrow> ustr \<Rightarrow> ustr \<Rightarrow> pystate" where
  "state_with_file inst path content =
     \<lparr>self = inst, requests = [], stdout = [],
      files = (\<lambda>p. if p = path then Regular (Inr content) else Missing),
      write_denied = (\<lambda>p. False), opened = []\<rparr>"

definition state_with_directory :: "EasyGoogleTranslate \<Rightarrow> ustr \<Rightarrow> pystate" where
  "state_with_directory inst path =
     \<lparr>self = inst, requests = [], stdout = [],
      files = (\<lambda>p. if p = path then NotRegular else Missing),
      write_denied = (\<lambda>p. False), opened = []\<rparr>"

text \<open>Bodies for the stub transport.\<close>

definition two_marker_body :: ustr where
  "two_marker_body =
     asc (''<p class='' @ [CHR 0x22] @ ''t0'' @ [CHR 0x22] @ ''>It&#39;s fine</p><div class=''
          @ [CHR 0x22] @ ''result-container'' @ [CHR 0x22] @ ''>Bonjour</div>'')"

definition unterminated_body :: ustr where
  "unterminated_body = asc (''<p class='' @ [CHR 0x22] @ ''t0'' @ [CHR 0x22] @ ''>Hola'')"

definition hola_body :: ustr where
  "hola_body = asc (''class='' @ [CHR 0x22] @ ''t0'' @ [CHR 0x22] @ ''>Hola<'')"

definition entity_body :: ustr where
  "entity_body =
     asc (''<p class='' @ [CHR 0x22] @ ''t0'' @ [CHR 0x22]
          @ ''>It&#39;s &amp; &#x2014; &notit;</p><div class=''
          @ [CHR 0x22] @ ''result-container'' @ [CHR 0x22] @ ''>Bonjour</div>'')"

definition long_reference_body :: ustr where
  "long_reference_body =
     asc (''<p class='' @ [CHR 0x22] @ ''t0'' @ [CHR 0x22] @ ''>&#'') @ replicate 4301 57 @ asc '';</p>''"

definition max_reference_body :: ustr where
  "max_reference_body =
     asc (''<p class='' @ [CHR 0x22] @ ''t0'' @ [CHR 0x22] @ ''>&#'') @ replicate 4300 57 @ asc '';</p>''"

definition three_bodies :: "ustr list" where
  "three_bodies =
     [asc (''class='' @ [CHR 0x22] @ ''t0'' @ [CHR 0x22] @ ''>Merhaba<''),
      asc (''class='' @ [CHR 0x22] @ ''t0'' @ [CHR 0x22] @ ''>Bonjour<''),
      asc (''class='' @ [CHR 0x22] @ ''t0'' @ [CHR 0x22] @ ''>Hallo<'')]"

section \<open>Round trips of the encodings\<close>

lemma split3: "c div 4096 * 4096 + c div 64 mod 64 * 64 + c mod 64 = (c::nat)"
proof -
  have "c div 4096 = c div 64 div 64" by (simp add: div_mult2_eq)
  then have "c div 64 = c div 4096 * 64 + c div 64 mod 64" by simp
  then have "c div 64 * 64 = c div 4096 * 4096 + c div 64 mod 64 * 64" by simp
  moreover have "c = c div 64 * 64 + c mod 64" by simp
  ultimately show ?thesis by linarith
qed

lemma split4:
  "c div 262144 * 262144 + c div 4096 mod 64 * 4096 + c div 64 mod 64 * 64 + c mod 64 = (c::nat)"
proof -
  have "c div 262144 = c div 4096 div 64" by (simp add: div_mult2_eq)
  then have "c div 4096 = c div 262144 * 64 + c div 4096 mod 64" by simp
  then have "c div 4096 * 4096 = c div 262144 * 262144 + c div 4096 mod 64 * 4096" by simp
  moreover have "c div 4096 * 4096 + c div 64 mod 64 * 64 + c mod 64 = c" by (rule split3)
  ultimately show ?thesis by linarith
qed

lemma utf8_char_bytes: "utf8_char c = Some bs \<Longrightarrow> b \<in> set bs \<Longrightarrow> b < 256"
  by (auto simp: utf8_char_def split: if_splits)

lemma utf8_encode_bytes: "utf8_encode t = Inr bs \<Longrightarrow> b \<in> set bs \<Longrightarrow> b < 256"
proof (induction t arbitrary: bs)
  case Nil
  then show ?case by simp
next
  case (Cons c cs)
  then show ?case
    by (auto split: option.splits sum.splits dest: utf8_char_bytes)
qed

lemma utf8_decode_char:
  assumes "utf8_char c = Some bs"
  shows "utf8_decode (bs @ rest) =
         (case utf8_decode rest of Inl e \<Rightarrow> Inl e | Inr cs \<Rightarrow> Inr (c # cs))"
proof -
  consider (a) "c < 0x80" | (b) "0x80 \<le> c" "c < 0x800" | (c) "0x800 \<le> c" "c < 0x10000"
    | (d) "0x10000 \<le> c" "c < 0x110000" | (e) "0x110000 \<le> c"
    by linarith
  then show ?thesis
  proof cases
    case a
    with assms have "bs = [c]" by (simp add: utf8_char_def)
    with a show ?thesis by (simp split: sum.split)
  next
    case b
    with assms have bs: "bs = [0xC0 + c div 64, 0x80 + c mod 64]" by (simp add: utf8_char_def)
    from b have "2 \<le> c div 64" "c div 64 < 32" by simp_all
    with bs show ?thesis by (simp add: is_cont_def split: sum.split)
  next
    case c
    with assms have ns: "\<not> (0xD800 \<le> c \<and> c \<le> 0xDFFF)"
      and bs: "bs = [0xE0 + c div 4096, 0x80 + (c div 64) mod 64, 0x80 + c mod 64]"
      by (auto simp: utf8_char_def split: if_splits)
    from c have "c div 4096 < 16" by simp
    with bs ns c show ?thesis by (simp add: is_cont_def Let_def split3 split: sum.split)
  next
    case d
    with assms have bs: "bs = [0xF0 + c div 262144, 0x80 + (c div 4096) mod 64,
              0x80 + (c div 64) mod 64, 0x80 + c mod 64]"
      by (auto simp: utf8_char_def split: if_splits)
    from d have "c div 262144 < 5" by simp
    with bs d show ?thesis by (simp add: is_cont_def Let_def split4 split: sum.split)
  next
    case e
    with assms show ?thesis by (simp add: utf8_char_def)
  qed
qed

lemma utf8_roundtrip: "utf8_encode t = Inr bs \<Longrightarrow> utf8_decode bs = Inr t"
proof (induction t arbitrary: bs)
  case Nil
  then show ?case by simp
next
  case (Cons c cs)
  then show ?case
    by (auto simp: utf8_decode_char split: option.splits sum.splits)
qed

lemma utf8_ascii: "\<forall>c\<in>set t. c < 128 \<Longrightarrow> utf8_encode t = Inr t"
  by (induction t) (simp_all add: utf8_char_def)

lemma utf8_char_Some_iff: "(\<exists>bs. utf8_char c = Some bs) \<longleftrightarrow> scalar_value c"
  by (auto simp: utf8_char_def scalar_value_def)

lemma utf8_encode_Inr_iff: "(\<exists>bs. utf8_encode t = Inr bs) \<longleftrightarrow> (\<forall>c\<in>set t. scalar_value c)"
proof (induction t)
  case Nil
  then show ?case by simp
next
  case (Cons c cs)
  show ?case
  proof (cases "utf8_char c")
    case None
    then have "\<not> scalar_value c" using utf8_char_Some_iff [of c] by simp
    with None show ?thesis by simp
  next
    case (Some bs)
    then have "scalar_value c" using utf8_char_Some_iff [of c] by blast
    with Some Cons show ?thesis by (cases "utf8_encode cs") auto
  qed
qed

lemma utf8_encode_Inl: "utf8_encode t = Inl err \<Longrightarrow> err = UnicodeEncodeError"
  by (induction t arbitrary: err) (auto split: option.splits sum.splits)


lemma hexval_hexdigit_all: "\<forall>d\<in>set [0..<16]. hexval (hexdigit d) = Some d"
  by code_simp

lemma hexval_hexdigit: "d < 16 \<Longrightarrow> hexval (hexdigit d) = Some d"
  using hexval_hexdigit_all by simp

lemma percent_not_safe: "37 \<notin> ALWAYS_SAFE \<union> set (asc ''/'')"
  by (simp add: ALWAYS_SAFE_def asc_def)

lemma unquote_quoter:
  assumes "b < 256"
  shows "unquote (quoter b @ rest) = map_option (Cons b) (unquote rest)"
proof (cases "b \<in> ALWAYS_SAFE \<union> set (asc ''/'')")
  case True
  with percent_not_safe have "b \<noteq> 37" by metis
  with True show ?thesis by (simp add: quoter_def)
next
  case False
  from assms have "b div 16 < 16" by simp
  then have h: "hexval (hexdigit (b div 16)) = Some (b div 16)" by (rule hexval_hexdigit)
  have l: "hexval (hexdigit (b mod 16)) = Some (b mod 16)" by (rule hexval_hexdigit) simp
  from False h l show ?thesis by (simp add: quoter_def)
qed

lemma unquote_quote: "\<forall>b\<in>set bs. b < 256 \<Longrightarrow> unquote (quote bs) = Some bs"
  by (induction bs) (simp_all add: quote_def unquote_quoter del: unquote.simps(2))

section \<open>The matcher finds the first marker\<close>

lemma literal_append: "literal (p @ q) s = (case literal p s of None \<Rightarrow> None | Some r \<Rightarrow> literal q r)"
  by (induction p s rule: literal.induct) auto

lemma marker_t0_split: "marker_t0 = asc (''class='' @ [CHR 0x22]) @ asc ''t0'' @ asc [CHR 0x22, CHR ''>'']"
  by (simp add: marker_t0_def asc_def)

lemma marker_rc_split: "marker_rc = asc (''class='' @ [CHR 0x22]) @ asc ''result-container'' @ asc [CHR 0x22, CHR ''>'']"
  by (simp add: marker_rc_def asc_def)

lemma not_both: "literal (asc ''t0'') r \<noteq> None \<Longrightarrow> literal (asc ''result-container'') r = None"
  by (cases r) (auto simp: asc_def)

lemma match_here_eq:
  "match_here s =
     (case literal marker_t0 s of
        Some r \<Rightarrow> lazy_group r
      | None \<Rightarrow> (case literal marker_rc s of Some r \<Rightarrow> lazy_group r | None \<Rightarrow> None))"
proof (cases "literal (asc (''class='' @ [CHR 0x22])) s")
  case None
  then show ?thesis
    by (simp add: match_here_def marker_t0_split marker_rc_split literal_append)
next
  case (Some r)
  show ?thesis
  proof (cases "literal (asc ''t0'') r")
    case None
    with Some show ?thesis
      by (simp add: match_here_def alternative_def marker_t0_split marker_rc_split literal_append
          split: option.splits)
  next
    case (Some r2)
    then have "literal (asc ''result-container'') r = None" by (simp add: not_both)
    with Some \<open>literal (asc (''class='' @ [CHR 0x22])) s = Some r\<close> show ?thesis
      by (simp add: match_here_def alternative_def marker_t0_split marker_rc_split literal_append
          split: option.splits)
  qed
qed

lemma not_at_marker: "\<not> at_marker s \<Longrightarrow> match_here s = None"
  by (simp add: at_marker_def match_here_eq)

lemma findall_first:
  "(\<forall>k<length pre. \<not> at_marker (drop k (pre @ rest))) \<Longrightarrow> match_here rest = Some (g, r)
   \<Longrightarrow> findall (pre @ rest) = g # findall r"
proof (induction pre)
  case Nil
  then show ?case by (simp add: findall.simps [of rest])
next
  case (Cons c pre)
  from Cons.prems(1) have "\<not> at_marker (drop 0 ((c # pre) @ rest))" by blast
  then have none: "match_here (c # pre @ rest) = None" by (simp add: not_at_marker)
  have "\<forall>k<length pre. \<not> at_marker (drop k (pre @ rest))"
  proof (intro allI impI)
    fix k assume "k < length pre"
    then have "Suc k < length (c # pre)" by simp
    with Cons.prems(1) have "\<not> at_marker (drop (Suc k) ((c # pre) @ rest))" by blast
    then show "\<not> at_marker (drop k (pre @ rest))" by simp
  qed
  with Cons have "findall (pre @ rest) = g # findall r" by blast
  with none show ?case by (simp add: findall.simps [of "c # pre @ rest"])
qed

lemma match_here_marker:
  "m = marker_t0 \<or> m = marker_rc \<Longrightarrow> 60 \<notin> set cap \<Longrightarrow> match_here (m @ cap @ 60 # post) = Some (cap, post)"
proof -
  assume m: "m = marker_t0 \<or> m = marker_rc" and cap: "60 \<notin> set cap"
  have lg: "lazy_group (cap @ 60 # post) = Some (cap, post)" using cap by (rule lazy_group_SomeI)
  from m show ?thesis
  proof
    assume "m = marker_t0"
    then have "literal marker_t0 (m @ cap @ 60 # post) = Some (cap @ 60 # post)"
      by (simp add: literal_iff)
    with lg show ?thesis by (simp add: match_here_eq)
  next
    assume mrc: "m = marker_rc"
    then have l2: "literal marker_rc (m @ cap @ 60 # post) = Some (cap @ 60 # post)"
      by (simp add: literal_iff)
    have "literal marker_t0 (marker_rc @ cap @ 60 # post) = None"
      by (simp add: marker_t0_def marker_rc_def asc_def)
    with l2 lg mrc show ?thesis by (simp add: match_here_eq)
  qed
qed

lemma findall_no_match:
  "(\<forall>pre m rest. s = pre @ m @ rest \<and> (m = marker_t0 \<or> m = marker_rc) \<longrightarrow> 60 \<notin> set rest)
   \<Longrightarrow> findall s = []"
proof (induction s)
  case Nil
  have "match_here [] = None" by (simp add: match_here_eq marker_t0_def marker_rc_def asc_def)
  then show ?case by (simp add: findall.simps [of "[]"])
next
  case (Cons c cs)
  have none: "match_here (c # cs) = None"
  proof -
    have "lazy_group r = None" if "literal m (c # cs) = Some r" "m = marker_t0 \<or> m = marker_rc" for m r
    proof -
      from that(1) have "c # cs = [] @ m @ r" by (simp add: literal_iff)
      with Cons.prems that(2) have "60 \<notin> set r" by blast
      then show ?thesis by (simp add: lazy_group_None_iff)
    qed
    then show ?thesis by (auto simp: match_here_eq split: option.splits)
  qed
  have "\<forall>pre m rest. cs = pre @ m @ rest \<and> (m = marker_t0 \<or> m = marker_rc) \<longrightarrow> 60 \<notin> set rest"
  proof (intro allI impI)
    fix pre m rest
    assume "cs = pre @ m @ rest \<and> (m = marker_t0 \<or> m = marker_rc)"
    then have "c # cs = (c # pre) @ m @ rest \<and> (m = marker_t0 \<or> m = marker_rc)" by simp
    with Cons.prems show "60 \<notin> set rest" by blast
  qed
  with Cons.IH have "findall cs = []" by blast
  with none show ?case by (simp add: findall.simps [of "c # cs"])
qed

lemma findall_match:
  "findall s \<noteq> [] \<Longrightarrow>
   \<exists>pre m rest. s = pre @ m @ rest \<and> (m = marker_t0 \<or> m = marker_rc) \<and> 60 \<in> set rest"
  using findall_no_match [of s] by blast

lemma findall_found:
  "match_here rest \<noteq> None \<Longrightarrow> findall (pre @ rest) \<noteq> []"
proof (induction pre)
  case Nil
  then show ?case by (auto simp: findall.simps [of rest])
next
  case (Cons c pre)
  then show ?case
    by (cases "match_here (c # pre @ rest)") (auto simp: findall.simps [of "c # pre @ rest"])
qed

lemma findall_Nil_iff:
  "findall b = [] \<longleftrightarrow>
   (\<forall>pre m rest. b = pre @ m @ rest \<and> (m = marker_t0 \<or> m = marker_rc) \<longrightarrow> 60 \<notin> set rest)"
proof
  assume e: "findall b = []"
  show "\<forall>pre m rest. b = pre @ m @ rest \<and> (m = marker_t0 \<or> m = marker_rc) \<longrightarrow> 60 \<notin> set rest"
  proof (intro allI impI notI)
    fix pre m rest
    assume a: "b = pre @ m @ rest \<and> (m = marker_t0 \<or> m = marker_rc)" and "60 \<in> set rest"
    then obtain cap post where r: "rest = cap @ 60 # post" and c: "60 \<notin> set cap"
      by (meson split_list_first)
    from a c have "match_here (m @ cap @ 60 # post) = Some (cap, post)"
      by (intro match_here_marker) simp_all
    then have "findall (pre @ m @ cap @ 60 # post) \<noteq> []"
      by (intro findall_found) simp
    with a r e show False by simp
  qed
next
  assume "\<forall>pre m rest. b = pre @ m @ rest \<and> (m = marker_t0 \<or> m = marker_rc) \<longrightarrow> 60 \<notin> set rest"
  then show "findall b = []" by (rule findall_no_match)
qed

lemma first_match:
  assumes "b = pre @ m @ cap @ 60 # post"
    and "m = marker_t0 \<or> m = marker_rc"
    and "60 \<notin> set cap"
    and "\<forall>k<length pre. \<not> at_marker (drop k b)"
  shows "findall b = cap # findall post"
proof -
  have "match_here (m @ cap @ 60 # post) = Some (cap, post)"
    using assms(2,3) by (rule match_here_marker)
  moreover have "\<forall>k<length pre. \<not> at_marker (drop k (pre @ m @ cap @ 60 # post))"
    using assms(1,4) by simp
  ultimately have "findall (pre @ m @ cap @ 60 # post) = cap # findall post"
    by (rule findall_first [rotated])
  then show ?thesis using assms(1) by simp
qed

section \<open>Effects of one request\<close>

lemma writable_update [simp]:
  "writable (s\<lparr>requests := a\<rparr>) p = writable s p"
  "writable (s\<lparr>stdout := b\<rparr>) p = writable s p"
  "writable (s\<lparr>opened := c\<rparr>) p = writable s p"
  by (simp_all add: writable_def split: fsnode.split)

lemma make_request_requests:
  "requests (snd (make_request e tgt src text tmo prx s)) =
     requests s @ (case utf8_encode text of Inl err \<Rightarrow> [] | Inr bs \<Rightarrow> [request_for e tgt src bs tmo prx])"
  by (simp add: make_request_def request_for_def format_url_def py_print_def Let_def
      split: sum.split net_result.split option.split list.split)

lemma make_request_self: "self (snd (make_request e tgt src text tmo prx s)) = self s"
  by (simp add: make_request_def py_print_def Let_def
      split: sum.split net_result.split option.split list.split)

lemma make_request_shape:
  "(\<exists>err. fst (make_request e tgt src text tmo prx s) = Inl err)
   \<or> (\<exists>x. fst (make_request e tgt src text tmo prx s) = Inr (PStr x))"
  by (simp add: make_request_def py_print_def Let_def
      split: sum.split net_result.split option.split list.split)

lemma make_request_opened_update:
  "make_request e tgt src text tmo prx (s\<lparr>opened := x\<rparr>) =
     (fst (make_request e tgt src text tmo prx s), (snd (make_request e tgt src text tmo prx s))\<lparr>opened := x\<rparr>)"
  by (simp add: make_request_def py_print_def Let_def
      split: sum.split net_result.split option.split list.split)

lemma make_request_unencodable:
  "utf8_encode text = Inl err \<Longrightarrow> make_request e tgt src text tmo prx s = (Inl UnicodeEncodeError, s)"
  using utf8_encode_Inl [of "text" err] by (simp add: make_request_def)


section \<open>Effects of the fan-out\<close>

lemma submit_all_requests:
  "requests (snd (submit_all e targets src text tmo prx s)) =
     requests s @ (case utf8_encode text of Inl err \<Rightarrow> []
                   | Inr bs \<Rightarrow> map (\<lambda>t. request_for e t src bs tmo prx) targets)"
  by (induction targets arbitrary: s)
     (simp_all add: split_beta Let_def make_request_requests split: sum.split)

lemma submit_all_length: "length (fst (submit_all e targets src text tmo prx s)) = length targets"
  by (induction targets arbitrary: s) (simp_all add: split_beta Let_def)

lemma submit_all_self: "self (snd (submit_all e targets src text tmo prx s)) = self s"
  by (induction targets arbitrary: s) (simp_all add: split_beta Let_def make_request_self)

lemma submit_all_opened_update:
  "submit_all e targets src text tmo prx (s\<lparr>opened := x\<rparr>) =
     (fst (submit_all e targets src text tmo prx s), (snd (submit_all e targets src text tmo prx s))\<lparr>opened := x\<rparr>)"
  by (induction targets arbitrary: s) (simp_all add: split_beta Let_def make_request_opened_update)

lemma submit_all_shape:
  "f \<in> set (fst (submit_all e targets src text tmo prx s)) \<Longrightarrow>
   (\<exists>err. f = Inl err) \<or> (\<exists>x. f = Inr (PStr x))"
proof (induction targets arbitrary: s)
  case Nil
  then show ?case by simp
next
  case (Cons t ts)
  then show ?case
    using make_request_shape [of e t src _ tmo prx s]
    by (auto simp: split_beta Let_def)
qed

lemma submit_all_append:
  "submit_all e (xs @ ys) src text tmo prx s =
     (fst (submit_all e xs src text tmo prx s)
        @ fst (submit_all e ys src text tmo prx (snd (submit_all e xs src text tmo prx s))),
      snd (submit_all e ys src text tmo prx (snd (submit_all e xs src text tmo prx s))))"
  by (induction xs arbitrary: s) (simp_all add: split_beta Let_def)

lemma submit_all_nth:
  assumes "i < length targets"
  shows "fst (submit_all e targets src text tmo prx s) ! i =
         fst (make_request e (targets ! i) src text tmo prx
                (snd (submit_all e (take i targets) src text tmo prx s)))"
proof -
  from assms have "targets = take i targets @ (targets ! i) # drop (Suc i) targets"
    by (simp add: id_take_nth_drop)
  then have "fst (submit_all e targets src text tmo prx s) ! i =
    fst (submit_all e (take i targets @ (targets ! i) # drop (Suc i) targets) src text tmo prx s) ! i"
    by simp
  also have "\<dots> = fst (make_request e (targets ! i) src text tmo prx
                (snd (submit_all e (take i targets) src text tmo prx s)))"
    using assms
    by (simp add: submit_all_append nth_append submit_all_length split_beta Let_def)
  finally show ?thesis .
qed

lemma mset_yield_order: "mset (yield_order e n) = mset [0..<n]"
proof -
  have "mset (yield_order e n) =
        filter_mset (done_early e) (mset [0..<n]) + filter_mset (\<lambda>i. \<not> done_early e i) (mset [0..<n])"
    by (simp add: yield_order_def)
  then show ?thesis by (simp only: multiset_partition [symmetric])
qed

lemma length_yield_order: "length (yield_order e n) = n"
  using mset_yield_order [of e n] by (metis size_mset length_upt diff_zero)

lemma yield_order_pending:
  "filter (\<lambda>i. \<not> done_early e i) (yield_order e n) =
     sort_key (completion_rank e) (filter (\<lambda>i. \<not> done_early e i) [0..<n])"
  by (simp add: yield_order_def filter_sort)

lemma yield_order_finished:
  "filter (done_early e) (yield_order e n) = sort_key (set_rank e) (filter (done_early e) [0..<n])"
  by (simp add: yield_order_def filter_sort)

lemma yield_order_none_early:
  "\<forall>i<n. \<not> done_early e i \<Longrightarrow> yield_order e n = sort_key (completion_rank e) [0..<n]"
  by (simp add: yield_order_def filter_id_conv filter_empty_conv)

lemma set_yield_order: "set (yield_order e n) = {0..<n}"
  using mset_yield_order [of e n] by (metis set_mset_mset set_upt)

lemma yield_order_split:
  "filter (done_early e) (yield_order e n) @ filter (\<lambda>i. \<not> done_early e i) (yield_order e n) =
     yield_order e n"
  by (simp only: yield_order_finished yield_order_pending) (simp add: yield_order_def)

lemma mset_as_completed: "mset (as_completed e fs) = mset fs"
proof -
  have "mset (as_completed e fs) = image_mset (\<lambda>i. fs ! i) (mset (yield_order e (length fs)))"
    by (simp add: as_completed_def)
  also have "\<dots> = mset (map (\<lambda>i. fs ! i) [0..<length fs])" by (simp add: mset_yield_order)
  also have "\<dots> = mset fs" by (simp add: map_nth)
  finally show ?thesis .
qed

lemma set_as_completed: "set (as_completed e fs) = set fs"
  using mset_as_completed [of e fs] by (metis set_mset_mset)

lemma length_as_completed: "length (as_completed e fs) = length fs"
  by (simp add: as_completed_def length_yield_order)

lemma outcome_nth:
  "i < length targets \<Longrightarrow>
   outcome e targets src text tmo prx s i = fst (submit_all e targets src text tmo prx s) ! i"
  by (simp add: outcome_def submit_all_nth)

lemma as_completed_outcome:
  "as_completed e (fst (submit_all e targets src text tmo prx s)) =
     map (outcome e targets src text tmo prx s) (yield_order e (length targets))"
proof -
  have "map (\<lambda>i. fst (submit_all e targets src text tmo prx s) ! i) (yield_order e (length targets)) =
        map (outcome e targets src text tmo prx s) (yield_order e (length targets))"
    by (rule map_cong) (simp_all add: set_yield_order outcome_nth)
  then show ?thesis by (simp add: as_completed_def submit_all_length)
qed

lemma results_Inr: "results fs = Inr vs \<Longrightarrow> fs = map Inr vs"
  by (induction fs arbitrary: vs rule: results.induct) (auto split: sum.splits)

lemma results_fails: "Inl err \<in> set fs \<Longrightarrow> \<exists>err'. results fs = Inl err'"
  by (induction fs rule: results.induct) (auto split: sum.splits)

section \<open>Effects of translate\<close>

lemma dispatch_requests:
  "requests (snd (dispatch e text tgt src tmo prx s)) =
     requests s @ (case utf8_encode text of Inl err \<Rightarrow> []
                   | Inr bs \<Rightarrow> map (\<lambda>t. request_for e t src bs tmo prx)
                               (case tgt of PList targets \<Rightarrow> targets | _ \<Rightarrow> [tgt]))"
proof (cases tgt)
  case (PList targets)
  have "requests (snd (dispatch e text (PList targets) src tmo prx s)) =
        requests (snd (submit_all e targets src text tmo prx s))"
    by (simp add: dispatch_def split_beta Let_def split: sum.split)
  with PList show ?thesis by (simp add: submit_all_requests split: sum.split)
qed (simp_all add: dispatch_def make_request_requests split: sum.split)

lemma dispatch_self: "self (snd (dispatch e text tgt src tmo prx s)) = self s"
  by (cases tgt)
     (simp_all add: dispatch_def make_request_self submit_all_self split_beta Let_def split: sum.split)

lemma dispatch_opened_update:
  "dispatch e text tgt src tmo prx (s\<lparr>opened := x\<rparr>) =
     (fst (dispatch e text tgt src tmo prx s), (snd (dispatch e text tgt src tmo prx s))\<lparr>opened := x\<rparr>)"
  by (cases tgt)
     (simp_all add: dispatch_def make_request_opened_update submit_all_opened_update split_beta Let_def
        split: sum.split)

lemma dispatch_single:
  "\<not> isinstance_list tgt \<Longrightarrow> dispatch e text tgt src tmo prx s = make_request e tgt src text tmo prx s"
  by (cases tgt) (simp_all add: dispatch_def)

lemma dispatch_list_fst:
  "fst (dispatch e text (PList targets) src tmo prx s) =
     (case results (as_completed e (fst (submit_all e targets src text tmo prx s))) of
        Inl err \<Rightarrow> Inl err | Inr vs \<Rightarrow> Inr (PList vs))"
  by (simp add: dispatch_def split_beta Let_def split: sum.split)

lemma dispatch_list_shape:
  "(\<exists>err. fst (dispatch e text (PList targets) src tmo prx s) = Inl err)
   \<or> (\<exists>vs. fst (dispatch e text (PList targets) src tmo prx s) = Inr (PList vs)
        \<and> length vs = length targets \<and> (\<forall>v\<in>set vs. \<exists>x. v = PStr x))"
proof (cases "results (as_completed e (fst (submit_all e targets src text tmo prx s)))")
  case (Inl err)
  then show ?thesis by (simp add: dispatch_list_fst)
next
  case (Inr vs)
  then have eq: "as_completed e (fst (submit_all e targets src text tmo prx s)) = map Inr vs"
    by (rule results_Inr)
  then have "length vs = length targets"
    using length_as_completed [of e "fst (submit_all e targets src text tmo prx s)"]
    by (simp add: submit_all_length)
  moreover have "\<forall>v\<in>set vs. \<exists>x. v = PStr x"
  proof
    fix v assume "v \<in> set vs"
    then have "Inr v \<in> set (as_completed e (fst (submit_all e targets src text tmo prx s)))"
      by (simp add: eq)
    then have "Inr v \<in> set (fst (submit_all e targets src text tmo prx s))"
      by (simp add: set_as_completed)
    then show "\<exists>x. v = PStr x" using submit_all_shape by blast
  qed
  ultimately show ?thesis using Inr by (simp add: dispatch_list_fst)
qed

lemma dispatch_list_order:
  assumes "fst (dispatch e text (PList targets) src tmo prx s) = Inr v"
  shows "\<exists>vs. v = PList vs \<and> length vs = length targets
           \<and> map Inr vs = map (outcome e targets src text tmo prx s) (yield_order e (length targets))"
proof (cases "results (as_completed e (fst (submit_all e targets src text tmo prx s)))")
  case (Inl err)
  with assms show ?thesis by (simp add: dispatch_list_fst)
next
  case (Inr vs)
  with assms have v: "v = PList vs" by (simp add: dispatch_list_fst)
  from Inr have eq: "as_completed e (fst (submit_all e targets src text tmo prx s)) = map Inr vs"
    by (rule results_Inr)
  then have "length vs = length targets"
    using length_as_completed [of e "fst (submit_all e targets src text tmo prx s)"]
    by (simp add: submit_all_length)
  moreover from eq have "map Inr vs = map (outcome e targets src text tmo prx s) (yield_order e (length targets))"
    by (simp add: as_completed_outcome)
  ultimately show ?thesis using v by blast
qed

lemma translate_long:
  "5000 < length text \<Longrightarrow>
   translate e text tgt src tmo prx s =
     (Inl (SystemExit 1),
      s\<lparr>stdout := stdout s @ [10 # asc ''Error: It can only detect 5000 characters at once. (''
                      @ decimal (length text) @ asc '' characters found.)'']\<rparr>)"
  by (simp add: translate_def py_print_def Let_def)

lemma translate_short:
  "length text \<le> 5000 \<Longrightarrow>
   translate e text tgt src tmo prx s =
     dispatch e text (py_or tgt (target_language (self s))) (py_or src (source_language (self s)))
       (py_or tmo (timeout (self s))) (py_or prx (proxies (self s))) s"
  by (simp add: translate_def Let_def)

lemma translate_requests:
  "requests (snd (translate e text tgt src tmo prx s)) =
     requests s @ sent e text (py_or tgt (target_language (self s))) (py_or src (source_language (self s)))
       (py_or tmo (timeout (self s))) (py_or prx (proxies (self s)))"
proof (cases "5000 < length text")
  case True
  then show ?thesis by (simp add: translate_long sent_def)
next
  case False
  then show ?thesis by (simp add: translate_short sent_def dispatch_requests)
qed

lemma translate_self: "self (snd (translate e text tgt src tmo prx s)) = self s"
  by (cases "5000 < length text") (simp_all add: translate_long translate_short dispatch_self)

lemma translate_opened_update:
  "translate e text tgt src tmo prx (s\<lparr>opened := x\<rparr>) =
     (fst (translate e text tgt src tmo prx s), (snd (translate e text tgt src tmo prx s))\<lparr>opened := x\<rparr>)"
  by (cases "5000 < length text") (simp_all add: translate_long translate_short dispatch_opened_update)

lemma py_or_falsy: "\<not> truthy a \<Longrightarrow> py_or a b = b"
  by (simp add: py_or_def)

section \<open>Outcomes of one request\<close>

lemma request_for_eq:
  "\<lparr>req_url = format_url e tgt src (quote bs), req_timeout = tmo, req_proxies = prx\<rparr> =
   request_for e tgt src bs tmo prx"
  by (simp add: request_for_def format_url_def)

lemma raise_for_status_None: "raise_for_status r = None \<longleftrightarrow> \<not> (400 \<le> status_code r \<and> status_code r < 600)"
  by (auto simp: raise_for_status_def)

lemma make_request_failure:
  assumes "utf8_encode text = Inr bs"
    and "failure (requests_get e (length (requests s)) (request_for e tgt src bs tmo prx)) = Some msg"
  shows "make_request e tgt src text tmo prx s =
           (Inl (SystemExit 1),
            s\<lparr>requests := requests s @ [request_for e tgt src bs tmo prx],
              stdout := stdout s @ [10 # asc ''Error: '' @ msg]\<rparr>)"
  using assms
  by (simp add: make_request_def request_for_eq failure_def py_print_def Let_def
      split: net_result.splits)

lemma make_request_match:
  assumes "utf8_encode text = Inr bs"
    and "requests_get e (length (requests s)) (request_for e tgt src bs tmo prx) = Response r"
    and "\<not> (400 \<le> status_code r \<and> status_code r < 600)"
    and "utf8_encode (resp_text r) = Inr rb"
    and "resp_text r = pre @ m @ cap @ 60 # post"
    and "m = marker_t0 \<or> m = marker_rc"
    and "60 \<notin> set cap"
    and "\<forall>k<length pre. \<not> at_marker (drop k (resp_text r))"
  shows "make_request e tgt src text tmo prx s =
           ((case html_unescape (html5 e) cap of Inl err \<Rightarrow> Inl err | Inr d \<Rightarrow> Inr (PStr d)),
            s\<lparr>requests := requests s @ [request_for e tgt src bs tmo prx]\<rparr>)"
proof -
  have st: "raise_for_status r = None" using assms(3) by (simp add: raise_for_status_None)
  have dec: "utf8_decode rb = Inr (resp_text r)" using assms(4) by (rule utf8_roundtrip)
  have "match_here (m @ cap @ 60 # post) = Some (cap, post)"
    using assms(6,7) by (rule match_here_marker)
  moreover have "\<forall>k<length pre. \<not> at_marker (drop k (pre @ m @ cap @ 60 # post))"
    using assms(5,8) by simp
  ultimately have "findall (pre @ m @ cap @ 60 # post) = cap # findall post"
    by (rule findall_first [rotated])
  then have fa: "findall (resp_text r) = cap # findall post" using assms(5) by simp
  show ?thesis
    using assms(1,2,4) st dec fa
    by (simp add: make_request_def request_for_eq Let_def split: sum.split)
qed

lemma make_request_no_match:
  assumes "utf8_encode text = Inr bs"
    and "requests_get e (length (requests s)) (request_for e tgt src bs tmo prx) = Response r"
    and "\<not> (400 \<le> status_code r \<and> status_code r < 600)"
    and "utf8_encode (resp_text r) = Inr rb"
    and "findall (resp_text r) = []"
  shows "make_request e tgt src text tmo prx s =
           (if writable s (asc ''error.txt'') then
              (Inl (SystemExit 1),
               s\<lparr>requests := requests s @ [request_for e tgt src bs tmo prx],
                 stdout := stdout s @ [10 # asc ''Error: Unknown error.''],
                 files := (files s)(asc ''error.txt'' := Regular (Inr (resp_text r)))\<rparr>)
            else
              (Inl OSError,
               s\<lparr>requests := requests s @ [request_for e tgt src bs tmo prx],
                 stdout := stdout s @ [10 # asc ''Error: Unknown error.'']\<rparr>))"
proof -
  have st: "raise_for_status r = None" using assms(3) by (simp add: raise_for_status_None)
  have dec: "utf8_decode rb = Inr (resp_text r)" using assms(4) by (rule utf8_roundtrip)
  show ?thesis
    using assms(1,2,4,5) st dec
    by (simp add: make_request_def request_for_eq py_print_def Let_def)
qed

lemma failure_iff:
  "(\<exists>msg. failure res = Some msg) \<longleftrightarrow>
   (case res of RequestException m \<Rightarrow> True | OtherException x \<Rightarrow> False
    | Response r \<Rightarrow> 400 \<le> status_code r \<and> status_code r < 600)"
  by (cases res) (auto simp: failure_def raise_for_status_def)

lemma fan_out_failure:
  assumes enc: "utf8_encode text = Inr bs"
    and i: "i < length targets"
    and f: "failure (requests_get e (length (requests s) + i) (request_for e (targets ! i) src bs tmo prx)) = Some msg"
  shows "\<exists>err. fst (dispatch e text (PList targets) src tmo prx s) = Inl err"
proof -
  let ?si = "snd (submit_all e (take i targets) src text tmo prx s)"
  have "requests ?si = requests s @ map (\<lambda>t. request_for e t src bs tmo prx) (take i targets)"
    using enc by (simp add: submit_all_requests)
  with i have len: "length (requests ?si) = length (requests s) + i" by simp
  have "make_request e (targets ! i) src text tmo prx ?si =
          (Inl (SystemExit 1),
            ?si\<lparr>requests := requests ?si @ [request_for e (targets ! i) src bs tmo prx],
              stdout := stdout ?si @ [10 # asc ''Error: '' @ msg]\<rparr>)"
    using enc f len by (intro make_request_failure) simp_all
  then have "fst (submit_all e targets src text tmo prx s) ! i = Inl (SystemExit 1)"
    using i by (simp add: submit_all_nth)
  then have "Inl (SystemExit 1) \<in> set (fst (submit_all e targets src text tmo prx s))"
    using i by (metis nth_mem submit_all_length)
  then have "Inl (SystemExit 1) \<in> set (as_completed e (fst (submit_all e targets src text tmo prx s)))"
    by (simp add: set_as_completed)
  then obtain err where "results (as_completed e (fst (submit_all e targets src text tmo prx s))) = Inl err"
    using results_fails by blast
  then show ?thesis by (simp add: dispatch_list_fst)
qed

section \<open>The fresh state and the constructor\<close>

lemma fresh_state_simps [simp]:
  "self (fresh_state inst) = inst"
  "requests (fresh_state inst) = []"
  "stdout (fresh_state inst) = []"
  "files (fresh_state inst) p = Missing"
  "write_denied (fresh_state inst) p = False"
  "opened (fresh_state inst) = []"
  by (simp_all add: fresh_state_def)

lemma init_defaults [simp]:
  "source_language (EasyGoogleTranslate_init None b c d) = PStr (asc ''auto'')"
  "target_language (EasyGoogleTranslate_init a None c d) = PStr (asc ''tr'')"
  "timeout (EasyGoogleTranslate_init a b None d) = PInt 5"
  "proxies (EasyGoogleTranslate_init a b c None) = PNone"
  "source_language (EasyGoogleTranslate_init (Some x) b c d) = x"
  "target_language (EasyGoogleTranslate_init a (Some x) c d) = x"
  "timeout (EasyGoogleTranslate_init a b (Some x) d) = x"
  "proxies (EasyGoogleTranslate_init a b c (Some x)) = x"
  by (simp_all add: EasyGoogleTranslate_init_def)

section \<open>What html.unescape gives\<close>

text \<open>Text without \<^verbatim>\<open>&\<close> is returned as it is; a match of the pattern is the start of the
  input and has no \<^verbatim>\<open>&\<close>; and the call raises exactly when the input holds a decimal
  reference of more than 4300 digits.\<close>

lemma html_unescape_plain: "38 \<notin> set s \<Longrightarrow> html_unescape h s = Inr s"
  by (induction s) simp_all

lemma html_unescape_prefix:
  "38 \<notin> set p \<Longrightarrow>
   html_unescape h (p @ s) = (case html_unescape h s of Inl err \<Rightarrow> Inl err | Inr d \<Rightarrow> Inr (p @ d))"
  by (induction p) (simp_all split: sum.split)

lemma html_unescape_reference:
  "charref cs = Some (g, rest) \<Longrightarrow> replace_charref h g = Inr x \<Longrightarrow>
   html_unescape h (38 # cs) = (case html_unescape h rest of Inl err \<Rightarrow> Inl err | Inr d \<Rightarrow> Inr (x @ d))"
  by simp

lemma opt_semicolon_split:
  "opt_semicolon s = (semi, rest) \<Longrightarrow> s = semi @ rest \<and> (semi = [] \<or> semi = [59])"
  by (auto simp: opt_semicolon_def split: list.splits if_splits)

lemma charref_decimal_SomeD:
  "charref_decimal s = Some (g, rest) \<Longrightarrow>
   \<exists>ds semi. s = 35 # ds @ semi @ rest \<and> g = 35 # ds @ semi \<and> ds = takeWhile is_digit (tl s)
      \<and> ds \<noteq> [] \<and> (semi = [] \<or> semi = [59])"
proof -
  assume a: "charref_decimal s = Some (g, rest)"
  then obtain cs where s: "s = 35 # cs" and ne: "takeWhile is_digit cs \<noteq> []"
    by (auto simp: charref_decimal_def split: list.splits if_splits)
  obtain semi r where o: "opt_semicolon (dropWhile is_digit cs) = (semi, r)" by fastforce
  with a s ne have g: "g = 35 # takeWhile is_digit cs @ semi" and r: "rest = r"
    by (simp_all add: charref_decimal_def)
  from o have "dropWhile is_digit cs = semi @ r" and sm: "semi = [] \<or> semi = [59]"
    using opt_semicolon_split by blast+
  then have "cs = takeWhile is_digit cs @ semi @ r"
    by (metis takeWhile_dropWhile_id)
  with s g r ne sm show ?thesis by auto
qed

lemma charref_hex_SomeD:
  "charref_hex s = Some (g, rest) \<Longrightarrow>
   \<exists>x ds semi. s = 35 # x # ds @ semi @ rest \<and> g = 35 # x # ds @ semi \<and> (x = 120 \<or> x = 88)
      \<and> (\<forall>d\<in>set ds. is_hexdigit d) \<and> ds \<noteq> [] \<and> (semi = [] \<or> semi = [59])"
proof -
  assume a: "charref_hex s = Some (g, rest)"
  then obtain x cs where s: "s = 35 # x # cs" and x: "x = 120 \<or> x = 88"
    and ne: "takeWhile is_hexdigit cs \<noteq> []"
    by (auto simp: charref_hex_def split: list.splits if_splits)
  obtain semi r where o: "opt_semicolon (dropWhile is_hexdigit cs) = (semi, r)" by fastforce
  with a s ne x have g: "g = 35 # x # takeWhile is_hexdigit cs @ semi" and r: "rest = r"
    by (auto simp: charref_hex_def)
  from o have "dropWhile is_hexdigit cs = semi @ r" and sm: "semi = [] \<or> semi = [59]"
    using opt_semicolon_split by blast+
  then have "cs = takeWhile is_hexdigit cs @ semi @ r"
    by (metis takeWhile_dropWhile_id)
  moreover have "\<forall>d\<in>set (takeWhile is_hexdigit cs). is_hexdigit d"
    by (auto dest: set_takeWhileD)
  ultimately show ?thesis using s g r ne sm x by blast
qed

lemma charref_name_SomeD:
  "charref_name s = Some (g, rest) \<Longrightarrow>
   \<exists>name semi. s = name @ semi @ rest \<and> g = name @ semi \<and> (\<forall>c\<in>set name. is_name_char c)
      \<and> name \<noteq> [] \<and> (semi = [] \<or> semi = [59])"
proof -
  assume a: "charref_name s = Some (g, rest)"
  let ?name = "takeWhile is_name_char (take 32 s)"
  from a have ne: "?name \<noteq> []" by (auto simp: charref_name_def Let_def split: if_splits)
  obtain semi r where o: "opt_semicolon (drop (length ?name) s) = (semi, r)" by fastforce
  with a ne have g: "g = ?name @ semi" and r: "rest = r"
    by (simp_all add: charref_name_def Let_def)
  from o have d: "drop (length ?name) s = semi @ r" and sm: "semi = [] \<or> semi = [59]"
    using opt_semicolon_split by blast+
  have "?name = take (length ?name) (take 32 s)" by (rule takeWhile_eq_take)
  also have "\<dots> = take (min (length ?name) 32) s" by simp
  also have "min (length ?name) 32 = length ?name"
    using length_takeWhile_le [of is_name_char "take 32 s"] by simp
  finally have "?name = take (length ?name) s" .
  then have "s = ?name @ drop (length ?name) s" by (metis append_take_drop_id)
  with d have "s = ?name @ semi @ r" by simp
  moreover have "\<forall>c\<in>set ?name. is_name_char c" by (auto dest: set_takeWhileD)
  ultimately show ?thesis using g r ne sm by blast
qed

lemma charref_cases:
  assumes "charref s = Some (g, rest)"
  obtains (decimal) "charref_decimal s = Some (g, rest)"
  | (hex) "charref_decimal s = None" "charref_hex s = Some (g, rest)"
  | (name) "charref_decimal s = None" "charref_hex s = None" "charref_name s = Some (g, rest)"
  using assms by (auto simp: charref_def split: option.splits)

lemma not_38:
  "\<not> is_digit 38" "\<not> is_hexdigit 38" "\<not> is_name_char 38"
  by (simp_all add: is_digit_def is_hexdigit_def is_name_char_def asc_def)

lemma charref_split: "charref s = Some (g, rest) \<Longrightarrow> s = g @ rest \<and> 38 \<notin> set g"
proof (erule charref_cases)
  assume "charref_decimal s = Some (g, rest)"
  then obtain ds semi where s: "s = 35 # ds @ semi @ rest" and g: "g = 35 # ds @ semi"
    and ds: "ds = takeWhile is_digit (tl s)" and sm: "semi = [] \<or> semi = [59]"
    using charref_decimal_SomeD by blast
  from ds have "\<forall>d\<in>set ds. is_digit d" by (metis set_takeWhileD)
  then have "38 \<notin> set ds" using not_38(1) by blast
  moreover from sm have "38 \<notin> set semi" by auto
  ultimately show ?thesis using s g by simp
next
  assume "charref_hex s = Some (g, rest)"
  then obtain x ds semi where s: "s = 35 # x # ds @ semi @ rest" and g: "g = 35 # x # ds @ semi"
    and x: "x = 120 \<or> x = 88" and ds: "\<forall>d\<in>set ds. is_hexdigit d" and sm: "semi = [] \<or> semi = [59]"
    using charref_hex_SomeD by blast
  from ds have "38 \<notin> set ds" using not_38(2) by blast
  moreover from sm have "38 \<notin> set semi" by auto
  moreover from x have "x \<noteq> 38" by auto
  ultimately show ?thesis using s g by simp
next
  assume "charref_name s = Some (g, rest)"
  then obtain name semi where s: "s = name @ semi @ rest" and g: "g = name @ semi"
    and n: "\<forall>c\<in>set name. is_name_char c" and sm: "semi = [] \<or> semi = [59]"
    using charref_name_SomeD by blast
  from n have "38 \<notin> set name" using not_38(3) by blast
  moreover from sm have "38 \<notin> set semi" by auto
  ultimately show ?thesis using s g by simp
qed


lemma strip_semicolon_digits:
  assumes "ds \<noteq> []" and "last ds \<noteq> 59" and "semi = [] \<or> semi = [59]"
  shows "strip_semicolon (ds @ semi) = ds"
proof -
  from assms(1,2) have "dropWhile (\<lambda>c. c = 59) (rev ds) = rev ds"
    by (induction ds rule: rev_induct) simp_all
  with assms(3) have "dropWhile (\<lambda>c. c = 59) (rev (ds @ semi)) = rev ds" by auto
  then show ?thesis by (simp add: strip_semicolon_def)
qed

lemma replace_decimal:
  assumes "charref_decimal s = Some (g, rest)"
  shows "replace_charref h g =
           (if long_decimal s then Inl ValueError
            else Inr (numeric_charref (py_int 10 (takeWhile is_digit (tl s)))))"
proof -
  let ?ds = "takeWhile is_digit (tl s)"
  from assms obtain ds semi where s: "s = 35 # ds @ semi @ rest" and g: "g = 35 # ds @ semi"
    and ds: "ds = ?ds" and ne: "ds \<noteq> []" and sm: "semi = [] \<or> semi = [59]"
    using charref_decimal_SomeD by blast
  from ds have dig: "\<forall>d\<in>set ds. is_digit d" by (metis set_takeWhileD)
  from ne obtain x ds' where c: "ds = x # ds'" by (cases ds) simp_all
  with dig have "is_digit x" by simp
  then have x: "x \<noteq> 120" "x \<noteq> 88" by (simp_all add: is_digit_def)
  from ne dig have "is_digit (last ds)" by simp
  then have "last ds \<noteq> 59" by (auto simp: is_digit_def)
  with ne sm have "strip_semicolon (ds @ semi) = ds" by (intro strip_semicolon_digits)
  then have st: "strip_semicolon (x # ds' @ semi) = ds" using c by simp
  from s obtain t where t: "s = 35 # t" by blast
  then have ld: "long_decimal s = (4300 < length ?ds)" by (simp add: long_decimal_def)
  have "replace_charref h (35 # x # ds' @ semi) =
          (case int_decimal ds of Inl err \<Rightarrow> Inl err | Inr num \<Rightarrow> Inr (numeric_charref num))"
    using x by (simp only: replace_charref.simps st) simp
  then have "replace_charref h g =
          (if 4300 < length ds then Inl ValueError else Inr (numeric_charref (py_int 10 ds)))"
    using g c by (simp add: int_decimal_def)
  then show ?thesis unfolding ld ds [symmetric] .
qed

lemma replace_hex:
  assumes "charref_hex s = Some (g, rest)"
  shows "\<exists>y. replace_charref h g = Inr y" and "\<not> long_decimal s"
proof -
  from assms obtain x ds semi where s: "s = 35 # x # ds @ semi @ rest" and g: "g = 35 # x # ds @ semi"
    and x: "x = 120 \<or> x = 88"
    using charref_hex_SomeD by blast
  from g x show "\<exists>y. replace_charref h g = Inr y" by auto
  from x have "\<not> is_digit x" by (auto simp: is_digit_def)
  with s show "\<not> long_decimal s" by (simp add: long_decimal_def)
qed

lemma replace_named: "c \<noteq> 35 \<Longrightarrow> replace_charref h (c # t) = Inr (named_charref h (c # t))"
  by (cases t) simp_all

lemma replace_name:
  assumes "charref_name s = Some (g, rest)"
  shows "\<exists>y. replace_charref h g = Inr y" and "\<not> long_decimal s"
proof -
  from assms obtain name semi where s: "s = name @ semi @ rest" and g: "g = name @ semi"
    and n: "\<forall>c\<in>set name. is_name_char c" and ne: "name \<noteq> []"
    using charref_name_SomeD by blast
  from ne obtain c t where c: "name = c # t" by (cases name) simp_all
  with n have "is_name_char c" by simp
  then have c35: "c \<noteq> 35" by (auto simp: is_name_char_def asc_def)
  with g c show "\<exists>y. replace_charref h g = Inr y" by (simp add: replace_named)
  from s c c35 show "\<not> long_decimal s" by (simp add: long_decimal_def)
qed

lemma replace_charref_result:
  assumes "charref s = Some (g, rest)"
  shows "long_decimal s \<Longrightarrow> replace_charref h g = Inl ValueError"
    and "\<not> long_decimal s \<Longrightarrow> \<exists>y. replace_charref h g = Inr y"
proof -
  show "replace_charref h g = Inl ValueError" if "long_decimal s"
    using assms
  proof (cases rule: charref_cases)
    case decimal
    with that show ?thesis by (simp add: replace_decimal)
  next
    case hex
    with that replace_hex(2) show ?thesis by blast
  next
    case name
    with that replace_name(2) show ?thesis by blast
  qed
  show "\<exists>y. replace_charref h g = Inr y" if "\<not> long_decimal s"
    using assms
  proof (cases rule: charref_cases)
    case decimal
    with that show ?thesis by (simp add: replace_decimal)
  next
    case hex
    then show ?thesis using replace_hex(1) by blast
  next
    case name
    then show ?thesis using replace_name(1) by blast
  qed
qed

lemma charref_None_not_long: "charref s = None \<Longrightarrow> \<not> long_decimal s"
proof
  assume n: "charref s = None" and l: "long_decimal s"
  from l obtain ds where s: "s = 35 # ds" and "4300 < length (takeWhile is_digit ds)"
    by (auto simp: long_decimal_def split: list.splits)
  then have "takeWhile is_digit ds \<noteq> []" by auto
  with s have "charref_decimal s \<noteq> None"
    by (simp add: charref_decimal_def split: prod.split)
  with n show False by (auto simp: charref_def split: option.splits)
qed

lemma long_reference_append: "38 \<notin> set g \<Longrightarrow> long_reference (g @ rest) = long_reference rest"
  by (induction g) simp_all

lemma html_unescape_result:
  "(long_reference s \<longrightarrow> html_unescape h s = Inl ValueError)
   \<and> (\<not> long_reference s \<longrightarrow> (\<exists>d. html_unescape h s = Inr d))"
proof (induction s rule: length_induct)
  case (1 s)
  show ?case
  proof (cases s)
    case Nil
    then show ?thesis by simp
  next
    case (Cons c cs)
    have IH: "(long_reference t \<longrightarrow> html_unescape h t = Inl ValueError)
              \<and> (\<not> long_reference t \<longrightarrow> (\<exists>d. html_unescape h t = Inr d))"
      if "length t \<le> length cs" for t
      using 1 that Cons by simp
    show ?thesis
    proof (cases "c = 38")
      case False
      with Cons IH [of cs] show ?thesis by auto
    next
      case True
      show ?thesis
      proof (cases "charref cs")
        case None
        then have "\<not> long_decimal cs" by (rule charref_None_not_long)
        with True None Cons IH [of cs] show ?thesis by auto
      next
        case (Some m)
        obtain g rest where m: "m = (g, rest)" by (cases m)
        with Some have cr: "charref cs = Some (g, rest)" by simp
        then have "cs = g @ rest" and "38 \<notin> set g" using charref_split by blast+
        then have lr: "long_reference cs = long_reference rest"
          by (metis long_reference_append)
        have len: "length rest \<le> length cs" using cr by (rule charref_length)
        show ?thesis
        proof (cases "long_decimal cs")
          case ld: True
          with cr have "replace_charref h g = Inl ValueError" by (rule replace_charref_result(1))
          with True cr ld Cons show ?thesis by simp
        next
          case ld: False
          with cr obtain y where "replace_charref h g = Inr y"
            using replace_charref_result(2) by blast
          with True cr ld lr Cons IH [OF len] show ?thesis by auto
        qed
      qed
    qed
  qed
qed

lemma html_unescape_raises: "long_reference s \<Longrightarrow> html_unescape h s = Inl ValueError"
  using html_unescape_result by blast

lemma html_unescape_returns: "\<not> long_reference s \<Longrightarrow> \<exists>d. html_unescape h s = Inr d"
  using html_unescape_result by blast

section \<open>The stub transport at work\<close>

lemma long_reference_nines: "4300 < n \<Longrightarrow> long_reference (38 # 35 # replicate n 57 @ rest)"
proof -
  have "takeWhile is_digit (replicate n 57 @ rest) = replicate n 57 @ takeWhile is_digit rest"
    by (rule takeWhile_append2) (simp add: is_digit_def)
  then show "4300 < n \<Longrightarrow> long_reference (38 # 35 # replicate n 57 @ rest)"
    by (simp add: long_decimal_def)
qed

lemma no_amp_no_long_reference: "38 \<notin> set s \<Longrightarrow> \<not> long_reference s"
  by (induction s) simp_all

lemma takeWhile_nines: "takeWhile is_digit (replicate n 57 @ 59 # rest) = replicate n 57"
proof -
  have "takeWhile is_digit (replicate n 57 @ 59 # rest) = replicate n 57 @ takeWhile is_digit (59 # rest)"
    by (rule takeWhile_append2) (simp add: is_digit_def)
  then show ?thesis by (simp add: is_digit_def)
qed

lemma dropWhile_nines: "dropWhile is_digit (replicate n 57 @ 59 # rest) = 59 # rest"
proof -
  have "dropWhile is_digit (replicate n 57 @ 59 # rest) = dropWhile is_digit (59 # rest)"
    by (rule dropWhile_append2) (simp add: is_digit_def)
  then show ?thesis by (simp add: is_digit_def)
qed

lemma charref_decimal_nines:
  "0 < n \<Longrightarrow>
   charref_decimal (35 # replicate n 57 @ 59 # rest) = Some (35 # replicate n 57 @ [59], rest)"
  by (simp add: charref_decimal_def takeWhile_nines dropWhile_nines opt_semicolon_def)

lemma charref_nines:
  "0 < n \<Longrightarrow> charref (35 # replicate n 57 @ 59 # rest) = Some (35 # replicate n 57 @ [59], rest)"
  by (simp add: charref_def charref_decimal_nines)

lemma py_int_nines: "py_int 10 (replicate n 57) = 10 ^ n - 1"
proof (induction n)
  case 0
  then show ?case by (simp add: py_int_def)
next
  case (Suc n)
  have "replicate (Suc n) (57::nat) = replicate n 57 @ [57]" by (simp add: replicate_append_same)
  then have "py_int 10 (replicate (Suc n) 57) = py_int 10 (replicate n 57) * 10 + 9"
    by (simp only: py_int_def foldl_append) (simp add: hexval_def)
  also have "\<dots> = (10 ^ n - 1) * 10 + 9" using Suc by simp
  also have "\<dots> = 10 ^ Suc n - 1"
  proof -
    have "(1::nat) \<le> 10 ^ n" by simp
    then show ?thesis by (simp add: algebra_simps)
  qed
  finally show ?case .
qed

lemma numeric_charref_big: "0x10FFFF < num \<Longrightarrow> numeric_charref num = [0xFFFD]"
proof -
  assume b: "0x10FFFF < num"
  have "\<forall>k\<in>fst ` set invalid_charrefs. k \<le> 0x9F" by (simp add: invalid_charrefs_def)
  with b have "num \<notin> fst ` set invalid_charrefs" by fastforce
  then have "map_of invalid_charrefs num = None" by (simp add: map_of_eq_None_iff)
  with b show ?thesis by (simp add: numeric_charref_def)
qed

lemma replace_nines:
  assumes "7 \<le> n" and "n \<le> 4300"
  shows "replace_charref h (35 # replicate n 57 @ [59]) = Inr [0xFFFD]"
proof -
  from assms have n: "0 < n" by simp
  have ld: "\<not> long_decimal (35 # replicate n 57 @ 59 # [])"
    using assms(2) by (simp add: long_decimal_def takeWhile_nines)
  have "(10::nat) ^ 7 \<le> 10 ^ n" using assms(1) by (intro power_increasing) simp_all
  then have "0x10FFFF < py_int 10 (replicate n 57)" by (simp add: py_int_nines)
  then have "numeric_charref (py_int 10 (replicate n 57)) = [0xFFFD]" by (rule numeric_charref_big)
  with replace_decimal [OF charref_decimal_nines [OF n, of "[]"], of h] ld
  show ?thesis by (simp add: takeWhile_nines)
qed

lemma html_unescape_nines:
  assumes "7 \<le> n" and "n \<le> 4300"
  shows "html_unescape h (38 # 35 # replicate n 57 @ [59]) = Inr [0xFFFD]"
proof -
  from assms have n: "0 < n" by simp
  show ?thesis
    using html_unescape_reference [OF charref_nines [OF n, of "[]"] replace_nines [OF assms], of h]
    by simp
qed

lemma charref_1: "charref (asc ''#39;s &amp; &#x2014; &notit;'') = Some (asc ''#39;'', asc ''s &amp; &#x2014; &notit;'')"
  by (simp add: charref_def charref_decimal_def is_digit_def opt_semicolon_def asc_def)

lemma replace_1: "replace_charref h (asc ''#39;'') = Inr [39]"
  by (simp add: int_decimal_def numeric_charref_def py_int_def strip_semicolon_def hexval_def
      invalid_charrefs_def invalid_codepoint_def asc_def)

lemma charref_2: "charref (asc ''amp; &#x2014; &notit;'') = Some (asc ''amp;'', asc '' &#x2014; &notit;'')"
  by (simp add: charref_def charref_decimal_def charref_hex_def charref_name_def is_name_char_def
      opt_semicolon_def Let_def asc_def)

lemma replace_2: "replace_charref stub_html5 (asc ''amp;'') = Inr [38]"
  by (simp add: named_charref_def stub_html5_def asc_def)

lemma charref_3: "charref (asc ''#x2014; &notit;'') = Some (asc ''#x2014;'', asc '' &notit;'')"
  by (simp add: charref_def charref_decimal_def charref_hex_def is_digit_def is_hexdigit_def
      opt_semicolon_def asc_def)

lemma replace_3: "replace_charref h (asc ''#x2014;'') = Inr [8212]"
  by (simp add: numeric_charref_def py_int_def strip_semicolon_def hexval_def
      invalid_charrefs_def invalid_codepoint_def asc_def)

lemma charref_4: "charref (asc ''notit;'') = Some (asc ''notit;'', [])"
  by (simp add: charref_def charref_decimal_def charref_hex_def charref_name_def is_name_char_def
      opt_semicolon_def Let_def asc_def)

lemma replace_4: "replace_charref stub_html5 (asc ''notit;'') = Inr (172 # asc ''it;'')"
  by (simp add: named_charref_def stub_html5_def asc_def numeral_eq_Suc)

lemma html_unescape_entities:
  "html_unescape stub_html5 (asc ''It&#39;s &amp; &#x2014; &notit;'') =
     Inr [73, 116, 39, 115, 32, 38, 32, 8212, 32, 172, 105, 116, 59]"
proof -
  have n0: "38 \<notin> set [32::nat]" by simp
  have n1: "38 \<notin> set (asc ''s '')" by (simp add: asc_def)
  have n2: "38 \<notin> set (asc ''It'')" by (simp add: asc_def)
  have 4: "html_unescape stub_html5 (38 # asc ''notit;'') = Inr (172 # asc ''it;'')"
    by (simp only: html_unescape_reference [OF charref_4 replace_4]) simp
  have "html_unescape stub_html5 ([32] @ 38 # asc ''notit;'') = Inr ([32] @ 172 # asc ''it;'')"
    by (simp only: html_unescape_prefix [OF n0] 4 sum.case)
  then have p3: "html_unescape stub_html5 (asc '' &notit;'') = Inr (32 # 172 # asc ''it;'')"
    by (simp add: asc_def)
  have 3: "html_unescape stub_html5 (38 # asc ''#x2014; &notit;'') = Inr (8212 # 32 # 172 # asc ''it;'')"
    by (simp only: html_unescape_reference [OF charref_3 replace_3] p3) simp
  have "html_unescape stub_html5 ([32] @ 38 # asc ''#x2014; &notit;'') = Inr ([32] @ 8212 # 32 # 172 # asc ''it;'')"
    by (simp only: html_unescape_prefix [OF n0] 3 sum.case)
  then have p2: "html_unescape stub_html5 (asc '' &#x2014; &notit;'') = Inr (32 # 8212 # 32 # 172 # asc ''it;'')"
    by (simp add: asc_def)
  have 2: "html_unescape stub_html5 (38 # asc ''amp; &#x2014; &notit;'') = Inr (38 # 32 # 8212 # 32 # 172 # asc ''it;'')"
    by (simp only: html_unescape_reference [OF charref_2 replace_2] p2) simp
  have "html_unescape stub_html5 (asc ''s '' @ 38 # asc ''amp; &#x2014; &notit;'')
          = Inr (asc ''s '' @ 38 # 32 # 8212 # 32 # 172 # asc ''it;'')"
    by (simp only: html_unescape_prefix [OF n1] 2 sum.case)
  then have p1: "html_unescape stub_html5 (asc ''s &amp; &#x2014; &notit;'')
          = Inr (115 # 32 # 38 # 32 # 8212 # 32 # 172 # asc ''it;'')"
    by (simp add: asc_def)
  have 1: "html_unescape stub_html5 (38 # asc ''#39;s &amp; &#x2014; &notit;'')
          = Inr (39 # 115 # 32 # 38 # 32 # 8212 # 32 # 172 # asc ''it;'')"
    by (simp only: html_unescape_reference [OF charref_1 replace_1] p1) simp
  have "html_unescape stub_html5 (asc ''It'' @ 38 # asc ''#39;s &amp; &#x2014; &notit;'')
          = Inr (asc ''It'' @ 39 # 115 # 32 # 38 # 32 # 8212 # 32 # 172 # asc ''it;'')"
    by (simp only: html_unescape_prefix [OF n2] 1 sum.case)
  then show ?thesis by (simp add: asc_def)
qed

lemma utf8_hello: "utf8_encode (asc ''Hello'') = Inr (asc ''Hello'')"
  by (rule utf8_ascii) (simp add: asc_def)

lemma quote_hello: "quote (asc ''Hello'') = asc ''Hello''"
  by (simp add: quote_def quoter_def ALWAYS_SAFE_def asc_def)

lemma answer_request:
  assumes "requests_get e (length (requests s)) (request_for e tgt src (asc ''Hello'') tmo prx) = Response r"
    and "\<not> (400 \<le> status_code r \<and> status_code r < 600)"
    and "resp_text r = marker_t0 @ w @ [60]"
    and "\<forall>c\<in>set w. c < 128 \<and> c \<noteq> 60 \<and> c \<noteq> 38"
  shows "make_request e tgt src (asc ''Hello'') tmo prx s =
           (Inr (PStr w), s\<lparr>requests := requests s @ [request_for e tgt src (asc ''Hello'') tmo prx]\<rparr>)"
proof -
  have "\<forall>c\<in>set (resp_text r). c < 128"
    using assms(3,4) by (auto simp: marker_t0_def asc_def)
  then have h4: "utf8_encode (resp_text r) = Inr (resp_text r)" by (rule utf8_ascii)
  have h5: "resp_text r = [] @ marker_t0 @ w @ 60 # []" using assms(3) by simp
  have h6: "marker_t0 = marker_t0 \<or> marker_t0 = marker_rc" by simp
  have h7: "60 \<notin> set w" using assms(4) by blast
  have h8: "\<forall>k<length ([]::ustr). \<not> at_marker (drop k (resp_text r))" by simp
  have "38 \<notin> set w" using assms(4) by blast
  then have u: "html_unescape (html5 e) w = Inr w" by (rule html_unescape_plain)
  show ?thesis
    using make_request_match [OF utf8_hello assms(1,2) h4 h5 h6 h7 h8] by (simp only: u sum.case)
qed

lemma stub_hola:
  "make_request (stub_env hola_body) tgt src (asc ''Hello'') tmo prx s =
     (Inr (PStr (asc ''Hola'')),
      s\<lparr>requests := requests s @ [request_for (stub_env hola_body) tgt src (asc ''Hello'') tmo prx]\<rparr>)"
proof (rule answer_request)
  show "requests_get (stub_env hola_body) (length (requests s))
          (request_for (stub_env hola_body) tgt src (asc ''Hello'') tmo prx) =
        Response \<lparr>status_code = 200, reason = asc ''OK'',
             resp_url = req_url (request_for (stub_env hola_body) tgt src (asc ''Hello'') tmo prx),
             resp_text = hola_body\<rparr>"
    by (simp add: stub_env_def)
qed (simp_all add: hola_body_def marker_t0_def asc_def)

lemma request_for_hello:
  "request_for e (PStr t) (PStr sr) (asc ''Hello'') tmo prx =
     \<lparr>req_url = asc ''https://translate.google.com/m?tl='' @ t @ asc ''&sl='' @ sr @ asc ''&q=Hello'',
      req_timeout = tmo, req_proxies = prx\<rparr>"
  by (simp add: request_for_def format_value_def quote_hello) (simp add: asc_def)

lemma stub_order: "as_completed (stub_env b) [x, y] = [x, y]"
  by (simp add: as_completed_def yield_order_def stub_env_def upt_rec)

lemma unterminated_no_match:
  "\<forall>pre m rest. unterminated_body = pre @ m @ rest \<and> (m = marker_t0 \<or> m = marker_rc)
     \<longrightarrow> 60 \<notin> set rest"
proof (intro allI impI)
  fix pre m rest
  assume a: "unterminated_body = pre @ m @ rest \<and> (m = marker_t0 \<or> m = marker_rc)"
  have no_lt: "60 \<notin> set (drop 1 unterminated_body)"
    by (simp add: unterminated_body_def asc_def)
  from a have "m \<noteq> []" by (auto simp: marker_t0_def marker_rc_def asc_def)
  then have "1 \<le> length (pre @ m)" by (cases m) simp_all
  moreover from a have "unterminated_body = (pre @ m) @ rest" by simp
  ultimately have "set rest \<subseteq> set (drop 1 unterminated_body)"
    by (metis drop_append set_drop_subset_set_drop append_eq_conv_conj)
  with no_lt show "60 \<notin> set rest" by blast
qed

lemma upt_3: "[0..<3] = [0, 1, 2]"
  by (simp add: upt_rec)

lemma as_completed_3: "as_completed e [x, y, z] = map (\<lambda>i. [x, y, z] ! i) (yield_order e 3)"
  by (simp add: as_completed_def numeral_3_eq_3)

lemma scheduled_request:
  assumes "length (requests s) < 3"
  shows "make_request (scheduled_env three_bodies early srank crank) tgt src (asc ''Hello'') tmo prx s =
     (Inr (PStr ([asc ''Merhaba'', asc ''Bonjour'', asc ''Hallo''] ! length (requests s))),
      s\<lparr>requests := requests s @
            [request_for (scheduled_env three_bodies early srank crank) tgt src (asc ''Hello'') tmo prx]\<rparr>)"
proof (rule answer_request)
  let ?e = "scheduled_env three_bodies early srank crank"
  show "requests_get ?e (length (requests s)) (request_for ?e tgt src (asc ''Hello'') tmo prx) =
        Response \<lparr>status_code = 200, reason = asc ''OK'',
             resp_url = req_url (request_for ?e tgt src (asc ''Hello'') tmo prx),
             resp_text = three_bodies ! length (requests s)\<rparr>"
    using assms by (simp add: scheduled_env_def three_bodies_def)
  from assms consider "length (requests s) = 0" | "length (requests s) = 1" | "length (requests s) = 2"
    by linarith
  then show "resp_text \<lparr>status_code = 200, reason = asc ''OK'',
             resp_url = req_url (request_for ?e tgt src (asc ''Hello'') tmo prx),
             resp_text = three_bodies ! length (requests s)\<rparr> =
        marker_t0 @ ([asc ''Merhaba'', asc ''Bonjour'', asc ''Hallo''] ! length (requests s)) @ [60]"
    by cases (simp_all add: three_bodies_def marker_t0_def asc_def)
  from assms consider "length (requests s) = 0" | "length (requests s) = 1" | "length (requests s) = 2"
    by linarith
  then show "\<forall>c\<in>set ([asc ''Merhaba'', asc ''Bonjour'', asc ''Hallo''] ! length (requests s)).
          c < 128 \<and> c \<noteq> 60 \<and> c \<noteq> 38"
    by cases (simp_all add: asc_def)
qed simp

lemma three_futures:
  "fst (submit_all (scheduled_env three_bodies early srank crank) [t0, t1, t2] src (asc ''Hello'') tmo prx
          (fresh_state inst)) =
     [Inr (PStr (asc ''Merhaba'')), Inr (PStr (asc ''Bonjour'')), Inr (PStr (asc ''Hallo''))]"
  by (simp add: split_beta Let_def scheduled_request)

section \<open>The shape of the result\<close>

lemma translate_shape_single:
  assumes "\<not> isinstance_list (py_or tgt (target_language (self s)))"
  shows "(\<exists>err. fst (translate e text tgt src tmo prx s) = Inl err)
         \<or> (\<exists>x. fst (translate e text tgt src tmo prx s) = Inr (PStr x))"
proof (cases "5000 < length text")
  case True
  then show ?thesis by (simp add: translate_long)
next
  case False
  with assms show ?thesis
    using make_request_shape [of e "py_or tgt (target_language (self s))"
        "py_or src (source_language (self s))" _ "py_or tmo (timeout (self s))"
        "py_or prx (proxies (self s))" s]
    by (simp add: translate_short dispatch_single)
qed

lemma translate_shape_list:
  assumes "py_or tgt (target_language (self s)) = PList targets"
  shows "(\<exists>err. fst (translate e text tgt src tmo prx s) = Inl err)
         \<or> (\<exists>vs. fst (translate e text tgt src tmo prx s) = Inr (PList vs)
              \<and> length vs = length targets \<and> (\<forall>v\<in>set vs. \<exists>x. v = PStr x))"
proof (cases "5000 < length text")
  case True
  then show ?thesis by (simp add: translate_long)
next
  case False
  with assms show ?thesis
    using dispatch_list_shape [of e _ targets "py_or src (source_language (self s))"
        "py_or tmo (timeout (self s))" "py_or prx (proxies (self s))" s]
    by (simp add: translate_short)
qed

lemma targets_single:
  "\<not> isinstance_list v \<Longrightarrow> (case v of PList targets \<Rightarrow> targets | _ \<Rightarrow> [v]) = [v]"
  by (cases v) simp_all

section \<open>The length check\<close>

text \<open>
  C2. A text of more than 5000 characters makes \<^verbatim>\<open>translate\<close> print its error and raise
  \<open>SystemExit 1\<close>; the only change of the state is the printed line, so no request is
  made, nothing is read and nothing is written. A text of at most 5000 characters
  passes the check: the call is what lines 131 to 139 do with the resolved parameters.
\<close>

theorem translate_length_check:
  "(5000 < length text \<longrightarrow>
      fst (translate e text tgt src tmo prx s) = Inl (SystemExit 1)
      \<and> snd (translate e text tgt src tmo prx s) =
          s\<lparr>stdout := stdout s @
              [10 # asc ''Error: It can only detect 5000 characters at once. (''
               @ decimal (length text) @ asc '' characters found.)'']\<rparr>
      \<and> requests (snd (translate e text tgt src tmo prx s)) = requests s)
   \<and> (length text \<le> 5000 \<longrightarrow>
      translate e text tgt src tmo prx s =
        dispatch e text (py_or tgt (target_language (self s)))
          (py_or src (source_language (self s))) (py_or tmo (timeout (self s)))
          (py_or prx (proxies (self s))) s)"
  by (simp add: translate_long translate_short)

theorem translate_length_check_witness:
  "fst (translate (stub_env []) (replicate 5001 97) PNone PNone PNone PNone
          (fresh_state (EasyGoogleTranslate_init None None None None))) = Inl (SystemExit 1)
   \<and> requests (snd (translate (stub_env []) (replicate 5001 97) PNone PNone PNone PNone
          (fresh_state (EasyGoogleTranslate_init None None None None)))) = []
   \<and> translate (stub_env []) (replicate 5000 97) PNone PNone PNone PNone
          (fresh_state (EasyGoogleTranslate_init None None None None)) =
       dispatch (stub_env []) (replicate 5000 97) (PStr (asc ''tr'')) (PStr (asc ''auto''))
          (PInt 5) PNone (fresh_state (EasyGoogleTranslate_init None None None None))"
  using translate_length_check [of "replicate 5001 97" "stub_env []" PNone PNone PNone PNone
      "fresh_state (EasyGoogleTranslate_init None None None None)"]
    translate_length_check [of "replicate 5000 97" "stub_env []" PNone PNone PNone PNone
      "fresh_state (EasyGoogleTranslate_init None None None None)"]
  by (simp add: fresh_state_def EasyGoogleTranslate_init_def py_or_def)

section \<open>The request URL\<close>

text \<open>
  C4, as stated, fails: a text is a Python \<^verbatim>\<open>str\<close>, and one that holds a lone surrogate
  code point, as the one character \<^verbatim>\<open>'\ud800'\<close>, has no UTF-8 encoding.
  \<^verbatim>\<open>text.encode('utf8')\<close> raises \<^verbatim>\<open>UnicodeEncodeError\<close> before the URL is formatted, so
  \<^verbatim>\<open>make_request\<close> and \<^verbatim>\<open>translate\<close> raise it and leave the state as it was: no request
  is made, and there is no request URL.
\<close>

theorem lone_surrogate_has_no_url_counterexample:
  "length [0xD800::nat] \<le> 5000
   \<and> make_request (stub_env hola_body) (PStr (asc ''fr'')) (PStr (asc ''en'')) [0xD800] (PInt 5) PNone
        (fresh_state (EasyGoogleTranslate_init None None None None)) =
      (Inl UnicodeEncodeError, fresh_state (EasyGoogleTranslate_init None None None None))
   \<and> translate (stub_env hola_body) [0xD800] (PStr (asc ''fr'')) (PStr (asc ''en'')) (PInt 5) PNone
        (fresh_state (EasyGoogleTranslate_init None None None None)) =
      (Inl UnicodeEncodeError, fresh_state (EasyGoogleTranslate_init None None None None))
   \<and> requests (fresh_state (EasyGoogleTranslate_init None None None None)) = []"
proof -
  have enc: "utf8_encode [0xD800] = Inl UnicodeEncodeError" by (simp add: utf8_char_def)
  have ne: "asc ''fr'' \<noteq> []" "asc ''en'' \<noteq> []" by (simp_all add: asc_def)
  have m: "make_request e tgt src [0xD800] tmo prx s = (Inl UnicodeEncodeError, s)" for e tgt src tmo prx s
    using enc by (rule make_request_unencodable)
  have "translate (stub_env hola_body) [0xD800] (PStr (asc ''fr'')) (PStr (asc ''en'')) (PInt 5) PNone
        (fresh_state (EasyGoogleTranslate_init None None None None)) =
      (Inl UnicodeEncodeError, fresh_state (EasyGoogleTranslate_init None None None None))"
    using ne by (simp add: translate_short py_or_def dispatch_def m)
  with m show ?thesis by simp
qed

text \<open>
  C4, amended. For a text all of whose code points are Unicode scalar values (no
  surrogate), the text has a UTF-8 encoding and the request \<^verbatim>\<open>make_request\<close> sends for it
  and string codes has exactly the URL
  \<^verbatim>\<open>https://translate.google.com/m?tl={target}&sl={source}&q={encoded_text}\<close>: the codes
  stand unchanged in their positions and \<^verbatim>\<open>encoded_text\<close> is the percent-encoding of the
  UTF-8 bytes of the text. The encoding is exact: percent-decoding it gives those bytes
  back, and decoding them gives the text back. It is the only request of the call. The
  same holds for \<^verbatim>\<open>translate\<close> with a text of at most 5000 characters and non-empty string
  codes. A text with a surrogate makes \<^verbatim>\<open>make_request\<close> raise \<^verbatim>\<open>UnicodeEncodeError\<close> with
  the state unchanged.
\<close>

theorem request_url_exact:
  "((\<forall>c\<in>set text. scalar_value c) \<longrightarrow>
      (\<exists>bs. utf8_encode text = Inr bs
         \<and> unquote (quote bs) = Some bs
         \<and> utf8_decode bs = Inr text
         \<and> requests (snd (make_request e (PStr tcode) (PStr scode) text tmo prx s)) =
             requests s @
               [\<lparr>req_url = asc ''https://translate.google.com/m?tl='' @ tcode @ asc ''&sl='' @ scode
                            @ asc ''&q='' @ quote bs,
                 req_timeout = tmo, req_proxies = prx\<rparr>]
         \<and> (length text \<le> 5000 \<and> tcode \<noteq> [] \<and> scode \<noteq> [] \<longrightarrow>
              requests (snd (translate e text (PStr tcode) (PStr scode) tmo prx s)) =
                requests s @
                  [\<lparr>req_url = asc ''https://translate.google.com/m?tl='' @ tcode @ asc ''&sl='' @ scode
                               @ asc ''&q='' @ quote bs,
                    req_timeout = py_or tmo (timeout (self s)),
                    req_proxies = py_or prx (proxies (self s))\<rparr>])))
   \<and> (\<not> (\<forall>c\<in>set text. scalar_value c) \<longrightarrow>
        make_request e (PStr tcode) (PStr scode) text tmo prx s = (Inl UnicodeEncodeError, s))
   \<and> (scalar_value c \<longleftrightarrow> c < 0x110000 \<and> \<not> (0xD800 \<le> c \<and> c \<le> 0xDFFF))"
proof (intro conjI impI)
  assume "\<forall>c\<in>set text. scalar_value c"
  then obtain bs where enc: "utf8_encode text = Inr bs" using utf8_encode_Inr_iff by blast
  then have "\<forall>b\<in>set bs. b < 256" using utf8_encode_bytes by blast
  then have 1: "unquote (quote bs) = Some bs" by (rule unquote_quote)
  from enc have 2: "utf8_decode bs = Inr text" by (rule utf8_roundtrip)
  have 3: "requests (snd (make_request e (PStr tcode) (PStr scode) text tmo prx s)) =
             requests s @
               [\<lparr>req_url = asc ''https://translate.google.com/m?tl='' @ tcode @ asc ''&sl='' @ scode
                            @ asc ''&q='' @ quote bs,
                 req_timeout = tmo, req_proxies = prx\<rparr>]"
    using enc by (simp add: make_request_requests request_for_def format_value_def)
  have 4: "length text \<le> 5000 \<and> tcode \<noteq> [] \<and> scode \<noteq> [] \<longrightarrow>
              requests (snd (translate e text (PStr tcode) (PStr scode) tmo prx s)) =
                requests s @
                  [\<lparr>req_url = asc ''https://translate.google.com/m?tl='' @ tcode @ asc ''&sl='' @ scode
                               @ asc ''&q='' @ quote bs,
                    req_timeout = py_or tmo (timeout (self s)),
                    req_proxies = py_or prx (proxies (self s))\<rparr>]"
    using enc
    by (simp add: translate_requests sent_def py_or_def request_for_def format_value_def)
  from enc 1 2 3 4 show "\<exists>bs. utf8_encode text = Inr bs
         \<and> unquote (quote bs) = Some bs
         \<and> utf8_decode bs = Inr text
         \<and> requests (snd (make_request e (PStr tcode) (PStr scode) text tmo prx s)) =
             requests s @
               [\<lparr>req_url = asc ''https://translate.google.com/m?tl='' @ tcode @ asc ''&sl='' @ scode
                            @ asc ''&q='' @ quote bs,
                 req_timeout = tmo, req_proxies = prx\<rparr>]
         \<and> (length text \<le> 5000 \<and> tcode \<noteq> [] \<and> scode \<noteq> [] \<longrightarrow>
              requests (snd (translate e text (PStr tcode) (PStr scode) tmo prx s)) =
                requests s @
                  [\<lparr>req_url = asc ''https://translate.google.com/m?tl='' @ tcode @ asc ''&sl='' @ scode
                               @ asc ''&q='' @ quote bs,
                    req_timeout = py_or tmo (timeout (self s)),
                    req_proxies = py_or prx (proxies (self s))\<rparr>])"
    by blast
next
  assume "\<not> (\<forall>c\<in>set text. scalar_value c)"
  then have "\<nexists>bs. utf8_encode text = Inr bs" using utf8_encode_Inr_iff by blast
  then obtain err where "utf8_encode text = Inl err" by (cases "utf8_encode text") auto
  then show "make_request e (PStr tcode) (PStr scode) text tmo prx s = (Inl UnicodeEncodeError, s)"
    by (rule make_request_unencodable)
next
  show "scalar_value c \<longleftrightarrow> c < 0x110000 \<and> \<not> (0xD800 \<le> c \<and> c \<le> 0xDFFF)"
    by (simp add: scalar_value_def)
qed

theorem request_url_exact_witness:
  "utf8_encode [72, 105, 32, 233, 8364, 128512] =
     Inr [72, 105, 32, 195, 169, 226, 130, 172, 240, 159, 152, 128]
   \<and> requests (snd (make_request (stub_env []) (PStr (asc ''fr'')) (PStr (asc ''en''))
                    [72, 105, 32, 233, 8364, 128512]
                    (PInt 5) PNone (fresh_state (EasyGoogleTranslate_init None None None None)))) =
     [\<lparr>req_url = asc ''https://translate.google.com/m?tl=fr&sl=en&q=Hi%20%C3%A9%E2%82%AC%F0%9F%98%80'',
       req_timeout = PInt 5, req_proxies = PNone\<rparr>]
   \<and> unquote (asc ''Hi%20%C3%A9%E2%82%AC%F0%9F%98%80'') =
       Some [72, 105, 32, 195, 169, 226, 130, 172, 240, 159, 152, 128]
   \<and> utf8_decode [72, 105, 32, 195, 169, 226, 130, 172, 240, 159, 152, 128] =
       Inr [72, 105, 32, 233, 8364, 128512]
   \<and> requests (snd (translate (stub_env []) [72, 105, 32, 233, 8364, 128512]
                    (PStr (asc ''fr'')) (PStr (asc ''en''))
                    (PInt 5) PNone (fresh_state (EasyGoogleTranslate_init None None None None)))) =
     [\<lparr>req_url = asc ''https://translate.google.com/m?tl=fr&sl=en&q=Hi%20%C3%A9%E2%82%AC%F0%9F%98%80'',
       req_timeout = PInt 5, req_proxies = PNone\<rparr>]"
proof -
  let ?s = "fresh_state (EasyGoogleTranslate_init None None None None)"
  let ?t = "[72, 105, 32, 233, 8364, 128512] :: ustr"
  let ?B = "[72, 105, 32, 195, 169, 226, 130, 172, 240, 159, 152, 128] :: nat list"
  have sc: "\<forall>c\<in>set ?t. scalar_value c" by (simp add: scalar_value_def)
  have q: "quote ?B = asc ''Hi%20%C3%A9%E2%82%AC%F0%9F%98%80''"
    by (simp add: quote_def quoter_def ALWAYS_SAFE_def hexdigit_def asc_def)
  have url: "asc ''https://translate.google.com/m?tl='' @ asc ''fr'' @ asc ''&sl='' @ asc ''en''
               @ asc ''&q='' @ asc ''Hi%20%C3%A9%E2%82%AC%F0%9F%98%80'' =
             asc ''https://translate.google.com/m?tl=fr&sl=en&q=Hi%20%C3%A9%E2%82%AC%F0%9F%98%80''"
    by (simp add: asc_def)
  have len: "length ?t \<le> 5000 \<and> asc ''fr'' \<noteq> [] \<and> asc ''en'' \<noteq> []"
    by (simp add: asc_def)
  from request_url_exact [where e = "stub_env []" and tcode = "asc ''fr''" and scode = "asc ''en''"
        and tmo = "PInt 5" and prx = PNone and s = ?s, THEN conjunct1, THEN mp, OF sc]
  obtain bs where enc: "utf8_encode ?t = Inr bs"
    and 1: "unquote (quote bs) = Some bs"
    and 2: "utf8_decode bs = Inr ?t"
    and 3: "requests (snd (make_request (stub_env []) (PStr (asc ''fr'')) (PStr (asc ''en'')) ?t
               (PInt 5) PNone ?s)) =
             requests ?s @
               [\<lparr>req_url = asc ''https://translate.google.com/m?tl='' @ asc ''fr'' @ asc ''&sl='' @ asc ''en''
                            @ asc ''&q='' @ quote bs,
                 req_timeout = PInt 5, req_proxies = PNone\<rparr>]"
    and 4: "length ?t \<le> 5000 \<and> asc ''fr'' \<noteq> [] \<and> asc ''en'' \<noteq> [] \<longrightarrow>
              requests (snd (translate (stub_env []) ?t (PStr (asc ''fr'')) (PStr (asc ''en''))
                 (PInt 5) PNone ?s)) =
                requests ?s @
                  [\<lparr>req_url = asc ''https://translate.google.com/m?tl='' @ asc ''fr'' @ asc ''&sl='' @ asc ''en''
                               @ asc ''&q='' @ quote bs,
                    req_timeout = py_or (PInt 5) (timeout (self ?s)),
                    req_proxies = py_or PNone (proxies (self ?s))\<rparr>]"
    by blast
  have "utf8_encode ?t = Inr ?B" by (simp add: utf8_char_def)
  with enc have bs: "bs = ?B" by simp
  have p: "py_or (PInt 5) (timeout (self ?s)) = PInt 5" "py_or PNone (proxies (self ?s)) = PNone"
    by (simp_all add: py_or_def)
  from enc bs have a: "utf8_encode ?t = Inr ?B" by simp
  from 1 have b: "unquote (asc ''Hi%20%C3%A9%E2%82%AC%F0%9F%98%80'') = Some ?B"
    unfolding bs q .
  from 2 have c: "utf8_decode ?B = Inr ?t" unfolding bs .
  from 3 have d: "requests (snd (make_request (stub_env []) (PStr (asc ''fr'')) (PStr (asc ''en'')) ?t
               (PInt 5) PNone ?s)) =
     [\<lparr>req_url = asc ''https://translate.google.com/m?tl=fr&sl=en&q=Hi%20%C3%A9%E2%82%AC%F0%9F%98%80'',
       req_timeout = PInt 5, req_proxies = PNone\<rparr>]"
    unfolding bs q url by simp
  from 4 [THEN mp, OF len] have e: "requests (snd (translate (stub_env []) ?t (PStr (asc ''fr''))
               (PStr (asc ''en'')) (PInt 5) PNone ?s)) =
     [\<lparr>req_url = asc ''https://translate.google.com/m?tl=fr&sl=en&q=Hi%20%C3%A9%E2%82%AC%F0%9F%98%80'',
       req_timeout = PInt 5, req_proxies = PNone\<rparr>]"
    unfolding bs q url p by simp
  from a b c d e show ?thesis by (simp only: simp_thms)
qed

section \<open>Extracting the translation\<close>

text \<open>
  C3, as stated, fails: not every match is decoded and returned. When the first match
  holds a decimal character reference of more than 4300 digits, \<^verbatim>\<open>html.unescape\<close> raises
  \<^verbatim>\<open>ValueError\<close> (its \<^verbatim>\<open>int()\<close> refuses that many digits), and \<^verbatim>\<open>make_request\<close>, which
  catches only \<^verbatim>\<open>RequestException\<close>, raises it instead of returning a translation. The
  body here is \<^verbatim>\<open><p class="t0">&#\<close>, 4301 times the digit 9, \<^verbatim>\<open>;</p>\<close>.
\<close>

theorem long_reference_is_not_decoded_counterexample:
  "fst (make_request (stub_env long_reference_body) (PStr (asc ''es'')) (PStr (asc ''en''))
          (asc ''Hello'') (PInt 5) PNone
          (fresh_state (EasyGoogleTranslate_init None None None None))) = Inl ValueError
   \<and> take 1 (findall long_reference_body) = [asc ''&#'' @ replicate 4301 57 @ asc '';'']"
proof -
  let ?e = "stub_env long_reference_body"
  let ?s = "fresh_state (EasyGoogleTranslate_init None None None None)"
  let ?cap = "(38 # 35 # replicate 4301 57 @ [59]) :: ustr"
  let ?r = "\<lparr>status_code = 200, reason = asc ''OK'',
             resp_url = req_url (request_for ?e (PStr (asc ''es'')) (PStr (asc ''en'')) (asc ''Hello'') (PInt 5) PNone),
             resp_text = long_reference_body\<rparr>"
  have h2: "requests_get ?e (length (requests ?s))
              (request_for ?e (PStr (asc ''es'')) (PStr (asc ''en'')) (asc ''Hello'') (PInt 5) PNone) = Response ?r"
    by (simp add: stub_env_def)
  have h3: "\<not> (400 \<le> status_code ?r \<and> status_code ?r < 600)" by simp
  have "\<forall>c\<in>set long_reference_body. c < 128" by (simp add: long_reference_body_def asc_def)
  then have "utf8_encode long_reference_body = Inr long_reference_body" by (rule utf8_ascii)
  then have h4: "utf8_encode (resp_text ?r) = Inr long_reference_body" by simp
  have b: "long_reference_body = asc ''<p '' @ marker_t0 @ ?cap @ 60 # asc ''/p>''"
    by (simp add: long_reference_body_def marker_t0_def asc_def)
  then have h5: "resp_text ?r = asc ''<p '' @ marker_t0 @ ?cap @ 60 # asc ''/p>''" by simp
  have h6: "marker_t0 = marker_t0 \<or> marker_t0 = marker_rc" by simp
  have h7: "60 \<notin> set ?cap" by simp
  have h8: "\<forall>k<length (asc ''<p ''). \<not> at_marker (drop k (resp_text ?r))"
    by (simp add: asc_def long_reference_body_def at_marker_def marker_t0_def marker_rc_def
        numeral_3_eq_3 All_less_Suc)
  have "long_reference ?cap" by (rule long_reference_nines) simp
  then have u: "html_unescape (html5 ?e) ?cap = Inl ValueError" by (rule html_unescape_raises)
  have "fst (make_request ?e (PStr (asc ''es'')) (PStr (asc ''en'')) (asc ''Hello'') (PInt 5) PNone ?s)
          = Inl ValueError"
    using make_request_match [OF utf8_hello h2 h3 h4 h5 h6 h7 h8] by (simp only: u sum.case fst_conv)
  moreover have "findall long_reference_body = ?cap # findall (asc ''/p>'')"
    using first_match [OF h5 h6 h7 h8] by simp
  then have "take 1 (findall long_reference_body) = [asc ''&#'' @ replicate 4301 57 @ asc '';'']"
    by (simp add: asc_def)
  ultimately show ?thesis by simp
qed

text \<open>
  C3, amended. A successful response (a status that \<^verbatim>\<open>raise_for_status\<close> lets pass) whose
  body is Unicode text and matches the pattern: the body is \<open>pre @ m @ cap @ '<' # post\<close>
  where \<open>m\<close> is one of the two markers, \<open>cap\<close> has no \<^verbatim>\<open><\<close>, and no marker starts at
  an earlier position, so this is the first match whichever marker it has. Then
  \<open>cap\<close>, the content up to and without the next \<^verbatim>\<open><\<close>, is the first element of what
  \<^verbatim>\<open>re.findall\<close> gives. When \<open>cap\<close> holds no decimal character reference of more than
  4300 digits, \<^verbatim>\<open>html.unescape\<close> decodes it and \<^verbatim>\<open>make_request\<close> returns the decoded string
  and does nothing but send its request; when it holds one, \<^verbatim>\<open>make_request\<close> raises
  \<^verbatim>\<open>ValueError\<close> after its request. A match without \<^verbatim>\<open>&\<close> is returned as it is.
\<close>

theorem make_request_first_match:
  assumes "utf8_encode text = Inr bs"
    and "requests_get e (length (requests s)) (request_for e tgt src bs tmo prx) = Response r"
    and "\<not> (400 \<le> status_code r \<and> status_code r < 600)"
    and "utf8_encode (resp_text r) = Inr rb"
    and "resp_text r = pre @ m @ cap @ 60 # post"
    and "m = marker_t0 \<or> m = marker_rc"
    and "60 \<notin> set cap"
    and "\<forall>k<length pre. \<not> at_marker (drop k (resp_text r))"
  shows "(\<not> long_reference cap \<longrightarrow>
            (\<exists>d. html_unescape (html5 e) cap = Inr d
               \<and> make_request e tgt src text tmo prx s =
                   (Inr (PStr d), s\<lparr>requests := requests s @ [request_for e tgt src bs tmo prx]\<rparr>)))
         \<and> (long_reference cap \<longrightarrow>
              make_request e tgt src text tmo prx s =
                (Inl ValueError, s\<lparr>requests := requests s @ [request_for e tgt src bs tmo prx]\<rparr>))
         \<and> findall (resp_text r) = cap # findall post
         \<and> (38 \<notin> set cap \<longrightarrow> html_unescape (html5 e) cap = Inr cap)"
proof (intro conjI impI)
  note m = make_request_match [OF assms]
  {
    assume "\<not> long_reference cap"
    then obtain d where d: "html_unescape (html5 e) cap = Inr d"
      using html_unescape_returns by blast
    with m have "make_request e tgt src text tmo prx s =
                   (Inr (PStr d), s\<lparr>requests := requests s @ [request_for e tgt src bs tmo prx]\<rparr>)"
      by simp
    with d show "\<exists>d. html_unescape (html5 e) cap = Inr d
               \<and> make_request e tgt src text tmo prx s =
                   (Inr (PStr d), s\<lparr>requests := requests s @ [request_for e tgt src bs tmo prx]\<rparr>)"
      by blast
  }
  {
    assume "long_reference cap"
    then have "html_unescape (html5 e) cap = Inl ValueError" by (rule html_unescape_raises)
    with m show "make_request e tgt src text tmo prx s =
                (Inl ValueError, s\<lparr>requests := requests s @ [request_for e tgt src bs tmo prx]\<rparr>)"
      by simp
  }
  show "findall (resp_text r) = cap # findall post"
    using assms(5-8) by (rule first_match)
  show "html_unescape (html5 e) cap = Inr cap" if "38 \<notin> set cap"
    using that by (rule html_unescape_plain)
qed

theorem make_request_first_match_witness:
  "make_request (stub_env entity_body) (PStr (asc ''es'')) (PStr (asc ''en'')) (asc ''Hello'')
     (PInt 5) PNone (fresh_state (EasyGoogleTranslate_init None None None None)) =
   (Inr (PStr [73, 116, 39, 115, 32, 38, 32, 8212, 32, 172, 105, 116, 59]),
    (fresh_state (EasyGoogleTranslate_init None None None None))
      \<lparr>requests := [\<lparr>req_url = asc ''https://translate.google.com/m?tl=es&sl=en&q=Hello'',
                      req_timeout = PInt 5, req_proxies = PNone\<rparr>]\<rparr>)
   \<and> make_request (stub_env long_reference_body) (PStr (asc ''es'')) (PStr (asc ''en'')) (asc ''Hello'')
     (PInt 5) PNone (fresh_state (EasyGoogleTranslate_init None None None None)) =
   (Inl ValueError,
    (fresh_state (EasyGoogleTranslate_init None None None None))
      \<lparr>requests := [\<lparr>req_url = asc ''https://translate.google.com/m?tl=es&sl=en&q=Hello'',
                      req_timeout = PInt 5, req_proxies = PNone\<rparr>]\<rparr>)
   \<and> make_request (stub_env max_reference_body) (PStr (asc ''es'')) (PStr (asc ''en'')) (asc ''Hello'')
     (PInt 5) PNone (fresh_state (EasyGoogleTranslate_init None None None None)) =
   (Inr (PStr [0xFFFD]),
    (fresh_state (EasyGoogleTranslate_init None None None None))
      \<lparr>requests := [\<lparr>req_url = asc ''https://translate.google.com/m?tl=es&sl=en&q=Hello'',
                      req_timeout = PInt 5, req_proxies = PNone\<rparr>]\<rparr>)"
proof -
  let ?e = "stub_env entity_body"
  let ?s = "fresh_state (EasyGoogleTranslate_init None None None None)"
  let ?cap = "asc ''It&#39;s &amp; &#x2014; &notit;''"
  let ?r = "\<lparr>status_code = 200, reason = asc ''OK'',
             resp_url = req_url (request_for ?e (PStr (asc ''es'')) (PStr (asc ''en'')) (asc ''Hello'') (PInt 5) PNone),
             resp_text = entity_body\<rparr>"
  let ?post = "asc (''/p><div class='' @ [CHR 0x22] @ ''result-container'' @ [CHR 0x22] @ ''>Bonjour</div>'')"
  have h2: "requests_get ?e (length (requests ?s))
              (request_for ?e (PStr (asc ''es'')) (PStr (asc ''en'')) (asc ''Hello'') (PInt 5) PNone) = Response ?r"
    by (simp add: stub_env_def)
  have h3: "\<not> (400 \<le> status_code ?r \<and> status_code ?r < 600)" by simp
  have h4: "utf8_encode (resp_text ?r) = Inr entity_body"
    by (simp, rule utf8_ascii) (simp add: entity_body_def asc_def)
  have h5: "resp_text ?r = asc ''<p '' @ marker_t0 @ ?cap @ 60 # ?post"
    by (simp add: entity_body_def marker_t0_def asc_def)
  have h6: "marker_t0 = marker_t0 \<or> marker_t0 = marker_rc" by simp
  have h7: "60 \<notin> set ?cap" by (simp add: asc_def)
  have h8: "\<forall>k<length (asc ''<p ''). \<not> at_marker (drop k (resp_text ?r))"
    by (simp add: asc_def entity_body_def at_marker_def marker_t0_def marker_rc_def
        numeral_3_eq_3 All_less_Suc)
  have nl: "\<not> long_reference ?cap"
    by (simp add: asc_def long_decimal_def is_digit_def)
  have url: "request_for e' (PStr (asc ''es'')) (PStr (asc ''en'')) (asc ''Hello'') (PInt 5) PNone =
      \<lparr>req_url = asc ''https://translate.google.com/m?tl=es&sl=en&q=Hello'',
                      req_timeout = PInt 5, req_proxies = PNone\<rparr>" for e'
    by (simp add: request_for_hello) (simp add: asc_def)
  from make_request_first_match [OF utf8_hello h2 h3 h4 h5 h6 h7 h8, THEN conjunct1, THEN mp, OF nl]
  obtain d where d: "html_unescape (html5 ?e) ?cap = Inr d"
    and m: "make_request ?e (PStr (asc ''es'')) (PStr (asc ''en'')) (asc ''Hello'') (PInt 5) PNone ?s =
              (Inr (PStr d),
               ?s\<lparr>requests := requests ?s @ [request_for ?e (PStr (asc ''es'')) (PStr (asc ''en''))
                                                (asc ''Hello'') (PInt 5) PNone]\<rparr>)"
    by blast
  have "html5 ?e = stub_html5" by (simp add: stub_env_def)
  with d have "d = [73, 116, 39, 115, 32, 38, 32, 8212, 32, 172, 105, 116, 59]"
    by (simp add: html_unescape_entities)
  with m have 1: "make_request ?e (PStr (asc ''es'')) (PStr (asc ''en'')) (asc ''Hello'') (PInt 5) PNone ?s =
   (Inr (PStr [73, 116, 39, 115, 32, 38, 32, 8212, 32, 172, 105, 116, 59]),
    ?s\<lparr>requests := [\<lparr>req_url = asc ''https://translate.google.com/m?tl=es&sl=en&q=Hello'',
                      req_timeout = PInt 5, req_proxies = PNone\<rparr>]\<rparr>)"
    by (simp only: url fresh_state_simps append_Nil)
  let ?e2 = "stub_env long_reference_body"
  let ?cap2 = "(38 # 35 # replicate 4301 57 @ [59]) :: ustr"
  let ?r2 = "\<lparr>status_code = 200, reason = asc ''OK'',
             resp_url = req_url (request_for ?e2 (PStr (asc ''es'')) (PStr (asc ''en'')) (asc ''Hello'') (PInt 5) PNone),
             resp_text = long_reference_body\<rparr>"
  have g2: "requests_get ?e2 (length (requests ?s))
              (request_for ?e2 (PStr (asc ''es'')) (PStr (asc ''en'')) (asc ''Hello'') (PInt 5) PNone) = Response ?r2"
    by (simp add: stub_env_def)
  have g3: "\<not> (400 \<le> status_code ?r2 \<and> status_code ?r2 < 600)" by simp
  have "\<forall>c\<in>set long_reference_body. c < 128" by (simp add: long_reference_body_def asc_def)
  then have "utf8_encode long_reference_body = Inr long_reference_body" by (rule utf8_ascii)
  then have g4: "utf8_encode (resp_text ?r2) = Inr long_reference_body" by simp
  have g5: "resp_text ?r2 = asc ''<p '' @ marker_t0 @ ?cap2 @ 60 # asc ''/p>''"
    by (simp add: long_reference_body_def marker_t0_def asc_def)
  have g7: "60 \<notin> set ?cap2" by simp
  have g8: "\<forall>k<length (asc ''<p ''). \<not> at_marker (drop k (resp_text ?r2))"
    by (simp add: asc_def long_reference_body_def at_marker_def marker_t0_def marker_rc_def
        numeral_3_eq_3 All_less_Suc)
  have lr: "long_reference ?cap2" by (rule long_reference_nines) simp
  from make_request_first_match [OF utf8_hello g2 g3 g4 g5 h6 g7 g8, THEN conjunct2, THEN conjunct1,
      THEN mp, OF lr]
  have 2: "make_request ?e2 (PStr (asc ''es'')) (PStr (asc ''en'')) (asc ''Hello'') (PInt 5) PNone ?s =
   (Inl ValueError,
    ?s\<lparr>requests := [\<lparr>req_url = asc ''https://translate.google.com/m?tl=es&sl=en&q=Hello'',
                      req_timeout = PInt 5, req_proxies = PNone\<rparr>]\<rparr>)"
    by (simp only: url fresh_state_simps append_Nil)
  let ?e3 = "stub_env max_reference_body"
  let ?cap3 = "(38 # 35 # replicate 4300 57 @ [59]) :: ustr"
  let ?r3 = "\<lparr>status_code = 200, reason = asc ''OK'',
             resp_url = req_url (request_for ?e3 (PStr (asc ''es'')) (PStr (asc ''en'')) (asc ''Hello'') (PInt 5) PNone),
             resp_text = max_reference_body\<rparr>"
  have k2: "requests_get ?e3 (length (requests ?s))
              (request_for ?e3 (PStr (asc ''es'')) (PStr (asc ''en'')) (asc ''Hello'') (PInt 5) PNone) = Response ?r3"
    by (simp add: stub_env_def)
  have k3: "\<not> (400 \<le> status_code ?r3 \<and> status_code ?r3 < 600)" by simp
  have "\<forall>c\<in>set max_reference_body. c < 128" by (simp add: max_reference_body_def asc_def)
  then have "utf8_encode max_reference_body = Inr max_reference_body" by (rule utf8_ascii)
  then have k4: "utf8_encode (resp_text ?r3) = Inr max_reference_body" by simp
  have k5: "resp_text ?r3 = asc ''<p '' @ marker_t0 @ ?cap3 @ 60 # asc ''/p>''"
    by (simp add: max_reference_body_def marker_t0_def asc_def)
  have k7: "60 \<notin> set ?cap3" by simp
  have k8: "\<forall>k<length (asc ''<p ''). \<not> at_marker (drop k (resp_text ?r3))"
    by (simp add: asc_def max_reference_body_def at_marker_def marker_t0_def marker_rc_def
        numeral_3_eq_3 All_less_Suc)
  have "\<not> long_reference (35 # replicate 4300 57 @ [59])"
    by (rule no_amp_no_long_reference) simp
  then have nl3: "\<not> long_reference ?cap3"
    by (simp add: long_decimal_def takeWhile_nines)
  from make_request_first_match [OF utf8_hello k2 k3 k4 k5 h6 k7 k8, THEN conjunct1, THEN mp, OF nl3]
  obtain d3 where d3: "html_unescape (html5 ?e3) ?cap3 = Inr d3"
    and m3: "make_request ?e3 (PStr (asc ''es'')) (PStr (asc ''en'')) (asc ''Hello'') (PInt 5) PNone ?s =
              (Inr (PStr d3),
               ?s\<lparr>requests := requests ?s @ [request_for ?e3 (PStr (asc ''es'')) (PStr (asc ''en''))
                                                (asc ''Hello'') (PInt 5) PNone]\<rparr>)"
    by blast
  have "html_unescape (html5 ?e3) ?cap3 = Inr [0xFFFD]" by (rule html_unescape_nines) simp_all
  with d3 have "d3 = [0xFFFD]" by simp
  with m3 have 3: "make_request ?e3 (PStr (asc ''es'')) (PStr (asc ''en'')) (asc ''Hello'') (PInt 5) PNone ?s =
   (Inr (PStr [0xFFFD]),
    ?s\<lparr>requests := [\<lparr>req_url = asc ''https://translate.google.com/m?tl=es&sl=en&q=Hello'',
                      req_timeout = PInt 5, req_proxies = PNone\<rparr>]\<rparr>)"
    by (simp only: url fresh_state_simps append_Nil)
  from 1 2 3 show ?thesis by (simp only: simp_thms)
qed

section \<open>A body without a match\<close>

text \<open>
  C6, as stated, fails: the body is not always written. When \<^verbatim>\<open>error.txt\<close> in the working
  directory is a directory, \<^verbatim>\<open>open('error.txt', 'w')\<close> raises \<^verbatim>\<open>IsADirectoryError\<close>, an
  \<^verbatim>\<open>OSError\<close> that \<^verbatim>\<open>make_request\<close> does not catch: the error line has been printed,
  nothing is written, and what leaves the method is that exception, not the
  \<open>SystemExit\<close> of \<^verbatim>\<open>exit(1)\<close>.
\<close>

theorem unwritable_error_file_counterexample:
  "fst (make_request (stub_env unterminated_body) (PStr (asc ''es'')) (PStr (asc ''en''))
          (asc ''Hello'') (PInt 5) PNone
          (state_with_directory (EasyGoogleTranslate_init None None None None) (asc ''error.txt'')))
     = Inl OSError
   \<and> files (snd (make_request (stub_env unterminated_body) (PStr (asc ''es'')) (PStr (asc ''en''))
          (asc ''Hello'') (PInt 5) PNone
          (state_with_directory (EasyGoogleTranslate_init None None None None) (asc ''error.txt''))))
        (asc ''error.txt'') = NotRegular
   \<and> findall unterminated_body = []"
proof -
  let ?e = "stub_env unterminated_body"
  let ?s = "state_with_directory (EasyGoogleTranslate_init None None None None) (asc ''error.txt'')"
  let ?r = "\<lparr>status_code = 200, reason = asc ''OK'',
             resp_url = req_url (request_for ?e (PStr (asc ''es'')) (PStr (asc ''en'')) (asc ''Hello'') (PInt 5) PNone),
             resp_text = unterminated_body\<rparr>"
  have h2: "requests_get ?e (length (requests ?s))
              (request_for ?e (PStr (asc ''es'')) (PStr (asc ''en'')) (asc ''Hello'') (PInt 5) PNone) = Response ?r"
    by (simp add: stub_env_def)
  have h3: "\<not> (400 \<le> status_code ?r \<and> status_code ?r < 600)" by simp
  have h4: "utf8_encode (resp_text ?r) = Inr unterminated_body"
    by (simp, rule utf8_ascii) (simp add: unterminated_body_def asc_def)
  have fa: "findall unterminated_body = []"
    using unterminated_no_match by (rule findall_no_match)
  then have h5: "findall (resp_text ?r) = []" by simp
  have w: "\<not> writable ?s (asc ''error.txt'')"
    by (simp add: writable_def state_with_directory_def)
  have f: "files ?s (asc ''error.txt'') = NotRegular" by (simp add: state_with_directory_def)
  from make_request_no_match [OF utf8_hello h2 h3 h4 h5] w f fa show ?thesis by simp
qed

text \<open>
  C6, amended. A successful response whose body is Unicode text and has no match of the
  pattern: no marker anywhere is followed by a \<^verbatim>\<open><\<close>, which is exactly when \<^verbatim>\<open>re.findall\<close>
  gives the empty list. Then \<^verbatim>\<open>make_request\<close> prints \<^verbatim>\<open>Error: Unknown error.\<close> and, when
  \<^verbatim>\<open>error.txt\<close> can be opened for writing (it is no directory and writing it is not
  denied), writes the body as it is to \<^verbatim>\<open>error.txt\<close> and raises \<open>SystemExit 1\<close>; when it
  cannot, the \<^verbatim>\<open>OSError\<close> of \<^verbatim>\<open>open\<close> leaves the method and nothing is written. In both
  cases no translation is returned.
\<close>

theorem unmatched_body_is_fatal:
  assumes "utf8_encode text = Inr bs"
    and "requests_get e (length (requests s)) (request_for e tgt src bs tmo prx) = Response r"
    and "\<not> (400 \<le> status_code r \<and> status_code r < 600)"
    and "utf8_encode (resp_text r) = Inr rb"
    and "\<forall>pre m rest. resp_text r = pre @ m @ rest \<and> (m = marker_t0 \<or> m = marker_rc) \<longrightarrow> 60 \<notin> set rest"
  shows "(writable s (asc ''error.txt'') \<longrightarrow>
            make_request e tgt src text tmo prx s =
              (Inl (SystemExit 1),
               s\<lparr>requests := requests s @ [request_for e tgt src bs tmo prx],
                 stdout := stdout s @ [10 # asc ''Error: Unknown error.''],
                 files := (files s)(asc ''error.txt'' := Regular (Inr (resp_text r)))\<rparr>))
         \<and> (\<not> writable s (asc ''error.txt'') \<longrightarrow>
              make_request e tgt src text tmo prx s =
                (Inl OSError,
                 s\<lparr>requests := requests s @ [request_for e tgt src bs tmo prx],
                   stdout := stdout s @ [10 # asc ''Error: Unknown error.'']\<rparr>))
         \<and> (\<forall>x. fst (make_request e tgt src text tmo prx s) \<noteq> Inr x)
         \<and> (findall b = [] \<longleftrightarrow>
              (\<forall>pre m rest. b = pre @ m @ rest \<and> (m = marker_t0 \<or> m = marker_rc)
                 \<longrightarrow> 60 \<notin> set rest))
         \<and> (writable s p \<longleftrightarrow> files s p \<noteq> NotRegular \<and> \<not> write_denied s p)"
proof -
  have fa: "findall (resp_text r) = []" using assms(5) by (rule findall_no_match)
  note m = make_request_no_match [OF assms(1-4) fa]
  have 1: "writable s (asc ''error.txt'') \<longrightarrow>
            make_request e tgt src text tmo prx s =
              (Inl (SystemExit 1),
               s\<lparr>requests := requests s @ [request_for e tgt src bs tmo prx],
                 stdout := stdout s @ [10 # asc ''Error: Unknown error.''],
                 files := (files s)(asc ''error.txt'' := Regular (Inr (resp_text r)))\<rparr>)"
    using m by simp
  have 2: "\<not> writable s (asc ''error.txt'') \<longrightarrow>
              make_request e tgt src text tmo prx s =
                (Inl OSError,
                 s\<lparr>requests := requests s @ [request_for e tgt src bs tmo prx],
                   stdout := stdout s @ [10 # asc ''Error: Unknown error.'']\<rparr>)"
    using m by simp
  have 3: "\<forall>x. fst (make_request e tgt src text tmo prx s) \<noteq> Inr x"
    using m by (cases "writable s (asc ''error.txt'')") simp_all
  have 4: "writable s p \<longleftrightarrow> files s p \<noteq> NotRegular \<and> \<not> write_denied s p"
    by (simp add: writable_def split: fsnode.split)
  from 1 2 3 4 findall_Nil_iff [of b] show ?thesis by blast
qed

theorem unmatched_body_is_fatal_witness:
  "make_request (stub_env unterminated_body) (PStr (asc ''es'')) (PStr (asc ''en'')) (asc ''Hello'')
     (PInt 5) PNone (fresh_state (EasyGoogleTranslate_init None None None None)) =
   (Inl (SystemExit 1),
    (fresh_state (EasyGoogleTranslate_init None None None None))
      \<lparr>requests := [\<lparr>req_url = asc ''https://translate.google.com/m?tl=es&sl=en&q=Hello'',
                      req_timeout = PInt 5, req_proxies = PNone\<rparr>],
        stdout := [10 # asc ''Error: Unknown error.''],
        files := (\<lambda>p. Missing)(asc ''error.txt'' := Regular (Inr unterminated_body))\<rparr>)
   \<and> make_request (stub_env unterminated_body) (PStr (asc ''es'')) (PStr (asc ''en'')) (asc ''Hello'')
     (PInt 5) PNone (state_with_directory (EasyGoogleTranslate_init None None None None) (asc ''error.txt'')) =
   (Inl OSError,
    (state_with_directory (EasyGoogleTranslate_init None None None None) (asc ''error.txt''))
      \<lparr>requests := [\<lparr>req_url = asc ''https://translate.google.com/m?tl=es&sl=en&q=Hello'',
                      req_timeout = PInt 5, req_proxies = PNone\<rparr>],
        stdout := [10 # asc ''Error: Unknown error.'']\<rparr>)"
proof -
  let ?e = "stub_env unterminated_body"
  let ?s = "fresh_state (EasyGoogleTranslate_init None None None None)"
  let ?d = "state_with_directory (EasyGoogleTranslate_init None None None None) (asc ''error.txt'')"
  let ?r = "\<lparr>status_code = 200, reason = asc ''OK'',
             resp_url = req_url (request_for ?e (PStr (asc ''es'')) (PStr (asc ''en'')) (asc ''Hello'') (PInt 5) PNone),
             resp_text = unterminated_body\<rparr>"
  have h2: "requests_get ?e (length (requests s'))
              (request_for ?e (PStr (asc ''es'')) (PStr (asc ''en'')) (asc ''Hello'') (PInt 5) PNone) = Response ?r"
    for s' :: pystate by (simp add: stub_env_def)
  have h3: "\<not> (400 \<le> status_code ?r \<and> status_code ?r < 600)" by simp
  have h4: "utf8_encode (resp_text ?r) = Inr unterminated_body"
    by (simp, rule utf8_ascii) (simp add: unterminated_body_def asc_def)
  have h5: "\<forall>pre m rest. resp_text ?r = pre @ m @ rest \<and> (m = marker_t0 \<or> m = marker_rc)
              \<longrightarrow> 60 \<notin> set rest"
    using unterminated_no_match by simp
  have url: "request_for ?e (PStr (asc ''es'')) (PStr (asc ''en'')) (asc ''Hello'') (PInt 5) PNone =
      \<lparr>req_url = asc ''https://translate.google.com/m?tl=es&sl=en&q=Hello'',
                      req_timeout = PInt 5, req_proxies = PNone\<rparr>"
    by (simp add: request_for_hello) (simp add: asc_def)
  have f: "files ?s = (\<lambda>p. Missing)" by (simp add: fresh_state_def)
  have w: "writable ?s (asc ''error.txt'')" by (simp add: writable_def)
  have nw: "\<not> writable ?d (asc ''error.txt'')"
    by (simp add: writable_def state_with_directory_def)
  have d: "requests ?d = []" "stdout ?d = []" by (simp_all add: state_with_directory_def)
  have 1: "make_request ?e (PStr (asc ''es'')) (PStr (asc ''en'')) (asc ''Hello'') (PInt 5) PNone ?s =
   (Inl (SystemExit 1),
    ?s\<lparr>requests := [\<lparr>req_url = asc ''https://translate.google.com/m?tl=es&sl=en&q=Hello'',
                      req_timeout = PInt 5, req_proxies = PNone\<rparr>],
        stdout := [10 # asc ''Error: Unknown error.''],
        files := (\<lambda>p. Missing)(asc ''error.txt'' := Regular (Inr unterminated_body))\<rparr>)"
    using unmatched_body_is_fatal [OF utf8_hello h2 h3 h4 h5, THEN conjunct1, THEN mp, OF w]
    by (simp only: url f fresh_state_simps append_Nil response.simps)
  have 2: "make_request ?e (PStr (asc ''es'')) (PStr (asc ''en'')) (asc ''Hello'') (PInt 5) PNone ?d =
   (Inl OSError,
    ?d\<lparr>requests := [\<lparr>req_url = asc ''https://translate.google.com/m?tl=es&sl=en&q=Hello'',
                      req_timeout = PInt 5, req_proxies = PNone\<rparr>],
        stdout := [10 # asc ''Error: Unknown error.'']\<rparr>)"
    using unmatched_body_is_fatal [OF utf8_hello h2 h3 h4 h5, THEN conjunct2, THEN conjunct1, THEN mp, OF nw]
    by (simp only: url d append_Nil)
  from 1 2 show ?thesis by (simp only: simp_thms)
qed

section \<open>Failed requests\<close>

text \<open>
  C7. A request fails when \<^verbatim>\<open>requests.get\<close> raises a \<^verbatim>\<open>RequestException\<close> (a transport
  failure) or the status is one \<^verbatim>\<open>raise_for_status\<close> rejects, 400 to 599. Then
  \<^verbatim>\<open>make_request\<close> has sent the request once, prints the error and raises \<open>SystemExit 1\<close>.
  A call of \<^verbatim>\<open>translate\<close> with a single target ends the same way; with a list of
  targets in which the request of some target fails, the call raises an exception
  instead of returning and has sent exactly one request per target, none twice.
\<close>

theorem request_failure_is_fatal:
  assumes "utf8_encode text = Inr bs"
    and "length text \<le> 5000"
    and "tgt' = py_or tgt (target_language (self s))"
    and "src' = py_or src (source_language (self s))"
    and "tmo' = py_or tmo (timeout (self s))"
    and "prx' = py_or prx (proxies (self s))"
  shows
    "(failure (requests_get e (length (requests s)) (request_for e t sr bs tm px)) = Some msg \<longrightarrow>
        make_request e t sr text tm px s =
          (Inl (SystemExit 1),
           s\<lparr>requests := requests s @ [request_for e t sr bs tm px],
             stdout := stdout s @ [10 # asc ''Error: '' @ msg]\<rparr>))
     \<and> (\<not> isinstance_list tgt'
          \<and> failure (requests_get e (length (requests s)) (request_for e tgt' src' bs tmo' prx')) = Some msg \<longrightarrow>
        translate e text tgt src tmo prx s =
          (Inl (SystemExit 1),
           s\<lparr>requests := requests s @ [request_for e tgt' src' bs tmo' prx'],
             stdout := stdout s @ [10 # asc ''Error: '' @ msg]\<rparr>))
     \<and> (tgt' = PList targets \<and> i < length targets
          \<and> failure (requests_get e (length (requests s) + i)
                       (request_for e (targets ! i) src' bs tmo' prx')) = Some msg \<longrightarrow>
        (\<exists>err. fst (translate e text tgt src tmo prx s) = Inl err)
        \<and> requests (snd (translate e text tgt src tmo prx s)) =
            requests s @ map (\<lambda>t. request_for e t src' bs tmo' prx') targets)
     \<and> ((\<exists>m. failure res = Some m) \<longleftrightarrow>
          (case res of RequestException m \<Rightarrow> True | OtherException x \<Rightarrow> False
           | Response r \<Rightarrow> 400 \<le> status_code r \<and> status_code r < 600))"
proof (intro conjI impI)
  assume "failure (requests_get e (length (requests s)) (request_for e t sr bs tm px)) = Some msg"
  with assms(1) show "make_request e t sr text tm px s =
          (Inl (SystemExit 1),
           s\<lparr>requests := requests s @ [request_for e t sr bs tm px],
             stdout := stdout s @ [10 # asc ''Error: '' @ msg]\<rparr>)"
    by (rule make_request_failure)
next
  assume a: "\<not> isinstance_list tgt'
          \<and> failure (requests_get e (length (requests s)) (request_for e tgt' src' bs tmo' prx')) = Some msg"
  then have "make_request e tgt' src' text tmo' prx' s =
          (Inl (SystemExit 1),
           s\<lparr>requests := requests s @ [request_for e tgt' src' bs tmo' prx'],
             stdout := stdout s @ [10 # asc ''Error: '' @ msg]\<rparr>)"
    using assms(1) by (intro make_request_failure) simp_all
  with a assms(2-6) show "translate e text tgt src tmo prx s =
          (Inl (SystemExit 1),
           s\<lparr>requests := requests s @ [request_for e tgt' src' bs tmo' prx'],
             stdout := stdout s @ [10 # asc ''Error: '' @ msg]\<rparr>)"
    by (simp add: translate_short dispatch_single)
next
  assume a: "tgt' = PList targets \<and> i < length targets
          \<and> failure (requests_get e (length (requests s) + i)
                       (request_for e (targets ! i) src' bs tmo' prx')) = Some msg"
  then have "i < length targets"
    and "failure (requests_get e (length (requests s) + i)
                       (request_for e (targets ! i) src' bs tmo' prx')) = Some msg"
    by simp_all
  with assms(1) have "\<exists>err. fst (dispatch e text (PList targets) src' tmo' prx' s) = Inl err"
    by (rule fan_out_failure)
  with a assms(2-6) show "\<exists>err. fst (translate e text tgt src tmo prx s) = Inl err"
    by (simp add: translate_short)
  from a assms show "requests (snd (translate e text tgt src tmo prx s)) =
            requests s @ map (\<lambda>t. request_for e t src' bs tmo' prx') targets"
    by (simp add: translate_requests sent_def)
next
  show "(\<exists>m. failure res = Some m) \<longleftrightarrow>
          (case res of RequestException m \<Rightarrow> True | OtherException x \<Rightarrow> False
           | Response r \<Rightarrow> 400 \<le> status_code r \<and> status_code r < 600)"
    by (rule failure_iff)
qed

theorem request_failure_is_fatal_witness:
  "make_request refusing_env (PStr (asc ''es'')) (PStr (asc ''en'')) (asc ''Hello'') (PInt 5) PNone
     (fresh_state (EasyGoogleTranslate_init None None None None)) =
   (Inl (SystemExit 1),
    (fresh_state (EasyGoogleTranslate_init None None None None))
      \<lparr>requests := [\<lparr>req_url = asc ''https://translate.google.com/m?tl=es&sl=en&q=Hello'',
                      req_timeout = PInt 5, req_proxies = PNone\<rparr>],
        stdout := [10 # asc ''Error: Connection refused'']\<rparr>)
   \<and> translate (status_env 503 (asc ''Service Unavailable'')) (asc ''Hello'') PNone PNone PNone PNone
       (fresh_state (EasyGoogleTranslate_init None None None None)) =
     (Inl (SystemExit 1),
      (fresh_state (EasyGoogleTranslate_init None None None None))
        \<lparr>requests := [\<lparr>req_url = asc ''https://translate.google.com/m?tl=tr&sl=auto&q=Hello'',
                        req_timeout = PInt 5, req_proxies = PNone\<rparr>],
          stdout := [10 # asc ''Error: 503 Server Error: Service Unavailable for url: https://translate.google.com/m?tl=tr&sl=auto&q=Hello'']\<rparr>)
   \<and> (\<exists>err. fst (translate refusing_env (asc ''Hello'') (PList [PStr (asc ''tr''), PStr (asc ''fr'')])
                    PNone PNone PNone
                    (fresh_state (EasyGoogleTranslate_init None None None None))) = Inl err)
   \<and> requests (snd (translate refusing_env (asc ''Hello'') (PList [PStr (asc ''tr''), PStr (asc ''fr'')])
                    PNone PNone PNone
                    (fresh_state (EasyGoogleTranslate_init None None None None)))) =
       [\<lparr>req_url = asc ''https://translate.google.com/m?tl=tr&sl=auto&q=Hello'',
          req_timeout = PInt 5, req_proxies = PNone\<rparr>,
        \<lparr>req_url = asc ''https://translate.google.com/m?tl=fr&sl=auto&q=Hello'',
          req_timeout = PInt 5, req_proxies = PNone\<rparr>]"
proof -
  let ?s = "fresh_state (EasyGoogleTranslate_init None None None None)"
  let ?tr = "PStr (asc ''tr'')" and ?fr = "PStr (asc ''fr'')" and ?auto = "PStr (asc ''auto'')"
  let ?se = "status_env 503 (asc ''Service Unavailable'')"
  have h1: "utf8_encode (asc ''Hello'') = Inr (asc ''Hello'')"
    by (rule utf8_ascii) (simp add: asc_def)
  have h2: "length (asc ''Hello'') \<le> 5000" by (simp add: asc_def)
  have r1: "?tr = py_or PNone (target_language (self ?s))" by (simp add: py_or_def)
  have r1': "PList [?tr, ?fr] = py_or (PList [?tr, ?fr]) (target_language (self ?s))"
    by (simp add: py_or_def)
  have r2: "?auto = py_or PNone (source_language (self ?s))" by (simp add: py_or_def)
  have r3: "PInt 5 = py_or PNone (timeout (self ?s))" by (simp add: py_or_def)
  have r4: "PNone = py_or PNone (proxies (self ?s))" by (simp add: py_or_def)
  have q: "quote (asc ''Hello'') = asc ''Hello''"
    by (simp add: quote_def quoter_def ALWAYS_SAFE_def asc_def)
  have url: "request_for e (PStr (asc ''es'')) (PStr (asc ''en'')) (asc ''Hello'') (PInt 5) PNone =
      \<lparr>req_url = asc ''https://translate.google.com/m?tl=es&sl=en&q=Hello'',
                      req_timeout = PInt 5, req_proxies = PNone\<rparr>" for e
    by (simp add: request_for_def format_value_def q) (simp add: asc_def)
  have url_tr: "request_for e ?tr ?auto (asc ''Hello'') (PInt 5) PNone =
      \<lparr>req_url = asc ''https://translate.google.com/m?tl=tr&sl=auto&q=Hello'',
                      req_timeout = PInt 5, req_proxies = PNone\<rparr>" for e
    by (simp add: request_for_def format_value_def q) (simp add: asc_def)
  have url_fr: "request_for e ?fr ?auto (asc ''Hello'') (PInt 5) PNone =
      \<lparr>req_url = asc ''https://translate.google.com/m?tl=fr&sl=auto&q=Hello'',
                      req_timeout = PInt 5, req_proxies = PNone\<rparr>" for e
    by (simp add: request_for_def format_value_def q) (simp add: asc_def)
  have f1: "failure (requests_get refusing_env (length (requests ?s))
              (request_for refusing_env (PStr (asc ''es'')) (PStr (asc ''en'')) (asc ''Hello'') (PInt 5) PNone))
            = Some (asc ''Connection refused'')"
    by (simp add: refusing_env_def failure_def)
  have f2: "\<not> isinstance_list ?tr \<and>
      failure (requests_get ?se (length (requests ?s))
              (request_for ?se ?tr ?auto (asc ''Hello'') (PInt 5) PNone))
            = Some (asc ''503 Server Error: Service Unavailable for url: https://translate.google.com/m?tl=tr&sl=auto&q=Hello'')"
    by (simp add: url_tr) (simp add: status_env_def failure_def raise_for_status_def decimal.simps asc_def)
  have f3: "PList [?tr, ?fr] = PList [?tr, ?fr] \<and> 1 < length [?tr, ?fr] \<and>
      failure (requests_get refusing_env (length (requests ?s) + 1)
              (request_for refusing_env ([?tr, ?fr] ! 1) ?auto (asc ''Hello'') (PInt 5) PNone))
            = Some (asc ''Connection refused'')"
    by (simp add: refusing_env_def failure_def)
  note a = request_failure_is_fatal [OF h1 h2 r1 r2 r3 r4, where e = refusing_env
      and t = "PStr (asc ''es'')" and sr = "PStr (asc ''en'')" and tm = "PInt 5" and px = PNone
      and msg = "asc ''Connection refused''"]
  note b = request_failure_is_fatal [OF h1 h2 r1 r2 r3 r4, where e = ?se
      and msg = "asc ''503 Server Error: Service Unavailable for url: https://translate.google.com/m?tl=tr&sl=auto&q=Hello''"]
  note c = request_failure_is_fatal [OF h1 h2 r1' r2 r3 r4, where e = refusing_env
      and targets = "[?tr, ?fr]" and i = 1 and msg = "asc ''Connection refused''"]
  have 1: "make_request refusing_env (PStr (asc ''es'')) (PStr (asc ''en'')) (asc ''Hello'') (PInt 5) PNone ?s =
     (Inl (SystemExit 1),
      ?s\<lparr>requests := [\<lparr>req_url = asc ''https://translate.google.com/m?tl=es&sl=en&q=Hello'',
                      req_timeout = PInt 5, req_proxies = PNone\<rparr>],
        stdout := [10 # asc ''Error: Connection refused'']\<rparr>)"
    using a [THEN conjunct1, rule_format, OF f1]
    by (simp only: url fresh_state_simps append_Nil) (simp add: asc_def)
  have 2: "translate ?se (asc ''Hello'') PNone PNone PNone PNone ?s =
     (Inl (SystemExit 1),
      ?s\<lparr>requests := [\<lparr>req_url = asc ''https://translate.google.com/m?tl=tr&sl=auto&q=Hello'',
                        req_timeout = PInt 5, req_proxies = PNone\<rparr>],
          stdout := [10 # asc ''Error: 503 Server Error: Service Unavailable for url: https://translate.google.com/m?tl=tr&sl=auto&q=Hello'']\<rparr>)"
    using b [THEN conjunct2, THEN conjunct1, rule_format, OF f2]
    by (simp only: url_tr fresh_state_simps append_Nil) (simp add: asc_def)
  have 3: "(\<exists>err. fst (translate refusing_env (asc ''Hello'') (PList [?tr, ?fr]) PNone PNone PNone ?s) = Inl err)
     \<and> requests (snd (translate refusing_env (asc ''Hello'') (PList [?tr, ?fr]) PNone PNone PNone ?s)) =
       [\<lparr>req_url = asc ''https://translate.google.com/m?tl=tr&sl=auto&q=Hello'',
          req_timeout = PInt 5, req_proxies = PNone\<rparr>,
        \<lparr>req_url = asc ''https://translate.google.com/m?tl=fr&sl=auto&q=Hello'',
          req_timeout = PInt 5, req_proxies = PNone\<rparr>]"
    using c [THEN conjunct2, THEN conjunct2, THEN conjunct1, rule_format, OF f3]
    by (simp only: url_tr url_fr fresh_state_simps append_Nil list.map)
  from 1 2 3 show ?thesis by simp
qed

section \<open>translate_file\<close>

text \<open>
  C8. A path that is not an existing regular file makes \<^verbatim>\<open>translate_file\<close> print its
  error and raise \<open>SystemExit 1\<close>; the printed line is the only change of the state, so
  no file is opened and no request is made. For a regular file whose read gives a text,
  \<^verbatim>\<open>translate_file\<close> has the result of \<^verbatim>\<open>translate\<close> on that text with the same remaining
  arguments, and the same state after it but for the path it opened. A read that raises
  leaves the method with that exception.
\<close>

theorem translate_file_delegates:
  "(\<not> isfile s file_path \<longrightarrow>
      translate_file e file_path tgt src tmo prx s =
        (Inl (SystemExit 1),
         s\<lparr>stdout := stdout s @ [10 # asc ''Error: The file or path is incorrect.'']\<rparr>))
   \<and> (files s file_path = Regular (Inr text) \<longrightarrow>
      fst (translate_file e file_path tgt src tmo prx s) = fst (translate e text tgt src tmo prx s)
      \<and> snd (translate_file e file_path tgt src tmo prx s) =
          (snd (translate e text tgt src tmo prx s))\<lparr>opened := opened s @ [file_path]\<rparr>)
   \<and> (files s file_path = Regular (Inl err) \<longrightarrow>
      translate_file e file_path tgt src tmo prx s = (Inl err, s\<lparr>opened := opened s @ [file_path]\<rparr>))
   \<and> (isfile s file_path \<longleftrightarrow> (\<exists>c. files s file_path = Regular c))"
proof (intro conjI impI)
  assume "\<not> isfile s file_path"
  then show "translate_file e file_path tgt src tmo prx s =
        (Inl (SystemExit 1),
         s\<lparr>stdout := stdout s @ [10 # asc ''Error: The file or path is incorrect.'']\<rparr>)"
    by (simp add: translate_file_def py_print_def)
next
  assume f: "files s file_path = Regular (Inr text)"
  then have "translate_file e file_path tgt src tmo prx s =
             translate e text tgt src tmo prx (s\<lparr>opened := opened s @ [file_path]\<rparr>)"
    by (simp add: translate_file_def isfile_def Let_def)
  then have eq: "translate_file e file_path tgt src tmo prx s =
       (fst (translate e text tgt src tmo prx s),
        (snd (translate e text tgt src tmo prx s))\<lparr>opened := opened s @ [file_path]\<rparr>)"
    by (simp add: translate_opened_update)
  from eq show "fst (translate_file e file_path tgt src tmo prx s) = fst (translate e text tgt src tmo prx s)"
    by simp
  from eq show "snd (translate_file e file_path tgt src tmo prx s) =
          (snd (translate e text tgt src tmo prx s))\<lparr>opened := opened s @ [file_path]\<rparr>"
    by simp
next
  assume "files s file_path = Regular (Inl err)"
  then show "translate_file e file_path tgt src tmo prx s = (Inl err, s\<lparr>opened := opened s @ [file_path]\<rparr>)"
    by (simp add: translate_file_def isfile_def Let_def)
next
  show "isfile s file_path \<longleftrightarrow> (\<exists>c. files s file_path = Regular c)"
    by (cases "files s file_path") (simp_all add: isfile_def)
qed

theorem translate_file_delegates_witness:
  "translate_file (stub_env two_marker_body) (asc ''nowhere.txt'') PNone PNone PNone PNone
     (state_with_file (EasyGoogleTranslate_init None None None None) (asc ''text.txt'') (asc ''Hello'')) =
   (Inl (SystemExit 1),
    (state_with_file (EasyGoogleTranslate_init None None None None) (asc ''text.txt'') (asc ''Hello''))
      \<lparr>stdout := [10 # asc ''Error: The file or path is incorrect.'']\<rparr>)
   \<and> fst (translate_file (stub_env two_marker_body) (asc ''text.txt'') PNone PNone PNone PNone
       (state_with_file (EasyGoogleTranslate_init None None None None) (asc ''text.txt'') (asc ''Hello''))) =
     fst (translate (stub_env two_marker_body) (asc ''Hello'') PNone PNone PNone PNone
       (state_with_file (EasyGoogleTranslate_init None None None None) (asc ''text.txt'') (asc ''Hello'')))
   \<and> snd (translate_file (stub_env two_marker_body) (asc ''text.txt'') PNone PNone PNone PNone
       (state_with_file (EasyGoogleTranslate_init None None None None) (asc ''text.txt'') (asc ''Hello''))) =
     (snd (translate (stub_env two_marker_body) (asc ''Hello'') PNone PNone PNone PNone
       (state_with_file (EasyGoogleTranslate_init None None None None) (asc ''text.txt'') (asc ''Hello''))))
       \<lparr>opened := [asc ''text.txt'']\<rparr>"
proof -
  let ?s = "state_with_file (EasyGoogleTranslate_init None None None None) (asc ''text.txt'') (asc ''Hello'')"
  have ne: "asc ''nowhere.txt'' \<noteq> asc ''text.txt''" by (simp add: asc_def)
  have h1: "\<not> isfile ?s (asc ''nowhere.txt'')"
    using ne by (simp add: isfile_def state_with_file_def)
  have h2: "files ?s (asc ''text.txt'') = Regular (Inr (asc ''Hello''))"
    by (simp add: state_with_file_def)
  have o: "opened ?s = []" and p: "stdout ?s = []" by (simp_all add: state_with_file_def)
  note a = translate_file_delegates [of ?s "asc ''nowhere.txt''" "stub_env two_marker_body" PNone PNone PNone PNone]
  note b = translate_file_delegates [of ?s "asc ''text.txt''" "stub_env two_marker_body" PNone PNone PNone PNone
      "asc ''Hello''"]
  from a [THEN conjunct1, rule_format, OF h1] b [THEN conjunct2, THEN conjunct1, rule_format, OF h2]
  show ?thesis by (simp only: o p append_Nil)
qed

section \<open>Resolving the parameters\<close>

text \<open>
  C5, as stated, fails: an argument that is given but false in Python's sense is not
  used. A call that passes \<^verbatim>\<open>proxies={}\<close> to an instance with a proxy sends its request
  through the instance's proxy, and a call that passes \<^verbatim>\<open>timeout=0\<close> to an instance with
  timeout 7 sends its request with timeout 7.
\<close>

theorem explicit_argument_not_used_counterexample:
  "map req_proxies (requests (snd (translate (stub_env hola_body) (asc ''Hello'')
       PNone PNone PNone (PDict [])
       (fresh_state (EasyGoogleTranslate_init None None None
          (Some (PDict [(PStr (asc ''http''), PStr (asc ''http://proxy:8080''))]))))))) =
     [PDict [(PStr (asc ''http''), PStr (asc ''http://proxy:8080''))]]
   \<and> map req_timeout (requests (snd (translate (stub_env hola_body) (asc ''Hello'')
       PNone PNone (PInt 0) PNone
       (fresh_state (EasyGoogleTranslate_init None None (Some (PInt 7)) None))))) = [PInt 7]"
proof -
  have l: "\<not> 5000 < length (asc ''Hello'')" by (simp add: asc_def)
  show ?thesis
    by (simp add: translate_requests sent_def utf8_hello l py_or_def request_for_def)
qed

text \<open>
  C5, amended. Each of \<^verbatim>\<open>target_language\<close>, \<^verbatim>\<open>source_language\<close>, \<^verbatim>\<open>timeout\<close> and
  \<^verbatim>\<open>proxies\<close> is the per-call argument when that argument is true in Python's sense (not
  \<^verbatim>\<open>None\<close>, not empty, not zero), and the attribute of the instance otherwise; the
  attribute is what the constructor was given, or \<^verbatim>\<open>'auto'\<close>, \<^verbatim>\<open>'tr'\<close>, 5 and \<^verbatim>\<open>None\<close>.
  The call is what lines 131 to 139 do with the resolved values, the requests it sends
  carry them, and the attributes of the instance are the same after the call.
\<close>

theorem translate_parameter_resolution:
  "translate e text tgt src tmo prx s =
     (if 5000 < length text then
        (Inl (SystemExit 1),
         s\<lparr>stdout := stdout s @
             [10 # asc ''Error: It can only detect 5000 characters at once. (''
              @ decimal (length text) @ asc '' characters found.)'']\<rparr>)
      else dispatch e text
             (if truthy tgt then tgt else target_language (self s))
             (if truthy src then src else source_language (self s))
             (if truthy tmo then tmo else timeout (self s))
             (if truthy prx then prx else proxies (self s)) s)
   \<and> requests (snd (translate e text tgt src tmo prx s)) =
       requests s @ sent e text
             (if truthy tgt then tgt else target_language (self s))
             (if truthy src then src else source_language (self s))
             (if truthy tmo then tmo else timeout (self s))
             (if truthy prx then prx else proxies (self s))
   \<and> self (snd (translate e text tgt src tmo prx s)) = self s
   \<and> EasyGoogleTranslate_init None None None None =
       \<lparr>source_language = PStr (asc ''auto''), target_language = PStr (asc ''tr''),
        timeout = PInt 5, proxies = PNone\<rparr>
   \<and> EasyGoogleTranslate_init (Some a) (Some b) (Some c) (Some d) =
       \<lparr>source_language = a, target_language = b, timeout = c, proxies = d\<rparr>"
proof (intro conjI)
  show "translate e text tgt src tmo prx s =
     (if 5000 < length text then
        (Inl (SystemExit 1),
         s\<lparr>stdout := stdout s @
             [10 # asc ''Error: It can only detect 5000 characters at once. (''
              @ decimal (length text) @ asc '' characters found.)'']\<rparr>)
      else dispatch e text
             (if truthy tgt then tgt else target_language (self s))
             (if truthy src then src else source_language (self s))
             (if truthy tmo then tmo else timeout (self s))
             (if truthy prx then prx else proxies (self s)) s)"
    using translate_long [of "text" e tgt src tmo prx s] translate_short [of "text" e tgt src tmo prx s]
    by (simp add: py_or_def)
  show "requests (snd (translate e text tgt src tmo prx s)) =
       requests s @ sent e text
             (if truthy tgt then tgt else target_language (self s))
             (if truthy src then src else source_language (self s))
             (if truthy tmo then tmo else timeout (self s))
             (if truthy prx then prx else proxies (self s))"
    using translate_requests [of e "text" tgt src tmo prx s] by (simp add: py_or_def)
  show "self (snd (translate e text tgt src tmo prx s)) = self s"
    by (rule translate_self)
qed (simp_all add: EasyGoogleTranslate_init_def)

theorem translate_parameter_resolution_witness:
  "requests (snd (translate (stub_env hola_body) (asc ''Hello'') (PStr (asc ''es'')) PNone (PInt 10) PNone
      (fresh_state (EasyGoogleTranslate_init None None None
          (Some (PDict [(PStr (asc ''http''), PStr (asc ''http://proxy:8080''))])))))) =
     [\<lparr>req_url = asc ''https://translate.google.com/m?tl=es&sl=auto&q=Hello'',
       req_timeout = PInt 10,
       req_proxies = PDict [(PStr (asc ''http''), PStr (asc ''http://proxy:8080''))]\<rparr>]
   \<and> self (snd (translate (stub_env hola_body) (asc ''Hello'') (PStr (asc ''es'')) PNone (PInt 10) PNone
      (fresh_state (EasyGoogleTranslate_init None None None
          (Some (PDict [(PStr (asc ''http''), PStr (asc ''http://proxy:8080''))])))))) =
     EasyGoogleTranslate_init None None None
          (Some (PDict [(PStr (asc ''http''), PStr (asc ''http://proxy:8080''))]))"
proof -
  let ?px = "PDict [(PStr (asc ''http''), PStr (asc ''http://proxy:8080''))]"
  let ?s = "fresh_state (EasyGoogleTranslate_init None None None (Some ?px))"
  note a = translate_parameter_resolution [of "stub_env hola_body" "asc ''Hello''" "PStr (asc ''es'')"
      PNone "PInt 10" PNone ?s]
  have l: "\<not> 5000 < length (asc ''Hello'')" and ne: "asc ''es'' \<noteq> []" by (simp_all add: asc_def)
  have "requests (snd (translate (stub_env hola_body) (asc ''Hello'') (PStr (asc ''es'')) PNone (PInt 10) PNone ?s)) =
     [\<lparr>req_url = asc ''https://translate.google.com/m?tl=es&sl=auto&q=Hello'',
       req_timeout = PInt 10, req_proxies = ?px\<rparr>]"
    using a [THEN conjunct2, THEN conjunct1]
    by (simp add: sent_def utf8_hello l ne request_for_hello) (simp add: asc_def)
  moreover have "self (snd (translate (stub_env hola_body) (asc ''Hello'') (PStr (asc ''es'')) PNone (PInt 10) PNone ?s)) =
     EasyGoogleTranslate_init None None None (Some ?px)"
    using a [THEN conjunct2, THEN conjunct2, THEN conjunct1] by simp
  ultimately show ?thesis by simp
qed

section \<open>False arguments\<close>

text \<open>
  C9, as stated, fails: with an instance whose default target is the list
  \<^verbatim>\<open>['es', 'fr']\<close>, \<^verbatim>\<open>translate(text, target_language=[])\<close> fans out over that list: it
  sends two requests and returns a list of two translations.
\<close>

theorem empty_list_fans_out_counterexample:
  "fst (translate (stub_env hola_body) (asc ''Hello'') (PList []) PNone PNone PNone
     (fresh_state (EasyGoogleTranslate_init None
        (Some (PList [PStr (asc ''es''), PStr (asc ''fr'')])) None None))) =
     Inr (PList [PStr (asc ''Hola''), PStr (asc ''Hola'')])
   \<and> requests (snd (translate (stub_env hola_body) (asc ''Hello'') (PList []) PNone PNone PNone
     (fresh_state (EasyGoogleTranslate_init None
        (Some (PList [PStr (asc ''es''), PStr (asc ''fr'')])) None None)))) =
     [\<lparr>req_url = asc ''https://translate.google.com/m?tl=es&sl=auto&q=Hello'',
        req_timeout = PInt 5, req_proxies = PNone\<rparr>,
      \<lparr>req_url = asc ''https://translate.google.com/m?tl=fr&sl=auto&q=Hello'',
        req_timeout = PInt 5, req_proxies = PNone\<rparr>]"
proof -
  have l: "length (asc ''Hello'') \<le> 5000" by (simp add: asc_def)
  have "fst (translate (stub_env hola_body) (asc ''Hello'') (PList []) PNone PNone PNone
     (fresh_state (EasyGoogleTranslate_init None
        (Some (PList [PStr (asc ''es''), PStr (asc ''fr'')])) None None))) =
     Inr (PList [PStr (asc ''Hola''), PStr (asc ''Hola'')])"
    by (simp add: translate_short l py_or_def dispatch_def stub_hola stub_order)
  moreover have "requests (snd (translate (stub_env hola_body) (asc ''Hello'') (PList []) PNone PNone PNone
     (fresh_state (EasyGoogleTranslate_init None
        (Some (PList [PStr (asc ''es''), PStr (asc ''fr'')])) None None)))) =
     [\<lparr>req_url = asc ''https://translate.google.com/m?tl=es&sl=auto&q=Hello'',
        req_timeout = PInt 5, req_proxies = PNone\<rparr>,
      \<lparr>req_url = asc ''https://translate.google.com/m?tl=fr&sl=auto&q=Hello'',
        req_timeout = PInt 5, req_proxies = PNone\<rparr>]"
    by (simp add: translate_requests sent_def utf8_hello l py_or_def request_for_hello)
       (simp add: asc_def)
  ultimately show ?thesis by simp
qed

text \<open>
  C9, amended. A per-call argument that is false in Python's sense (an empty list, an
  empty string, 0, an empty mapping) is replaced by the attribute of the instance: the
  call is the call with that attribute passed. In particular, when the instance's
  default target is not a list, \<^verbatim>\<open>translate(text, target_language=[])\<close> does not fan out
  and returns no collection: it sends at most one request, to the instance's default
  target (exactly one for a text of at most 5000 characters that has a UTF-8
  encoding), and it returns a single string or raises.
\<close>

theorem falsy_argument_uses_instance_default:
  "(\<not> truthy tgt \<longrightarrow>
      translate e text tgt src tmo prx s = translate e text (target_language (self s)) src tmo prx s)
   \<and> (\<not> truthy src \<longrightarrow>
      translate e text tgt src tmo prx s = translate e text tgt (source_language (self s)) tmo prx s)
   \<and> (\<not> truthy tmo \<longrightarrow>
      translate e text tgt src tmo prx s = translate e text tgt src (timeout (self s)) prx s)
   \<and> (\<not> truthy prx \<longrightarrow>
      translate e text tgt src tmo prx s = translate e text tgt src tmo (proxies (self s)) s)
   \<and> \<not> truthy (PList []) \<and> \<not> truthy (PStr []) \<and> \<not> truthy (PInt 0) \<and> \<not> truthy (PDict [])
   \<and> (\<not> isinstance_list (target_language (self s)) \<longrightarrow>
        requests (snd (translate e text (PList []) src tmo prx s)) =
          requests s @
            (if 5000 < length text then []
             else (case utf8_encode text of
                     Inl err \<Rightarrow> []
                   | Inr bs \<Rightarrow>
                       [request_for e (target_language (self s))
                          (py_or src (source_language (self s))) bs
                          (py_or tmo (timeout (self s))) (py_or prx (proxies (self s)))]))
        \<and> ((\<exists>err. fst (translate e text (PList []) src tmo prx s) = Inl err)
             \<or> (\<exists>x. fst (translate e text (PList []) src tmo prx s) = Inr (PStr x))))"
proof (intro conjI impI)
  assume nl: "\<not> isinstance_list (target_language (self s))"
  then show "requests (snd (translate e text (PList []) src tmo prx s)) =
          requests s @
            (if 5000 < length text then []
             else (case utf8_encode text of
                     Inl err \<Rightarrow> []
                   | Inr bs \<Rightarrow>
                       [request_for e (target_language (self s))
                          (py_or src (source_language (self s))) bs
                          (py_or tmo (timeout (self s))) (py_or prx (proxies (self s)))]))"
    by (cases "target_language (self s)")
       (simp_all add: translate_requests sent_def py_or_falsy split: sum.split)
  from nl have "\<not> isinstance_list (py_or (PList []) (target_language (self s)))"
    by (simp add: py_or_falsy)
  then show "(\<exists>err. fst (translate e text (PList []) src tmo prx s) = Inl err)
             \<or> (\<exists>x. fst (translate e text (PList []) src tmo prx s) = Inr (PStr x))"
    by (rule translate_shape_single)
qed (simp_all add: translate_def py_or_def)

theorem falsy_argument_uses_instance_default_witness:
  "translate (stub_env hola_body) (asc ''Hello'') (PList []) (PStr []) (PInt 0) (PDict [])
      (fresh_state (EasyGoogleTranslate_init None None None None)) =
   translate (stub_env hola_body) (asc ''Hello'') (PStr (asc ''tr'')) (PStr []) (PInt 0) (PDict [])
      (fresh_state (EasyGoogleTranslate_init None None None None))
   \<and> requests (snd (translate (stub_env hola_body) (asc ''Hello'') (PList []) (PStr []) (PInt 0) (PDict [])
      (fresh_state (EasyGoogleTranslate_init None None None None)))) =
     [\<lparr>req_url = asc ''https://translate.google.com/m?tl=tr&sl=auto&q=Hello'',
       req_timeout = PInt 5, req_proxies = PNone\<rparr>]"
proof -
  let ?s = "fresh_state (EasyGoogleTranslate_init None None None None)"
  note a = falsy_argument_uses_instance_default [of "PList []" "stub_env hola_body" "asc ''Hello''"
      "PStr []" "PInt 0" "PDict []" ?s]
  have f: "\<not> truthy (PList [])" by simp
  have nl: "\<not> isinstance_list (target_language (self ?s))" by simp
  have l: "\<not> 5000 < length (asc ''Hello'')" by (simp add: asc_def)
  have "translate (stub_env hola_body) (asc ''Hello'') (PList []) (PStr []) (PInt 0) (PDict []) ?s =
        translate (stub_env hola_body) (asc ''Hello'') (PStr (asc ''tr'')) (PStr []) (PInt 0) (PDict []) ?s"
    using a [THEN conjunct1, rule_format, OF f] by simp
  moreover have "requests (snd (translate (stub_env hola_body) (asc ''Hello'') (PList []) (PStr []) (PInt 0)
      (PDict []) ?s)) =
     [\<lparr>req_url = asc ''https://translate.google.com/m?tl=tr&sl=auto&q=Hello'',
       req_timeout = PInt 5, req_proxies = PNone\<rparr>]"
    using a [THEN conjunct2, THEN conjunct2, THEN conjunct2, THEN conjunct2, THEN conjunct2,
        THEN conjunct2, THEN conjunct2, THEN conjunct2, rule_format, OF nl, THEN conjunct1]
    by (simp add: l utf8_hello py_or_def request_for_hello) (simp add: asc_def)
  ultimately show ?thesis by simp
qed

section \<open>When the call fans out\<close>

text \<open>
  C10. The call fans out exactly when the resolved target is a list. For every other
  value, a tuple of codes too, \<^verbatim>\<open>translate\<close> sends at most one request (exactly one for
  a text of at most 5000 characters that has a UTF-8 encoding), whose URL holds the
  value as the f-string formats it (a string as it is, any other value through
  \<^verbatim>\<open>str()\<close>), and returns a single string or raises. For a list it sends one request
  per element and returns a list with one string per element, or raises.
\<close>

theorem fan_out_only_for_lists:
  assumes "tgt' = py_or tgt (target_language (self s))"
    and "src' = py_or src (source_language (self s))"
    and "tmo' = py_or tmo (timeout (self s))"
    and "prx' = py_or prx (proxies (self s))"
  shows
    "(\<not> isinstance_list tgt' \<longrightarrow>
        requests (snd (translate e text tgt src tmo prx s)) =
          requests s @
            (if 5000 < length text then []
             else (case utf8_encode text of
                     Inl err \<Rightarrow> []
                   | Inr bs \<Rightarrow>
                       [\<lparr>req_url = asc ''https://translate.google.com/m?tl='' @ format_value e tgt'
                                    @ asc ''&sl='' @ format_value e src' @ asc ''&q='' @ quote bs,
                         req_timeout = tmo', req_proxies = prx'\<rparr>]))
        \<and> ((\<exists>err. fst (translate e text tgt src tmo prx s) = Inl err)
             \<or> (\<exists>x. fst (translate e text tgt src tmo prx s) = Inr (PStr x))))
     \<and> (tgt' = PList targets \<longrightarrow>
        requests (snd (translate e text tgt src tmo prx s)) =
          requests s @
            (if 5000 < length text then []
             else (case utf8_encode text of
                     Inl err \<Rightarrow> []
                   | Inr bs \<Rightarrow>
                       map (\<lambda>t. \<lparr>req_url = asc ''https://translate.google.com/m?tl='' @ format_value e t
                                    @ asc ''&sl='' @ format_value e src' @ asc ''&q='' @ quote bs,
                                  req_timeout = tmo', req_proxies = prx'\<rparr>) targets))
        \<and> ((\<exists>err. fst (translate e text tgt src tmo prx s) = Inl err)
             \<or> (\<exists>vs. fst (translate e text tgt src tmo prx s) = Inr (PList vs)
                  \<and> length vs = length targets \<and> (\<forall>v\<in>set vs. \<exists>x. v = PStr x))))
     \<and> (isinstance_list v \<longleftrightarrow> (\<exists>xs. v = PList xs))
     \<and> format_value e (PStr x) = x
     \<and> format_value e (PTuple xs) = str_of e (PTuple xs)"
proof (intro conjI impI)
  assume nl: "\<not> isinstance_list tgt'"
  then show "requests (snd (translate e text tgt src tmo prx s)) =
          requests s @
            (if 5000 < length text then []
             else (case utf8_encode text of
                     Inl err \<Rightarrow> []
                   | Inr bs \<Rightarrow>
                       [\<lparr>req_url = asc ''https://translate.google.com/m?tl='' @ format_value e tgt'
                                    @ asc ''&sl='' @ format_value e src' @ asc ''&q='' @ quote bs,
                         req_timeout = tmo', req_proxies = prx'\<rparr>]))"
    using assms
    by (simp add: translate_requests sent_def request_for_def targets_single split: sum.split)
  from nl assms(1) show "(\<exists>err. fst (translate e text tgt src tmo prx s) = Inl err)
             \<or> (\<exists>x. fst (translate e text tgt src tmo prx s) = Inr (PStr x))"
    by (intro translate_shape_single) simp
next
  assume l: "tgt' = PList targets"
  then show "requests (snd (translate e text tgt src tmo prx s)) =
          requests s @
            (if 5000 < length text then []
             else (case utf8_encode text of
                     Inl err \<Rightarrow> []
                   | Inr bs \<Rightarrow>
                       map (\<lambda>t. \<lparr>req_url = asc ''https://translate.google.com/m?tl='' @ format_value e t
                                    @ asc ''&sl='' @ format_value e src' @ asc ''&q='' @ quote bs,
                                  req_timeout = tmo', req_proxies = prx'\<rparr>) targets))"
    using assms
    by (simp add: translate_requests sent_def request_for_def split: sum.split)
  from l assms(1) show "(\<exists>err. fst (translate e text tgt src tmo prx s) = Inl err)
             \<or> (\<exists>vs. fst (translate e text tgt src tmo prx s) = Inr (PList vs)
                  \<and> length vs = length targets \<and> (\<forall>v\<in>set vs. \<exists>x. v = PStr x))"
    by (intro translate_shape_list) simp
next
  show "isinstance_list v \<longleftrightarrow> (\<exists>xs. v = PList xs)" by (cases v) simp_all
qed (simp_all add: format_value_def)

theorem fan_out_only_for_lists_witness:
  "requests (snd (translate (stub_env hola_body) (asc ''Hello'')
      (PTuple [PStr (asc ''es''), PStr (asc ''fr'')]) PNone PNone PNone
      (fresh_state (EasyGoogleTranslate_init None None None None)))) =
     [\<lparr>req_url = asc (''https://translate.google.com/m?tl=('' @ [CHR 0x27] @ ''es'' @ [CHR 0x27]
                       @ '', '' @ [CHR 0x27] @ ''fr'' @ [CHR 0x27] @ '')&sl=auto&q=Hello''),
       req_timeout = PInt 5, req_proxies = PNone\<rparr>]
   \<and> fst (translate (stub_env hola_body) (asc ''Hello'')
      (PTuple [PStr (asc ''es''), PStr (asc ''fr'')]) PNone PNone PNone
      (fresh_state (EasyGoogleTranslate_init None None None None))) = Inr (PStr (asc ''Hola''))
   \<and> requests (snd (translate (stub_env hola_body) (asc ''Hello'')
      (PList [PStr (asc ''es''), PStr (asc ''fr'')]) PNone PNone PNone
      (fresh_state (EasyGoogleTranslate_init None None None None)))) =
     [\<lparr>req_url = asc ''https://translate.google.com/m?tl=es&sl=auto&q=Hello'',
        req_timeout = PInt 5, req_proxies = PNone\<rparr>,
      \<lparr>req_url = asc ''https://translate.google.com/m?tl=fr&sl=auto&q=Hello'',
        req_timeout = PInt 5, req_proxies = PNone\<rparr>]
   \<and> fst (translate (stub_env hola_body) (asc ''Hello'')
      (PList [PStr (asc ''es''), PStr (asc ''fr'')]) PNone PNone PNone
      (fresh_state (EasyGoogleTranslate_init None None None None))) =
     Inr (PList [PStr (asc ''Hola''), PStr (asc ''Hola'')])"
proof -
  let ?s = "fresh_state (EasyGoogleTranslate_init None None None None)"
  let ?tup = "PTuple [PStr (asc ''es''), PStr (asc ''fr'')]"
  let ?lst = "PList [PStr (asc ''es''), PStr (asc ''fr'')]"
  let ?e = "stub_env hola_body"
  have r1: "?tup = py_or ?tup (target_language (self ?s))" by (simp add: py_or_def)
  have r1': "?lst = py_or ?lst (target_language (self ?s))" by (simp add: py_or_def)
  have r2: "PStr (asc ''auto'') = py_or PNone (source_language (self ?s))" by (simp add: py_or_def)
  have r3: "PInt 5 = py_or PNone (timeout (self ?s))" by (simp add: py_or_def)
  have r4: "PNone = py_or PNone (proxies (self ?s))" by (simp add: py_or_def)
  have nl: "\<not> isinstance_list ?tup" by simp
  have l: "\<not> 5000 < length (asc ''Hello'')" and l': "length (asc ''Hello'') \<le> 5000"
    by (simp_all add: asc_def)
  have fv: "format_value ?e ?tup = asc (''('' @ [CHR 0x27] @ ''es'' @ [CHR 0x27]
                       @ '', '' @ [CHR 0x27] @ ''fr'' @ [CHR 0x27] @ '')'')"
    by (simp add: format_value_def stub_env_def stub_str_def asc_def)
  have fa: "format_value ?e (PStr y) = y" for y by (simp add: format_value_def)
  note a = fan_out_only_for_lists [OF r1 r2 r3 r4, where e = ?e]
  note b = fan_out_only_for_lists [OF r1' r2 r3 r4, where e = ?e and targets = "[PStr (asc ''es''), PStr (asc ''fr'')]"]
  have 1: "requests (snd (translate ?e (asc ''Hello'') ?tup PNone PNone PNone ?s)) =
     [\<lparr>req_url = asc (''https://translate.google.com/m?tl=('' @ [CHR 0x27] @ ''es'' @ [CHR 0x27]
                       @ '', '' @ [CHR 0x27] @ ''fr'' @ [CHR 0x27] @ '')&sl=auto&q=Hello''),
       req_timeout = PInt 5, req_proxies = PNone\<rparr>]"
    using a [THEN conjunct1, rule_format, OF nl, THEN conjunct1]
    by (simp add: l utf8_hello quote_hello fv fa) (simp add: asc_def)
  have 2: "fst (translate ?e (asc ''Hello'') ?tup PNone PNone PNone ?s) = Inr (PStr (asc ''Hola''))"
    by (simp add: translate_short l' py_or_def dispatch_def stub_hola)
  have 3: "requests (snd (translate ?e (asc ''Hello'') ?lst PNone PNone PNone ?s)) =
     [\<lparr>req_url = asc ''https://translate.google.com/m?tl=es&sl=auto&q=Hello'',
        req_timeout = PInt 5, req_proxies = PNone\<rparr>,
      \<lparr>req_url = asc ''https://translate.google.com/m?tl=fr&sl=auto&q=Hello'',
        req_timeout = PInt 5, req_proxies = PNone\<rparr>]"
    using b [THEN conjunct2, THEN conjunct1, rule_format, OF refl, THEN conjunct1]
    by (simp add: l utf8_hello quote_hello fa) (simp add: asc_def)
  have 4: "fst (translate ?e (asc ''Hello'') ?lst PNone PNone PNone ?s) =
     Inr (PList [PStr (asc ''Hola''), PStr (asc ''Hola'')])"
    by (simp add: translate_short l' py_or_def dispatch_def stub_hola stub_order)
  from 1 2 3 4 show ?thesis by simp
qed

section \<open>The order of the results\<close>

text \<open>
  C1, as stated, fails in its order. \<^verbatim>\<open>as_completed\<close> yields the futures that have finished
  when it is called before the others and in the order of the set it keeps them in, not
  in the order they finished. Here three targets are given, all three requests have
  finished by then, the one for \<^verbatim>\<open>'tr'\<close> first and the one for \<^verbatim>\<open>'de'\<close> last, and the set
  gives them out in the opposite order: the result holds the translation for \<^verbatim>\<open>'de'\<close>
  first and the one for \<^verbatim>\<open>'tr'\<close>, the first request to complete, last.
\<close>

theorem finished_futures_in_set_order_counterexample:
  "fst (translate (scheduled_env three_bodies (\<lambda>i. True) (\<lambda>i. 2 - i) (\<lambda>i. i)) (asc ''Hello'')
          (PList [PStr (asc ''tr''), PStr (asc ''fr''), PStr (asc ''de'')]) PNone PNone PNone
          (fresh_state (EasyGoogleTranslate_init None None None None))) =
     Inr (PList [PStr (asc ''Hallo''), PStr (asc ''Bonjour''), PStr (asc ''Merhaba'')])
   \<and> sort_key (completion_rank (scheduled_env three_bodies (\<lambda>i. True) (\<lambda>i. 2 - i) (\<lambda>i. i))) [0..<3] =
       [0, 1, 2]
   \<and> map (outcome (scheduled_env three_bodies (\<lambda>i. True) (\<lambda>i. 2 - i) (\<lambda>i. i))
            [PStr (asc ''tr''), PStr (asc ''fr''), PStr (asc ''de'')] (PStr (asc ''auto''))
            (asc ''Hello'') (PInt 5) PNone
            (fresh_state (EasyGoogleTranslate_init None None None None))) [0, 1, 2] =
       [Inr (PStr (asc ''Merhaba'')), Inr (PStr (asc ''Bonjour'')), Inr (PStr (asc ''Hallo''))]"
proof -
  let ?e = "scheduled_env three_bodies (\<lambda>i. True) (\<lambda>i. 2 - i) (\<lambda>i. i)"
  let ?s = "fresh_state (EasyGoogleTranslate_init None None None None)"
  let ?targets = "[PStr (asc ''tr''), PStr (asc ''fr''), PStr (asc ''de'')]"
  have l: "length (asc ''Hello'') \<le> 5000" by (simp add: asc_def)
  have yo: "yield_order ?e 3 = [2, 1, 0]"
    by (simp add: yield_order_def scheduled_env_def upt_3)
  have "as_completed ?e (fst (submit_all ?e ?targets (PStr (asc ''auto'')) (asc ''Hello'') (PInt 5) PNone ?s)) =
        [Inr (PStr (asc ''Hallo'')), Inr (PStr (asc ''Bonjour'')), Inr (PStr (asc ''Merhaba''))]"
    by (simp only: three_futures as_completed_3 yo) simp
  then have 1: "fst (translate ?e (asc ''Hello'') (PList ?targets) PNone PNone PNone ?s) =
     Inr (PList [PStr (asc ''Hallo''), PStr (asc ''Bonjour''), PStr (asc ''Merhaba'')])"
    by (simp add: translate_short l py_or_def dispatch_list_fst)
  have 2: "sort_key (completion_rank ?e) [0..<3] = [0, 1, 2]"
    by (simp add: scheduled_env_def upt_3)
  have 3: "map (outcome ?e ?targets (PStr (asc ''auto'')) (asc ''Hello'') (PInt 5) PNone ?s) [0, 1, 2] =
       [Inr (PStr (asc ''Merhaba'')), Inr (PStr (asc ''Bonjour'')), Inr (PStr (asc ''Hallo''))]"
  proof -
    have "outcome ?e ?targets (PStr (asc ''auto'')) (asc ''Hello'') (PInt 5) PNone ?s i =
            [Inr (PStr (asc ''Merhaba'')), Inr (PStr (asc ''Bonjour'')), Inr (PStr (asc ''Hallo''))] ! i"
      if "i < 3" for i
    proof -
      from that have "i < length ?targets" by simp
      then show ?thesis by (simp only: outcome_nth three_futures)
    qed
    then show ?thesis by simp
  qed
  from 1 2 3 show ?thesis by (simp only: simp_thms)
qed

text \<open>
  C1, amended. A call of \<^verbatim>\<open>translate\<close> whose resolved target is a list of \<open>N\<close> targets
  sends one request per target, the other parameters the same in all of them (none
  when the text is longer than 5000 characters or has no UTF-8 encoding). When the
  call returns, it returns a list of exactly \<open>N\<close> entries, one per target: the entry
  at each place is what the worker of the target at the place \<^verbatim>\<open>as_completed\<close> yields
  there returned. That order is a permutation of the targets' positions that does not
  depend on the order the targets were supplied: the futures that had finished when
  \<^verbatim>\<open>as_completed\<close> was called come first, in the order of its set, and the others follow
  in the order they complete; so when none had finished by then, the entries are in
  completion order.
\<close>

theorem fan_out_results_in_yield_order:
  assumes "py_or tgt (target_language (self s)) = PList targets"
    and "src' = py_or src (source_language (self s))"
    and "tmo' = py_or tmo (timeout (self s))"
    and "prx' = py_or prx (proxies (self s))"
  shows
    "requests (snd (translate e text tgt src tmo prx s)) =
       requests s @
         (if 5000 < length text then []
          else (case utf8_encode text of
                  Inl err \<Rightarrow> []
                | Inr bs \<Rightarrow> map (\<lambda>t. request_for e t src' bs tmo' prx') targets))
     \<and> (fst (translate e text tgt src tmo prx s) = Inr v \<longrightarrow>
          (\<exists>vs. v = PList vs \<and> length vs = length targets
             \<and> map Inr vs =
                 map (outcome e targets src' text tmo' prx' s) (yield_order e (length targets))))
     \<and> mset (yield_order e n) = mset [0..<n]
     \<and> filter (done_early e) (yield_order e n) @ filter (\<lambda>i. \<not> done_early e i) (yield_order e n) =
         yield_order e n
     \<and> filter (done_early e) (yield_order e n) = sort_key (set_rank e) (filter (done_early e) [0..<n])
     \<and> filter (\<lambda>i. \<not> done_early e i) (yield_order e n) =
         sort_key (completion_rank e) (filter (\<lambda>i. \<not> done_early e i) [0..<n])
     \<and> ((\<forall>i<n. \<not> done_early e i) \<longrightarrow> yield_order e n = sort_key (completion_rank e) [0..<n])"
proof (intro conjI impI)
  show "requests (snd (translate e text tgt src tmo prx s)) =
       requests s @
         (if 5000 < length text then []
          else (case utf8_encode text of
                  Inl err \<Rightarrow> []
                | Inr bs \<Rightarrow> map (\<lambda>t. request_for e t src' bs tmo' prx') targets))"
    using assms by (simp add: translate_requests sent_def split: sum.split)
next
  assume r: "fst (translate e text tgt src tmo prx s) = Inr v"
  have "\<not> 5000 < length text"
  proof
    assume "5000 < length text"
    then have "fst (translate e text tgt src tmo prx s) = Inl (SystemExit 1)"
      by (simp add: translate_long)
    with r show False by simp
  qed
  then have "translate e text tgt src tmo prx s = dispatch e text (PList targets) src' tmo' prx' s"
    using assms by (simp add: translate_short)
  with r have "fst (dispatch e text (PList targets) src' tmo' prx' s) = Inr v" by simp
  then show "\<exists>vs. v = PList vs \<and> length vs = length targets
             \<and> map Inr vs =
                 map (outcome e targets src' text tmo' prx' s) (yield_order e (length targets))"
    by (rule dispatch_list_order)
next
  show "mset (yield_order e n) = mset [0..<n]" by (rule mset_yield_order)
next
  show "filter (done_early e) (yield_order e n) @ filter (\<lambda>i. \<not> done_early e i) (yield_order e n) =
         yield_order e n"
    by (rule yield_order_split)
next
  show "filter (done_early e) (yield_order e n) = sort_key (set_rank e) (filter (done_early e) [0..<n])"
    by (rule yield_order_finished)
next
  show "filter (\<lambda>i. \<not> done_early e i) (yield_order e n) =
         sort_key (completion_rank e) (filter (\<lambda>i. \<not> done_early e i) [0..<n])"
    by (rule yield_order_pending)
next
  assume "\<forall>i<n. \<not> done_early e i"
  then show "yield_order e n = sort_key (completion_rank e) [0..<n]"
    by (rule yield_order_none_early)
qed

theorem fan_out_results_in_yield_order_witness:
  "requests (snd (translate (scheduled_env three_bodies (\<lambda>i. False) (\<lambda>i. 0) (\<lambda>i. (i + 2) mod 3))
      (asc ''Hello'') (PList [PStr (asc ''tr''), PStr (asc ''fr''), PStr (asc ''de'')]) PNone PNone PNone
      (fresh_state (EasyGoogleTranslate_init None None None None)))) =
     [\<lparr>req_url = asc ''https://translate.google.com/m?tl=tr&sl=auto&q=Hello'',
        req_timeout = PInt 5, req_proxies = PNone\<rparr>,
      \<lparr>req_url = asc ''https://translate.google.com/m?tl=fr&sl=auto&q=Hello'',
        req_timeout = PInt 5, req_proxies = PNone\<rparr>,
      \<lparr>req_url = asc ''https://translate.google.com/m?tl=de&sl=auto&q=Hello'',
        req_timeout = PInt 5, req_proxies = PNone\<rparr>]
   \<and> fst (translate (scheduled_env three_bodies (\<lambda>i. False) (\<lambda>i. 0) (\<lambda>i. (i + 2) mod 3))
      (asc ''Hello'') (PList [PStr (asc ''tr''), PStr (asc ''fr''), PStr (asc ''de'')]) PNone PNone PNone
      (fresh_state (EasyGoogleTranslate_init None None None None))) =
     Inr (PList [PStr (asc ''Bonjour''), PStr (asc ''Hallo''), PStr (asc ''Merhaba'')])
   \<and> yield_order (scheduled_env three_bodies (\<lambda>i. False) (\<lambda>i. 0) (\<lambda>i. (i + 2) mod 3)) 3 = [1, 2, 0]
   \<and> map Inr [PStr (asc ''Bonjour''), PStr (asc ''Hallo''), PStr (asc ''Merhaba'')] =
       map (outcome (scheduled_env three_bodies (\<lambda>i. False) (\<lambda>i. 0) (\<lambda>i. (i + 2) mod 3))
              [PStr (asc ''tr''), PStr (asc ''fr''), PStr (asc ''de'')] (PStr (asc ''auto''))
              (asc ''Hello'') (PInt 5) PNone
              (fresh_state (EasyGoogleTranslate_init None None None None))) [1, 2, 0]"
proof -
  let ?e = "scheduled_env three_bodies (\<lambda>i. False) (\<lambda>i. 0) (\<lambda>i. (i + 2) mod 3)"
  let ?s = "fresh_state (EasyGoogleTranslate_init None None None None)"
  let ?tr = "PStr (asc ''tr'')" and ?fr = "PStr (asc ''fr'')" and ?de = "PStr (asc ''de'')"
  let ?auto = "PStr (asc ''auto'')"
  let ?targets = "[?tr, ?fr, ?de]"
  let ?v = "PList [PStr (asc ''Bonjour''), PStr (asc ''Hallo''), PStr (asc ''Merhaba'')]"
  have r1: "py_or (PList ?targets) (target_language (self ?s)) = PList ?targets" by (simp add: py_or_def)
  have r2: "?auto = py_or PNone (source_language (self ?s))" by (simp add: py_or_def)
  have r3: "PInt 5 = py_or PNone (timeout (self ?s))" by (simp add: py_or_def)
  have r4: "PNone = py_or PNone (proxies (self ?s))" by (simp add: py_or_def)
  have l: "\<not> 5000 < length (asc ''Hello'')" and l': "length (asc ''Hello'') \<le> 5000"
    by (simp_all add: asc_def)
  note a = fan_out_results_in_yield_order [OF r1 r2 r3 r4, of ?e "asc ''Hello''" ?v 3]
  have ne: "\<forall>i<3. \<not> done_early ?e i" by (simp add: scheduled_env_def)
  have 1: "requests (snd (translate ?e (asc ''Hello'') (PList ?targets) PNone PNone PNone ?s)) =
     [\<lparr>req_url = asc ''https://translate.google.com/m?tl=tr&sl=auto&q=Hello'',
        req_timeout = PInt 5, req_proxies = PNone\<rparr>,
      \<lparr>req_url = asc ''https://translate.google.com/m?tl=fr&sl=auto&q=Hello'',
        req_timeout = PInt 5, req_proxies = PNone\<rparr>,
      \<lparr>req_url = asc ''https://translate.google.com/m?tl=de&sl=auto&q=Hello'',
        req_timeout = PInt 5, req_proxies = PNone\<rparr>]"
    using a [THEN conjunct1]
    by (simp add: l utf8_hello request_for_hello) (simp add: asc_def)
  have "yield_order ?e 3 = sort_key (completion_rank ?e) [0..<3]"
    using a [THEN conjunct2, THEN conjunct2, THEN conjunct2, THEN conjunct2, THEN conjunct2,
        THEN conjunct2, THEN mp, OF ne] .
  then have 3: "yield_order ?e 3 = [1, 2, 0]"
    by (simp add: scheduled_env_def upt_3)
  have "as_completed ?e (fst (submit_all ?e ?targets ?auto (asc ''Hello'') (PInt 5) PNone ?s)) =
        [Inr (PStr (asc ''Bonjour'')), Inr (PStr (asc ''Hallo'')), Inr (PStr (asc ''Merhaba''))]"
    by (simp only: three_futures as_completed_3 3) simp
  then have 2: "fst (translate ?e (asc ''Hello'') (PList ?targets) PNone PNone PNone ?s) = Inr ?v"
    by (simp add: translate_short l' py_or_def dispatch_list_fst)
  from a [THEN conjunct2, THEN conjunct1, THEN mp, OF 2]
  obtain vs where v: "?v = PList vs"
    and m: "map Inr vs = map (outcome ?e ?targets ?auto (asc ''Hello'') (PInt 5) PNone ?s)
                        (yield_order ?e (length ?targets))"
    by blast
  have len3: "length ?targets = 3" by simp
  from v have "vs = [PStr (asc ''Bonjour''), PStr (asc ''Hallo''), PStr (asc ''Merhaba'')]" by simp
  with m have 4: "map Inr [PStr (asc ''Bonjour''), PStr (asc ''Hallo''), PStr (asc ''Merhaba'')] =
       map (outcome ?e ?targets ?auto (asc ''Hello'') (PInt 5) PNone ?s) [1, 2, 0]"
    unfolding len3 3 by (simp only:)
  from 1 2 3 4 show ?thesis by (simp only: simp_thms)
qed

end
